(* ===== verification/Es_Prelude.thy ===== *)
theory Es_Prelude
  imports Main "HOL-Library.Word" "HOL-Library.Multiset"
begin

unbundle bit_operations_syntax

text \<open>
  Shared ground of the development: the machine types of the C extension, the collections of
  automation facts, the arithmetic of ring positions (a position is a \<open>size_t\<close>, its slot is
  \<open>position & mask\<close>, two counters are compared by their signed difference) and the generic runner
  of the step machines that model the C functions which work on shared atomics one access at a
  time.
\<close>

section \<open>Machine types\<close>

type_synonym size_t = "64 word"
type_synonym uint64 = "64 word"
type_synonym uint32 = "32 word"

abbreviation SIZE_MAX :: size_t where "SIZE_MAX \<equiv> - 1"
abbreviation UINT64_MAX :: uint64 where "UINT64_MAX \<equiv> - 1"
abbreviation UINT32_MAX :: uint32 where "UINT32_MAX \<equiv> - 1"

named_theorems ring_arith \<open>arithmetic of ring positions and slot indices\<close>
named_theorems frame_simps \<open>fields an operation leaves alone\<close>

section \<open>Positions, masks and signed differences\<close>

text \<open>The C expression \<open>(intptr_t)a - (intptr_t)b\<close>, on a two's complement machine.\<close>

definition intptr_difference :: "size_t \<Rightarrow> size_t \<Rightarrow> int" where
  "intptr_difference a b = sint (a - b)"

lemma sint_of_int_small:
  assumes "- (2 ^ 63) \<le> i" and "i < 2 ^ 63"
  shows "sint (of_int i :: 64 word) = i"
  using assms by (simp add: signed_of_int signed_take_bit_int_eq_self)

lemma intptr_difference_of_nat:
  assumes "a < b + 2 ^ 63" and "b \<le> a + 2 ^ 63"
  shows "intptr_difference (of_nat a) (of_nat b) = int a - int b"
proof -
  have "(of_nat a - of_nat b :: 64 word) = of_int (int a - int b)" by simp
  moreover have "sint (of_int (int a - int b) :: 64 word) = int a - int b"
    using assms by (intro sint_of_int_small) auto
  ultimately show ?thesis by (simp add: intptr_difference_def)
qed

lemma intptr_difference_zero [simp]: "intptr_difference a b = 0 \<longleftrightarrow> a = b"
  unfolding intptr_difference_def by (metis right_minus_eq signed_0 signed_eq_0_iff)

lemma intptr_difference_self [simp]: "intptr_difference a a = 0"
  by simp

text \<open>A power of two \<open>2 ^ k\<close> as a \<open>size_t\<close>, and what its mask selects.\<close>

lemma unat_pow2: "k < 64 \<Longrightarrow> unat (2 ^ k :: size_t) = 2 ^ k"
proof -
  assume "k < 64"
  then have "(2::nat) ^ k < 2 ^ 64" by (intro power_strict_increasing) simp_all
  moreover have "(2 ^ k :: size_t) = of_nat (2 ^ k)" by simp
  ultimately show ?thesis by (simp only: unat_of_nat) simp
qed

lemma unat_and_pow2_mask:
  assumes "k < 64"
  shows "unat (w AND (2 ^ k - 1 :: size_t)) = unat w mod 2 ^ k"
proof -
  have "w AND (2 ^ k - 1) = take_bit k w"
    by (simp only: take_bit_eq_mask mask_eq_exp_minus_1)
  then have "unat (w AND (2 ^ k - 1)) = take_bit k (unat w)"
    by (simp only: unsigned_take_bit_eq)
  then show ?thesis
    by (simp only: take_bit_eq_mod)
qed

lemma unat_of_nat_mod_pow2:
  assumes "k < 64"
  shows "unat (of_nat m :: size_t) mod 2 ^ k = m mod 2 ^ k"
proof -
  have "(2::nat) ^ k dvd 2 ^ 64" using assms by (intro le_imp_power_dvd) simp
  then show ?thesis by (simp only: unat_of_nat mod_mod_cancel len_num0 len_bit0 len_num1 One_nat_def) (simp add: mod_mod_cancel)
qed

lemma slot_of_nat [ring_arith]:
  "k < 64 \<Longrightarrow> unat (of_nat m AND (2 ^ k - 1 :: size_t)) = m mod 2 ^ k"
  by (simp add: unat_and_pow2_mask unat_of_nat_mod_pow2)

lemma of_nat_eq_of_nat_near:
  assumes "(of_nat a :: size_t) = of_nat b" and "a < b + 2 ^ 63" and "b < a + 2 ^ 63"
  shows "a = b"
proof -
  have "intptr_difference (of_nat a) (of_nat b) = int a - int b"
    using assms(2,3) by (intro intptr_difference_of_nat) simp_all
  moreover have "intptr_difference (of_nat a) (of_nat b) = 0"
    by (simp add: assms(1))
  ultimately show ?thesis by simp
qed

text \<open>Positions one lap apart share a slot, positions within a lap do not.\<close>

lemma window_inj:
  assumes "(e::nat) \<le> m" "m < e + n" "e \<le> m'" "m' < e + n" "m mod n = m' mod n"
  shows "m = m'"
  using assms
proof -
  have "m = m'" if "m mod n = m' mod n" "m \<le> m'" "m' < m + n" for m m' :: nat
  proof -
    have "n dvd m' - m" using that(1,2) by (metis mod_eq_dvd_iff_nat)
    moreover have "m' - m < n" using that(2,3) by simp
    ultimately have "m' - m = 0" by (meson nat_dvd_not_less neq0_conv)
    with that(2) show ?thesis by simp
  qed
  from this [of m m'] this [of m' m] show ?thesis using assms by linarith
qed

lemma window_exists:
  assumes "0 < (n::nat)"
  shows "\<exists>m. e \<le> m \<and> m < e + n \<and> m mod n = p mod n"
proof -
  let ?m = "e + (p + n * e - e) mod n"
  have "?m mod n = (e + (p + n * e - e)) mod n" by (simp add: mod_add_right_eq)
  also have "e + (p + n * e - e) = p + n * e" using assms by (cases n) auto
  finally show ?thesis using assms by (intro exI [of _ ?m]) simp
qed

lemma lap_apart:
  assumes "(p::nat) < m" and "m mod n = p mod n"
  shows "p + n \<le> m"
proof -
  have "n dvd m - p" using assms by (metis mod_eq_dvd_iff_nat nat_less_le)
  then have "n \<le> m - p" using assms(1) by (intro dvd_imp_le) auto
  then show ?thesis using assms(1) by simp
qed

section \<open>Powers of two and their bit pattern\<close>

lemma bit_top_nat:
  assumes "2 ^ k \<le> (c::nat)" and "c < 2 ^ Suc k"
  shows "bit c k"
proof -
  have "c div 2 ^ k = 1"
    using assms by (intro div_nat_eqI) auto
  then show ?thesis by (simp add: bit_iff_odd)
qed

lemma ex_top_power:
  assumes "0 < (c::nat)"
  shows "\<exists>k. 2 ^ k \<le> c \<and> c < 2 ^ Suc k"
  using assms
proof (induction c rule: less_induct)
  case (less c)
  show ?case
  proof (cases "c = 1")
    case True
    then show ?thesis by (intro exI [of _ 0]) simp
  next
    case False
    with less.prems obtain k where "2 ^ k \<le> c div 2" and "c div 2 < 2 ^ Suc k"
      using less.IH [of "c div 2"] by fastforce
    then show ?thesis by (intro exI [of _ "Suc k"]) auto
  qed
qed

text \<open>The test \<open>c & (c - 1)\<close> recognises exactly the powers of two among the positive words.\<close>

lemma and_pred_zero_iff:
  assumes "0 < (c :: size_t)"
  shows "c AND (c - 1) = 0 \<longleftrightarrow> (\<exists>k < 64. c = 2 ^ k)"
proof
  assume clear: "c AND (c - 1) = 0"
  have pos: "0 < unat c" using assms by (simp add: word_less_nat_alt)
  obtain k where k: "2 ^ k \<le> unat c" "unat c < 2 ^ Suc k"
    using ex_top_power [OF pos] by blast
  have "unat c < 2 ^ 64" using unsigned_less [of c] by simp
  then have "k < 64" using k(1) by (meson le_less_trans nat_power_less_imp_less zero_less_numeral)
  have pred: "unat (c - 1) = unat c - 1"
    using assms by (simp add: unat_minus_one)
  have "unat c = 2 ^ k"
  proof (rule ccontr)
    assume "unat c \<noteq> 2 ^ k"
    with k have "bit (unat c) k" "bit (unat c - 1) k"
      by (auto intro!: bit_top_nat)
    then have "bit (unat c) k" "bit (unat (c - 1)) k"
      by (simp_all add: pred)
    then have "bit c k" "bit (c - 1) k"
      by (simp_all only: bit_unsigned_iff)
    then have "bit (c AND (c - 1)) k" by (simp add: bit_and_iff)
    with clear show False by simp
  qed
  then have "c = 2 ^ k" using \<open>k < 64\<close> by (intro unsigned_word_eqI [where ?'a = nat]) (simp add: unat_pow2)
  with \<open>k < 64\<close> show "\<exists>k < 64. c = 2 ^ k" by blast
next
  assume "\<exists>k < 64. c = 2 ^ k"
  then obtain k where "k < 64" "c = 2 ^ k" by blast
  then have "unat (c AND (c - 1)) = 0"
    by (simp add: unat_and_pow2_mask unat_pow2)
  then show "c AND (c - 1) = 0" by (simp add: unat_eq_zero)
qed

section \<open>Lists updated by index\<close>

lemma nth_list_update_cases:
  "i < length xs \<Longrightarrow> xs[i := x] ! j = (if i = j then x else xs ! j)"
  by (auto simp: nth_list_update)

section \<open>Running a step machine alone\<close>

text \<open>
  A C function that loops over atomics is modelled as a step machine: a control state, and one
  step per access to shared memory. \<open>run_steps\<close> runs a machine with no other thread in between;
  it is \<open>None\<close> when the function does not return in that case (it spins on a value no other
  thread changes).
\<close>

partial_function (option) run_steps ::
    "('pc \<Rightarrow> 's \<Rightarrow> 'pc \<times> 's) \<Rightarrow> ('pc \<Rightarrow> 'r option) \<Rightarrow> 'pc \<Rightarrow> 's \<Rightarrow> ('r \<times> 's) option" where
  "run_steps step done pc s =
     (case done pc of
        Some r \<Rightarrow> Some (r, s)
      | None \<Rightarrow> run_steps step done (fst (step pc s)) (snd (step pc s)))"

lemma run_steps_done: "done pc = Some r \<Longrightarrow> run_steps step done pc s = Some (r, s)"
  by (simp add: run_steps.simps)

lemma run_steps_next:
  "done pc = None \<Longrightarrow>
    run_steps step done pc s = run_steps step done (fst (step pc s)) (snd (step pc s))"
  by (subst run_steps.simps) simp

lemma run_steps_step:
  "done pc = None \<Longrightarrow> step pc s = (pc', s') \<Longrightarrow>
    run_steps step done pc s = run_steps step done pc' s'"
  by (subst run_steps.simps) simp

end
