(* ===== verification/Queue_Model.thy ===== *)
theory Queue_Model
  imports Es_Prelude
begin

text \<open>
  The lock-free message ring of ext/endpoint_security/queue.h and queue.c, with the parts of the
  Endpoint Security message it stores. A slot pointer is the index of the slot in \<open>slots\<close>. Every
  function that works on shared atomics is a step machine, one access to shared memory per step,
  so the same definitions serve two readings: run alone (\<open>run_steps\<close>), they are the C functions
  called with no interference; interleaved, they are the threads of the concurrent model. Memory
  is sequentially consistent; a weak compare-and-exchange may fail spuriously, which is the
  argument \<open>spurious\<close> of the steps that perform one.
\<close>

section \<open>Messages\<close>

text \<open>
  The fields of \<open>es_message_t\<close> the extension reads (the struct itself is declared in Apple's
  header). The pointer is \<open>msg_address\<close>. An \<open>es_client_t *\<close> is an opaque number, NULL is \<open>None\<close>.
\<close>

datatype es_action_type =
    ES_ACTION_TYPE_AUTH
  | ES_ACTION_TYPE_NOTIFY
  | ES_ACTION_TYPE_OTHER int

datatype es_auth_result = ES_AUTH_RESULT_ALLOW | ES_AUTH_RESULT_DENY | ES_AUTH_RESULT_OTHER int

datatype es_notify_result =
    ES_RESULT_TYPE_AUTH es_auth_result
  | ES_RESULT_TYPE_FLAGS uint32
  | ES_RESULT_TYPE_OTHER int

type_synonym native_client = "nat option"

record es_message =
  msg_address :: uint64
  msg_version :: uint32
  msg_event_type :: int
  msg_action_type :: es_action_type
  msg_deadline :: uint64
  msg_mach_time :: uint64
  msg_seq_num :: uint64
  msg_global_seq_num :: uint64
  msg_notify_result :: es_notify_result
  msg_time :: "int \<times> int"
  msg_process :: uint64
  msg_thread :: uint64

definition is_auth :: "es_message \<Rightarrow> bool" where
  "is_auth m \<longleftrightarrow> msg_action_type m = ES_ACTION_TYPE_AUTH"

section \<open>Slots and the ring\<close>

datatype answer = ESRB_ANSWER_PENDING | ESRB_ANSWER_ANSWERED | ESRB_ANSWER_NOT_AUTH

record esrb_slot =
  sequence :: size_t
  occupied :: bool
  slot_message :: "es_message option"
  slot_client :: native_client
  slot_position :: size_t
  slot_fire_at :: uint64
  answer_state :: answer
  readers :: uint32
  watchdog_index :: size_t

record esrb_queue =
  capacity :: size_t
  queue_mask :: size_t
  slots :: "esrb_slot list"
  enqueue_position :: size_t
  dequeue_position :: size_t
  depth_max :: size_t

text \<open>\<open>&queue->slots[position & queue->mask]\<close>, and an assignment through a slot pointer.\<close>

definition slot_of :: "esrb_queue \<Rightarrow> size_t \<Rightarrow> nat" where
  "slot_of queue position = unat (position AND queue_mask queue)"

definition slot_at :: "esrb_queue \<Rightarrow> nat \<Rightarrow> esrb_slot" where
  "slot_at queue i = slots queue ! i"

definition set_slot :: "nat \<Rightarrow> (esrb_slot \<Rightarrow> esrb_slot) \<Rightarrow> esrb_queue \<Rightarrow> esrb_queue" where
  "set_slot i f queue = queue\<lparr>slots := (slots queue)[i := f (slots queue ! i)]\<rparr>"

section \<open>Initialisation\<close>

text \<open>\<open>calloc\<close> zeroes a slot; \<open>esrb_queue_init\<close> then sets the atomics of slot \<open>index\<close>.\<close>

definition calloc_slot :: esrb_slot where
  "calloc_slot = \<lparr>sequence = 0, occupied = False, slot_message = None, slot_client = None,
     slot_position = 0, slot_fire_at = 0, answer_state = ESRB_ANSWER_PENDING, readers = 0,
     watchdog_index = 0\<rparr>"

definition init_slot :: "nat \<Rightarrow> esrb_slot" where
  "init_slot index = calloc_slot\<lparr>sequence := of_nat index, occupied := False,
     answer_state := ESRB_ANSWER_NOT_AUTH, readers := 0, watchdog_index := SIZE_MAX\<rparr>"

text \<open>\<open>allocated\<close> says whether \<open>calloc\<close> returned memory. The result is the returned bool and the
  queue; a queue whose initialisation failed keeps its fields.\<close>

definition esrb_queue_init :: "bool \<Rightarrow> esrb_queue \<Rightarrow> size_t \<Rightarrow> bool \<times> esrb_queue" where
  "esrb_queue_init allocated queue n =
     (if n < 2 \<or> n AND (n - 1) \<noteq> 0 then (False, queue)
      else if \<not> allocated then (False, queue\<lparr>slots := []\<rparr>)
      else (True, queue\<lparr>capacity := n, queue_mask := n - 1, enqueue_position := 0,
              dequeue_position := 0, depth_max := 0, slots := map init_slot [0..<unat n]\<rparr>))"

definition esrb_queue_destroy :: "esrb_queue \<Rightarrow> esrb_queue" where
  "esrb_queue_destroy queue = queue\<lparr>slots := []\<rparr>"

section \<open>Enqueue\<close>

datatype enq_pc =
    Enq_Load
  | Enq_Check size_t
  | Enq_Cas size_t
  | Enq_Mark size_t
  | Enq_Return "nat option"

text \<open>
  \<open>Enq_Load\<close> reads \<open>enqueue_position\<close>; \<open>Enq_Check\<close> reads the slot's sequence and branches on the
  difference; \<open>Enq_Cas\<close> tries to claim the position (on failure the C variable \<open>position\<close> holds the
  value found); \<open>Enq_Mark\<close> writes \<open>slot->position\<close>.
\<close>

fun enqueue_step :: "bool \<Rightarrow> enq_pc \<Rightarrow> esrb_queue \<Rightarrow> enq_pc \<times> esrb_queue" where
  "enqueue_step spurious Enq_Load queue = (Enq_Check (enqueue_position queue), queue)"
| "enqueue_step spurious (Enq_Check position) queue =
     (let difference = intptr_difference (sequence (slot_at queue (slot_of queue position))) position
      in if difference = 0 then (Enq_Cas position, queue)
         else if difference < 0 then (Enq_Return None, queue)
         else (Enq_Load, queue))"
| "enqueue_step spurious (Enq_Cas position) queue =
     (if \<not> spurious \<and> enqueue_position queue = position
      then (Enq_Mark position, queue\<lparr>enqueue_position := position + 1\<rparr>)
      else (Enq_Check (enqueue_position queue), queue))"
| "enqueue_step spurious (Enq_Mark position) queue =
     (Enq_Return (Some (slot_of queue position)),
      set_slot (slot_of queue position) (\<lambda>s. s\<lparr>slot_position := position\<rparr>) queue)"
| "enqueue_step spurious (Enq_Return r) queue = (Enq_Return r, queue)"

fun enq_done :: "enq_pc \<Rightarrow> nat option option" where
  "enq_done (Enq_Return r) = Some r"
| "enq_done _ = None"

definition esrb_queue_enqueue :: "esrb_queue \<Rightarrow> (nat option \<times> esrb_queue) option" where
  "esrb_queue_enqueue queue = run_steps (enqueue_step False) enq_done Enq_Load queue"

section \<open>Publish\<close>

datatype pub_pc =
    Pub_Dequeued
  | Pub_Maximum size_t
  | Pub_Cas size_t size_t
  | Pub_Store
  | Pub_Return

text \<open>
  \<open>Pub_Dequeued\<close> and \<open>Pub_Maximum\<close> read \<open>dequeue_position\<close> and \<open>depth_max\<close>; \<open>Pub_Cas depth maximum\<close>
  is one turn of the loop that raises \<open>depth_max\<close>; \<open>Pub_Store\<close> publishes the slot.
\<close>

fun publish_step :: "bool \<Rightarrow> nat \<Rightarrow> pub_pc \<Rightarrow> esrb_queue \<Rightarrow> pub_pc \<times> esrb_queue" where
  "publish_step spurious slot Pub_Dequeued queue =
     (Pub_Maximum (slot_position (slot_at queue slot) + 1 - dequeue_position queue), queue)"
| "publish_step spurious slot (Pub_Maximum depth) queue = (Pub_Cas depth (depth_max queue), queue)"
| "publish_step spurious slot (Pub_Cas depth maximum) queue =
     (if depth > maximum then
        (if \<not> spurious \<and> depth_max queue = maximum
         then (Pub_Store, queue\<lparr>depth_max := depth\<rparr>)
         else (Pub_Cas depth (depth_max queue), queue))
      else (Pub_Store, queue))"
| "publish_step spurious slot Pub_Store queue =
     (Pub_Return, set_slot slot (\<lambda>s. s\<lparr>sequence := slot_position s + 1\<rparr>) queue)"
| "publish_step spurious slot Pub_Return queue = (Pub_Return, queue)"

fun pub_done :: "pub_pc \<Rightarrow> unit option" where
  "pub_done Pub_Return = Some ()"
| "pub_done _ = None"

definition esrb_queue_publish :: "esrb_queue \<Rightarrow> nat \<Rightarrow> esrb_queue option" where
  "esrb_queue_publish queue slot =
     map_option snd (run_steps (publish_step False slot) pub_done Pub_Dequeued queue)"

section \<open>Dequeue\<close>

datatype deq_pc =
    Deq_Load
  | Deq_Check size_t
  | Deq_Cas size_t
  | Deq_Return "nat option"

fun dequeue_step :: "bool \<Rightarrow> deq_pc \<Rightarrow> esrb_queue \<Rightarrow> deq_pc \<times> esrb_queue" where
  "dequeue_step spurious Deq_Load queue = (Deq_Check (dequeue_position queue), queue)"
| "dequeue_step spurious (Deq_Check position) queue =
     (let difference =
            intptr_difference (sequence (slot_at queue (slot_of queue position))) (position + 1)
      in if difference = 0 then (Deq_Cas position, queue)
         else if difference < 0 then (Deq_Return None, queue)
         else (Deq_Load, queue))"
| "dequeue_step spurious (Deq_Cas position) queue =
     (if \<not> spurious \<and> dequeue_position queue = position
      then (Deq_Return (Some (slot_of queue position)), queue\<lparr>dequeue_position := position + 1\<rparr>)
      else (Deq_Check (dequeue_position queue), queue))"
| "dequeue_step spurious (Deq_Return r) queue = (Deq_Return r, queue)"

fun deq_done :: "deq_pc \<Rightarrow> nat option option" where
  "deq_done (Deq_Return r) = Some r"
| "deq_done _ = None"

definition esrb_queue_dequeue :: "esrb_queue \<Rightarrow> (nat option \<times> esrb_queue) option" where
  "esrb_queue_dequeue queue = run_steps (dequeue_step False) deq_done Deq_Load queue"

section \<open>Disarm and release\<close>

datatype rel_pc =
    Rel_Clear
  | Rel_Wait
  | Rel_Free
  | Rel_Return

text \<open>
  \<open>Rel_Clear\<close> clears \<open>occupied\<close> and \<open>Rel_Wait\<close> spins until no watchdog reader is inside: together
  they are \<open>esrb_queue_disarm\<close>. \<open>Rel_Free\<close> is the store of \<open>esrb_queue_release\<close> that hands the slot
  to the producer one lap later.
\<close>

fun release_step :: "nat \<Rightarrow> rel_pc \<Rightarrow> esrb_queue \<Rightarrow> rel_pc \<times> esrb_queue" where
  "release_step slot Rel_Clear queue = (Rel_Wait, set_slot slot (\<lambda>s. s\<lparr>occupied := False\<rparr>) queue)"
| "release_step slot Rel_Wait queue =
     (if readers (slot_at queue slot) \<noteq> 0 then (Rel_Wait, queue) else (Rel_Free, queue))"
| "release_step slot Rel_Free queue =
     (Rel_Return, set_slot slot (\<lambda>s. s\<lparr>sequence := slot_position s + capacity queue\<rparr>) queue)"
| "release_step slot Rel_Return queue = (Rel_Return, queue)"

fun disarm_done :: "rel_pc \<Rightarrow> unit option" where
  "disarm_done Rel_Free = Some ()"
| "disarm_done Rel_Return = Some ()"
| "disarm_done _ = None"

fun rel_done :: "rel_pc \<Rightarrow> unit option" where
  "rel_done Rel_Return = Some ()"
| "rel_done _ = None"

definition esrb_queue_disarm :: "esrb_queue \<Rightarrow> nat \<Rightarrow> esrb_queue option" where
  "esrb_queue_disarm queue slot =
     map_option snd (run_steps (release_step slot) disarm_done Rel_Clear queue)"

definition esrb_queue_release :: "esrb_queue \<Rightarrow> nat \<Rightarrow> esrb_queue option" where
  "esrb_queue_release queue slot =
     map_option snd (run_steps (release_step slot) rel_done Rel_Clear queue)"

definition esrb_queue_depth :: "esrb_queue \<Rightarrow> size_t" where
  "esrb_queue_depth queue = enqueue_position queue - dequeue_position queue"

section \<open>Slot access\<close>

lemma slot_at_set_slot [simp]:
  "i < length (slots queue) \<Longrightarrow>
    slot_at (set_slot i f queue) j = (if i = j then f (slot_at queue i) else slot_at queue j)"
  by (simp add: slot_at_def set_slot_def nth_list_update_cases)

lemma set_slot_fields [simp, frame_simps]:
  "capacity (set_slot i f queue) = capacity queue"
  "queue_mask (set_slot i f queue) = queue_mask queue"
  "enqueue_position (set_slot i f queue) = enqueue_position queue"
  "dequeue_position (set_slot i f queue) = dequeue_position queue"
  "depth_max (set_slot i f queue) = depth_max queue"
  "length (slots (set_slot i f queue)) = length (slots queue)"
  by (simp_all add: set_slot_def)

lemma slot_of_cong [simp]:
  "slot_of (set_slot i f queue) = slot_of queue"
  "slot_of (queue\<lparr>enqueue_position := e\<rparr>) = slot_of queue"
  "slot_of (queue\<lparr>dequeue_position := d\<rparr>) = slot_of queue"
  "slot_of (queue\<lparr>depth_max := m\<rparr>) = slot_of queue"
  by (simp_all add: slot_of_def fun_eq_iff)

lemma slot_at_cong [simp]:
  "slot_at (queue\<lparr>enqueue_position := e\<rparr>) = slot_at queue"
  "slot_at (queue\<lparr>dequeue_position := d\<rparr>) = slot_at queue"
  "slot_at (queue\<lparr>depth_max := m\<rparr>) = slot_at queue"
  by (simp_all add: slot_at_def fun_eq_iff)

end
