(* ===== verification/Ring_Invariant.thy ===== *)
theory Ring_Invariant
  imports Queue_Model
begin

text \<open>
  The invariant of the message ring, and what each access of the step machines of
  \<open>Queue_Model\<close> does to it. Positions are counted without bound as natural numbers (the code holds
  them modulo \<open>2 ^ 64\<close>): \<open>e\<close> positions have been claimed by producers and \<open>d\<close> taken by consumers.
  \<open>C\<close> holds the claimed positions not yet published, \<open>U\<close> those of them whose \<open>slot->position\<close> is not
  yet written, \<open>R\<close> the positions whose slot has been released.
\<close>

section \<open>The invariant\<close>

text \<open>
  Position \<open>m\<close> is the next one slot \<open>m mod 2 ^ k\<close> can serve, for \<open>m\<close> in the window of one lap from
  \<open>e\<close>. The slot's sequence says where its last position \<open>m - 2 ^ k\<close> is in its life.
\<close>

definition next_sequence :: "nat \<Rightarrow> nat set \<Rightarrow> nat set \<Rightarrow> nat \<Rightarrow> nat" where
  "next_sequence k C R m =
     (if m < 2 ^ k \<or> m - 2 ^ k \<in> R then m
      else if m - 2 ^ k \<in> C then m - 2 ^ k
      else m - 2 ^ k + 1)"

definition ring :: "nat \<Rightarrow> nat \<Rightarrow> nat \<Rightarrow> nat set \<Rightarrow> nat set \<Rightarrow> nat set \<Rightarrow> esrb_queue \<Rightarrow> bool" where
  "ring k e d U C R queue \<longleftrightarrow>
     1 \<le> k \<and> k \<le> 62 \<and> capacity queue = 2 ^ k \<and> queue_mask queue = 2 ^ k - 1 \<and>
     length (slots queue) = 2 ^ k \<and>
     enqueue_position queue = of_nat e \<and> dequeue_position queue = of_nat d \<and>
     d \<le> e \<and> U \<subseteq> C \<and> C \<subseteq> {d..<e} \<and> R \<subseteq> {..<d} \<and> (\<forall>p. p + 2 ^ k < e \<longrightarrow> p \<in> R) \<and>
     (\<forall>m. e \<le> m \<and> m < e + 2 ^ k \<longrightarrow>
        sequence (slot_at queue (m mod 2 ^ k)) = of_nat (next_sequence k C R m)) \<and>
     (\<forall>p. p < e \<and> e \<le> p + 2 ^ k \<and> p \<notin> U \<longrightarrow>
        slot_position (slot_at queue (p mod 2 ^ k)) = of_nat p)"

text \<open>A producer can claim position \<open>e\<close> when the position one lap earlier has been released.\<close>

definition can_claim :: "nat \<Rightarrow> nat \<Rightarrow> nat set \<Rightarrow> bool" where
  "can_claim k e R \<longleftrightarrow> e < 2 ^ k \<or> e - 2 ^ k \<in> R"

lemma ringD:
  assumes "ring k e d U C R queue"
  shows "1 \<le> k" "k \<le> 62" "capacity queue = 2 ^ k" "queue_mask queue = 2 ^ k - 1"
    and "length (slots queue) = 2 ^ k"
    and "enqueue_position queue = of_nat e" "dequeue_position queue = of_nat d"
    and "d \<le> e" "U \<subseteq> C" "C \<subseteq> {d..<e}" "R \<subseteq> {..<d}" "p + 2 ^ k < e \<Longrightarrow> p \<in> R"
    and "e \<le> m \<Longrightarrow> m < e + 2 ^ k \<Longrightarrow>
      sequence (slot_at queue (m mod 2 ^ k)) = of_nat (next_sequence k C R m)"
    and "p < e \<Longrightarrow> e \<le> p + 2 ^ k \<Longrightarrow> p \<notin> U \<Longrightarrow>
      slot_position (slot_at queue (p mod 2 ^ k)) = of_nat p"
  using assms by (auto simp: ring_def)

text \<open>A lap is at least two slots and below \<open>2 ^ 63\<close>, so signed differences within it are exact.\<close>

lemma lap_bounds:
  assumes "1 \<le> k" and "k \<le> 62"
  shows "2 \<le> (2::nat) ^ k" and "(2::nat) ^ k < 2 ^ 63"
proof -
  have "(2::nat) ^ 1 \<le> 2 ^ k" using assms(1) by (intro power_increasing) auto
  then show "2 \<le> (2::nat) ^ k" by simp
  show "(2::nat) ^ k < 2 ^ 63" using assms(2) by (intro power_strict_increasing) auto
qed

lemma ring_lap:
  assumes "ring k e d U C R queue"
  shows "2 \<le> (2::nat) ^ k" and "(2::nat) ^ k < 2 ^ 63"
  using lap_bounds [OF ringD(1,2) [OF assms]] by auto

lemma ring_lap_int:
  assumes "ring k e d U C R queue"
  shows "2 \<le> (2::int) ^ k"
  using ring_lap(1) [OF assms] by (metis of_nat_le_iff of_nat_numeral of_nat_power)

lemma slot_of_ring [ring_arith]:
  assumes "ring k e d U C R queue"
  shows "slot_of queue (of_nat m) = m mod 2 ^ k"
  using ringD(2,4) [OF assms] by (simp add: slot_of_def slot_of_nat)

lemma ring_index [ring_arith]:
  "ring k e d U C R queue \<Longrightarrow> m mod 2 ^ k < length (slots queue)"
  using ringD(5) by fastforce

text \<open>At most one lap of positions is unreleased, so the depth never exceeds the capacity.\<close>

lemma ring_depth_bound:
  assumes "ring k e d U C R queue"
  shows "e \<le> d + 2 ^ k"
proof (rule ccontr)
  assume "\<not> e \<le> d + 2 ^ k"
  then have "d + 2 ^ k < e" by simp
  then have "d \<in> R" by (rule ringD(12) [OF assms])
  then show False using ringD(11) [OF assms] by blast
qed

text \<open>The next sequence of a slot whose current position is \<open>p\<close>.\<close>

lemma ring_sequence_of:
  assumes "ring k e d U C R queue" and "p < e" and "e \<le> p + 2 ^ k"
  shows "sequence (slot_at queue (p mod 2 ^ k)) =
    of_nat (if p \<in> R then p + 2 ^ k else if p \<in> C then p else p + 1)"
  using ringD(13) [OF assms(1), of "p + 2 ^ k"] assms(2,3)
  by (simp add: next_sequence_def)

lemma ring_unreleased_current:
  assumes "ring k e d U C R queue" and "p \<notin> R"
  shows "e \<le> p + 2 ^ k"
  using ringD(12) [OF assms(1), of p] assms(2) by fastforce

lemma ring_claimed:
  assumes "ring k e d U C R queue" and "p \<in> C"
  shows "d \<le> p" "p < e" "p \<notin> R" "e \<le> p + 2 ^ k"
proof -
  show p: "d \<le> p" "p < e" "p \<notin> R" using assms(2) ringD(10,11) [OF assms(1)] by force+
  show "e \<le> p + 2 ^ k" by (rule ring_unreleased_current [OF assms(1) p(3)])
qed

lemma ring_taken:
  assumes "ring k e d U C R queue" and "p < d" and "p \<notin> R"
  shows "p < e" "p \<notin> C" "e \<le> p + 2 ^ k"
proof -
  show "p < e" "p \<notin> C" using assms(2) ringD(8,10) [OF assms(1)] by auto
  show "e \<le> p + 2 ^ k" by (rule ring_unreleased_current [OF assms(1,3)])
qed

section \<open>Initial ring\<close>

lemma esrb_queue_init_ring:
  assumes "esrb_queue_init allocated queue0 (2 ^ k) = (True, queue)" and "k \<le> 62"
  shows "ring k 0 0 {} {} {} queue"
proof -
  have k1: "1 \<le> k"
    using assms by (cases k) (auto simp: esrb_queue_init_def split: if_splits)
  note n = lap_bounds [OF k1 assms(2)]
  have u: "unat (2 ^ k :: size_t) = 2 ^ k" using assms(2) by (intro unat_pow2) simp
  have q: "queue = queue0\<lparr>capacity := 2 ^ k, queue_mask := 2 ^ k - 1, enqueue_position := 0,
      dequeue_position := 0, depth_max := 0, slots := map init_slot [0..<2 ^ k]\<rparr>"
    using assms(1) by (auto simp: esrb_queue_init_def u split: if_splits)
  have "slot_at queue i = init_slot i" if "i < 2 ^ k" for i
    using that by (simp add: q slot_at_def)
  then show ?thesis
    using k1 assms(2) by (auto simp: ring_def q next_sequence_def init_slot_def calloc_slot_def)
qed

section \<open>Producer accesses\<close>

lemma check_claim_difference:
  assumes "ring k e d U C R queue"
  shows "intptr_difference (sequence (slot_at queue (slot_of queue (of_nat e)))) (of_nat e) =
    (if can_claim k e R then 0 else if e - 2 ^ k \<in> C then - (2 ^ k) else 1 - 2 ^ k)"
proof -
  note n = ring_lap [OF assms]
  have "sequence (slot_at queue (slot_of queue (of_nat e))) = of_nat (next_sequence k C R e)"
    using ringD(13) [OF assms, of e] by (simp add: slot_of_ring [OF assms])
  moreover have "intptr_difference (of_nat (next_sequence k C R e)) (of_nat e) =
      int (next_sequence k C R e) - int e"
    using n by (intro intptr_difference_of_nat) (auto simp: next_sequence_def)
  ultimately show ?thesis
    by (auto simp: next_sequence_def can_claim_def)
qed

text \<open>A producer that holds an old value of \<open>enqueue_position\<close> never takes the ring for full.\<close>

lemma behind_enqueue:
  assumes r: "ring k e d U C R queue" and "e \<le> 2 ^ 62" and p: "p < e"
  shows "0 \<le> intptr_difference (sequence (slot_at queue (slot_of queue (of_nat p)))) (of_nat p)"
proof -
  note n = ring_lap [OF r]
  have k: "(2::nat) ^ k \<le> 2 ^ 62" using ringD(2) [OF r] by (intro power_increasing) simp_all
  obtain m where m: "e \<le> m" "m < e + 2 ^ k" "m mod 2 ^ k = p mod 2 ^ k"
    using window_exists [of "2 ^ k" e p] by auto
  have "p + 2 ^ k \<le> m" using lap_apart [of p m "2 ^ k"] m p by simp
  then have s: "p \<le> next_sequence k C R m" "next_sequence k C R m \<le> m"
    using n(1) by (auto simp: next_sequence_def)
  have "sequence (slot_at queue (slot_of queue (of_nat p))) = of_nat (next_sequence k C R m)"
    using ringD(13) [OF r m(1,2)] m(3) by (simp add: slot_of_ring [OF r])
  moreover have "intptr_difference (of_nat (next_sequence k C R m)) (of_nat p) =
      int (next_sequence k C R m) - int p"
    using s m(2) k assms(2) by (intro intptr_difference_of_nat) auto
  ultimately show ?thesis using s by simp
qed

text \<open>A successful claim of position \<open>e\<close>.\<close>

lemma ring_claim:
  assumes r: "ring k e d U C R queue" and c: "can_claim k e R"
  shows "ring k (Suc e) d (insert e U) (insert e C) R (queue\<lparr>enqueue_position := of_nat e + 1\<rparr>)"
proof -
  note D = ringD [OF r]
  have e: "e \<notin> C" "e \<notin> R" using D(8,10,11) by auto
  have old: "p \<in> R" if "p + 2 ^ k < Suc e" for p
    using that c D(12) [of p] by (cases "p + 2 ^ k = e") (auto simp: can_claim_def)
  have seq: "sequence (slot_at queue (m mod 2 ^ k)) =
      of_nat (next_sequence k (insert e C) R m)" if "Suc e \<le> m" "m < Suc e + 2 ^ k" for m
  proof (cases "m = e + 2 ^ k")
    case True
    then have "sequence (slot_at queue (m mod 2 ^ k)) = of_nat (next_sequence k C R e)"
      using D(13) [of e] by simp
    also have "next_sequence k C R e = e" using c by (auto simp: next_sequence_def can_claim_def)
    finally show ?thesis using True e by (simp add: next_sequence_def)
  next
    case False
    then have "m < 2 ^ k \<or> m - 2 ^ k \<noteq> e" using that by auto
    with False that show ?thesis using D(13) [of m] by (auto simp: next_sequence_def)
  qed
  show ?thesis
    unfolding ring_def using D(1-11) old seq D(14) by (auto simp: of_nat_Suc)
qed

text \<open>Writing a field of the slot of a claimed position that the ring does not look at.\<close>

lemma ring_write:
  assumes r: "ring k e d U C R queue"
    and "\<And>s. sequence (f s) = sequence s" and "\<And>s. slot_position (f s) = slot_position s"
  shows "ring k e d U C R (set_slot i f queue)"
proof -
  have "slot_at (set_slot i f queue) j =
      (if i = j \<and> i < length (slots queue) then f (slot_at queue j) else slot_at queue j)" for j
    by (cases "i = j") (auto simp: slot_at_def set_slot_def list_update_beyond)
  then show ?thesis using r by (simp add: ring_def assms(2,3))
qed

lemma ring_mark:
  assumes r: "ring k e d U C R queue" and p: "p \<in> U"
  shows "ring k e d (U - {p}) C R
    (set_slot (slot_of queue (of_nat p)) (\<lambda>s. s\<lparr>slot_position := of_nat p\<rparr>) queue)"
proof -
  note D = ringD [OF r]
  have i: "slot_of queue (of_nat p) = p mod 2 ^ k" by (rule slot_of_ring [OF r])
  have pe: "p < e" "e \<le> p + 2 ^ k" using p D(9) ring_claimed [OF r, of p] by auto
  have len: "p mod 2 ^ k < length (slots queue)" by (rule ring_index [OF r])
  have pos: "slot_position (slot_at queue (p' mod 2 ^ k)) = of_nat p'"
    if "p' < e" "e \<le> p' + 2 ^ k" "p' \<notin> U" for p' using D(14) that by simp
  have inj: "p' = p" if "p' < e" "e \<le> p' + 2 ^ k" "p mod 2 ^ k = p' mod 2 ^ k" for p'
    using window_inj [of e "p' + 2 ^ k" "2 ^ k" "p + 2 ^ k"] that pe by simp
  show ?thesis
    unfolding ring_def i using D(1-13) len pos inj by (auto simp: if_distrib cong: if_cong)
qed

lemma ring_publish:
  assumes r: "ring k e d U C R queue" and p: "p \<in> C" "p \<notin> U"
  shows "ring k e d U (C - {p}) R
    (set_slot (p mod 2 ^ k) (\<lambda>s. s\<lparr>sequence := slot_position s + 1\<rparr>) queue)"
proof -
  note D = ringD [OF r]
  note pe = ring_claimed [OF r p(1)]
  have len: "p mod 2 ^ k < length (slots queue)" by (rule ring_index [OF r])
  have pos: "slot_position (slot_at queue (p mod 2 ^ k)) = of_nat p"
    using D(14) pe p by simp
  have seq: "sequence (slot_at (set_slot (p mod 2 ^ k)
        (\<lambda>s. s\<lparr>sequence := slot_position s + 1\<rparr>) queue) (m mod 2 ^ k)) =
      of_nat (next_sequence k (C - {p}) R m)" if "e \<le> m" "m < e + 2 ^ k" for m
  proof (cases "m = p + 2 ^ k")
    case True
    then show ?thesis using len pos pe by (simp add: next_sequence_def)
  next
    case False
    then have "m mod 2 ^ k \<noteq> p mod 2 ^ k"
      using window_inj [of e m "2 ^ k" "p + 2 ^ k"] that pe by auto
    moreover have "next_sequence k (C - {p}) R m = next_sequence k C R m"
      using False by (auto simp: next_sequence_def)
    ultimately show ?thesis using D(13) [of m] that len by simp
  qed
  show ?thesis
    unfolding ring_def using D(1-12) D(14) p seq len by auto
qed

section \<open>Consumer accesses\<close>

text \<open>The difference at the consumer's position: zero exactly when position \<open>d\<close> is published.\<close>

lemma check_take_difference:
  assumes "ring k e d U C R queue"
  shows "intptr_difference (sequence (slot_at queue (slot_of queue (of_nat d)))) (of_nat d + 1) =
    (if d < e \<and> d \<notin> C then 0 else if d < e then - 1
     else if can_claim k e R then - 1 else if e - 2 ^ k \<in> C then - (2 ^ k) - 1 else - (2 ^ k))"
proof -
  note n = ring_lap [OF assms]
  have diff: "intptr_difference (of_nat a) (of_nat d + 1) = int a - int d - 1"
    if "a < d + 2 ^ 63" "d < a + 2 ^ 63" for a
    using intptr_difference_of_nat [of a "d + 1"] that by (simp add: algebra_simps)
  show ?thesis
  proof (cases "d < e")
    case True
    have "d \<notin> R" using ringD(11) [OF assms] by blast
    then have "sequence (slot_at queue (slot_of queue (of_nat d))) =
        of_nat (if d \<in> C then d else d + 1)"
      using ring_sequence_of [OF assms True] ring_depth_bound [OF assms]
      by (simp add: slot_of_ring [OF assms])
    then show ?thesis using diff [of d] diff [of "d + 1"] True by simp
  next
    case False
    then have "d = e" using ringD(8) [OF assms] by simp
    then have "sequence (slot_at queue (slot_of queue (of_nat d))) = of_nat (next_sequence k C R e)"
      using ringD(13) [OF assms, of e] by (simp add: slot_of_ring [OF assms])
    then show ?thesis using diff [of "next_sequence k C R e"] n \<open>d = e\<close>
      by (auto simp: next_sequence_def can_claim_def)
  qed
qed

lemma ring_take:
  assumes r: "ring k e d U C R queue" and "d < e" "d \<notin> C"
  shows "ring k e (Suc d) U C R (queue\<lparr>dequeue_position := of_nat d + 1\<rparr>)"
proof -
  note D = ringD [OF r]
  have "C \<subseteq> {Suc d..<e}" using D(10) assms(3) by (force simp: Suc_le_eq le_less)
  moreover have "R \<subseteq> {..<Suc d}" using D(11) by auto
  ultimately show ?thesis
    using r assms(2) by (auto simp: ring_def)
qed

lemma ring_release:
  assumes r: "ring k e d U C R queue" and p: "p < d" "p \<notin> R"
  shows "ring k e d U C (insert p R)
    (set_slot (p mod 2 ^ k) (\<lambda>s. s\<lparr>sequence := slot_position s + capacity queue\<rparr>) queue)"
proof -
  note D = ringD [OF r]
  note pe = ring_taken [OF r p]
  have len: "p mod 2 ^ k < length (slots queue)" by (rule ring_index [OF r])
  have pos: "slot_position (slot_at queue (p mod 2 ^ k)) = of_nat p"
    using D(9,14) pe by auto
  have seq: "sequence (slot_at (set_slot (p mod 2 ^ k)
        (\<lambda>s. s\<lparr>sequence := slot_position s + capacity queue\<rparr>) queue) (m mod 2 ^ k)) =
      of_nat (next_sequence k C (insert p R) m)" if "e \<le> m" "m < e + 2 ^ k" for m
  proof (cases "m = p + 2 ^ k")
    case True
    then show ?thesis using len pos pe D(3) by (simp add: next_sequence_def)
  next
    case False
    then have "m mod 2 ^ k \<noteq> p mod 2 ^ k"
      using window_inj [of e m "2 ^ k" "p + 2 ^ k"] that pe by auto
    moreover have "next_sequence k C (insert p R) m = next_sequence k C R m"
      using False by (auto simp: next_sequence_def)
    ultimately show ?thesis using D(13) [of m] that len by simp
  qed
  show ?thesis
    unfolding ring_def using D(1-12) D(14) p seq len by auto
qed

end
