(* ===== verification/Answer_Model.thy ===== *)
theory Answer_Model
  imports Queue_Model
begin

text \<open>
  What the threads do with a slot they share: the producer fills it (client.c, handle_message),
  whoever answers an AUTH message first wins the compare-and-exchange on \<open>answer_state\<close>, and the
  watchdog enters a slot under the \<open>occupied\<close>/\<open>readers\<close> protocol before it answers
  (watchdog.c, answer_due).
\<close>

section \<open>Filling a claimed slot\<close>

definition fill_slot :: "es_message \<Rightarrow> native_client \<Rightarrow> uint64 \<Rightarrow> esrb_slot \<Rightarrow> esrb_slot" where
  "fill_slot message native fire_at s =
     s\<lparr>slot_message := Some message, slot_client := native, slot_fire_at := fire_at,
       answer_state := (if is_auth message then ESRB_ANSWER_PENDING else ESRB_ANSWER_NOT_AUTH)\<rparr>"

section \<open>Winning the right to answer\<close>

text \<open>The strong compare-and-exchange from PENDING to ANSWERED; the bool is its result.\<close>

definition cas_answer :: "nat \<Rightarrow> esrb_queue \<Rightarrow> bool \<times> esrb_queue" where
  "cas_answer slot queue =
     (if answer_state (slot_at queue slot) = ESRB_ANSWER_PENDING
      then (True, set_slot slot (\<lambda>s. s\<lparr>answer_state := ESRB_ANSWER_ANSWERED\<rparr>) queue)
      else (False, queue))"

section \<open>The watchdog inside a slot\<close>

datatype due_pc =
    Due_Check
  | Due_Enter
  | Due_Recheck
  | Due_Position
  | Due_Cas
  | Due_Send
  | Due_Leave
  | Due_Return

text \<open>
  The accesses of \<open>answer_due\<close> for an entry \<open>(slot, position)\<close>. The response itself, made at
  \<open>Due_Send\<close>, is the caller's: it changes no slot.
\<close>

fun due_step :: "nat \<Rightarrow> size_t \<Rightarrow> due_pc \<Rightarrow> esrb_queue \<Rightarrow> due_pc \<times> esrb_queue" where
  "due_step slot position Due_Check queue =
     (if \<not> occupied (slot_at queue slot) then (Due_Return, queue) else (Due_Enter, queue))"
| "due_step slot position Due_Enter queue =
     (Due_Recheck, set_slot slot (\<lambda>s. s\<lparr>readers := readers s + 1\<rparr>) queue)"
| "due_step slot position Due_Recheck queue =
     (if \<not> occupied (slot_at queue slot) then (Due_Leave, queue) else (Due_Position, queue))"
| "due_step slot position Due_Position queue =
     (if slot_position (slot_at queue slot) \<noteq> position then (Due_Leave, queue) else (Due_Cas, queue))"
| "due_step slot position Due_Cas queue =
     (case cas_answer slot queue of (won, queue') \<Rightarrow> (if won then Due_Send else Due_Leave, queue'))"
| "due_step slot position Due_Send queue = (Due_Leave, queue)"
| "due_step slot position Due_Leave queue =
     (Due_Return, set_slot slot (\<lambda>s. s\<lparr>readers := readers s - 1\<rparr>) queue)"
| "due_step slot position Due_Return queue = (Due_Return, queue)"

fun due_done :: "due_pc \<Rightarrow> unit option" where
  "due_done Due_Return = Some ()"
| "due_done _ = None"

section \<open>Frames\<close>

lemma fill_slot_fields [simp, frame_simps]:
  "sequence (fill_slot m c f s) = sequence s"
  "slot_position (fill_slot m c f s) = slot_position s"
  "occupied (fill_slot m c f s) = occupied s"
  "readers (fill_slot m c f s) = readers s"
  "watchdog_index (fill_slot m c f s) = watchdog_index s"
  "slot_message (fill_slot m c f s) = Some m"
  "slot_client (fill_slot m c f s) = c"
  "slot_fire_at (fill_slot m c f s) = f"
  "answer_state (fill_slot m c f s) =
    (if is_auth m then ESRB_ANSWER_PENDING else ESRB_ANSWER_NOT_AUTH)"
  by (simp_all add: fill_slot_def)

lemma cas_answer_frame [frame_simps]:
  assumes "cas_answer i queue = (won, queue')"
  shows "capacity queue' = capacity queue" "queue_mask queue' = queue_mask queue"
    "enqueue_position queue' = enqueue_position queue"
    "dequeue_position queue' = dequeue_position queue" "depth_max queue' = depth_max queue"
    "length (slots queue') = length (slots queue)"
  using assms by (auto simp: cas_answer_def split: if_splits)

lemma cas_answer_slot:
  assumes "cas_answer i queue = (won, queue')" and "i < length (slots queue)"
  shows "won \<longleftrightarrow> answer_state (slot_at queue i) = ESRB_ANSWER_PENDING"
    and "slot_at queue' j = (if won \<and> i = j
      then (slot_at queue j)\<lparr>answer_state := ESRB_ANSWER_ANSWERED\<rparr> else slot_at queue j)"
  using assms by (auto simp: cas_answer_def split: if_splits)

end
