(* ===== verification/Protocol.thy ===== *)
theory Protocol
  imports Ring_Invariant Answer_Model
begin

text \<open>
  The concurrent system: any number of callback threads that run \<open>handle_message\<close>, any number of
  threads that hold a dequeued message (the Ruby side), and the watchdog thread that may try to
  answer any entry at any moment. Threads interleave at every access to shared memory, through
  the step machines of \<open>Queue_Model\<close> and \<open>Answer_Model\<close>. The last five fields of the state are
  history: they are written and never read by a step.
\<close>

section \<open>Threads\<close>

text \<open>
  A callback thread enqueues (client.c:314), fills the slot (326-330), sets \<open>occupied\<close> (331), arms
  the watchdog (332; when the request ring is full it answers itself, 333) and publishes (335). A
  holder dequeues (client.c:518), may answer while it holds the message (message.c:246), and
  releases it: answer with the default (message.c:45), disarm (47), release the native message
  (48), release the slot (49). The flag of the holder's answer says whether it is the one of the
  release.
\<close>

datatype thread =
    Idle
  | Enqueueing es_message enq_pc
  | Filling es_message nat
  | Occupying es_message nat
  | Arming es_message nat
  | ProducerCas nat
  | ProducerSend nat
  | Publishing nat pub_pc
  | Dequeueing deq_pc
  | Holding nat
  | HolderCas nat bool
  | HolderSend nat bool
  | Disarming nat rel_pc
  | Releasing nat rel_pc

datatype watcher = Waiting | Answering nat size_t due_pc

text \<open>The life of a position, from before its claim to the release of its slot.\<close>

datatype life =
    Unborn | Claimed | Marked | Filled | Armed | Published | Held | Cleared | Quiet | Released

record conc =
  ring_q :: esrb_queue
  threads :: "nat \<Rightarrow> thread"
  watch :: watcher
  claims :: "es_message list"
  taken :: "es_message option list"
  pos :: "nat \<Rightarrow> nat"
  life :: "nat \<Rightarrow> life"
  responses :: "(nat \<times> es_message option) list"

definition conc_init :: "esrb_queue \<Rightarrow> conc" where
  "conc_init queue = \<lparr>ring_q = queue, threads = (\<lambda>_. Idle), watch = Waiting, claims = [],
     taken = [], pos = (\<lambda>_. 0), life = (\<lambda>_. Unborn), responses = []\<rparr>"

section \<open>Steps\<close>

text \<open>
  The history a step of each machine writes. The response log records the position in the slot
  and the message the answering thread reads from it.
\<close>

fun note_enqueue :: "nat \<Rightarrow> es_message \<Rightarrow> enq_pc \<Rightarrow> enq_pc \<Rightarrow> conc \<Rightarrow> conc" where
  "note_enqueue t m (Enq_Cas _) (Enq_Mark _) s =
     s\<lparr>claims := claims s @ [m], pos := (pos s)(t := length (claims s)),
       life := (life s)(length (claims s) := Claimed)\<rparr>"
| "note_enqueue t m (Enq_Mark _) pc' s = s\<lparr>life := (life s)(pos s t := Marked)\<rparr>"
| "note_enqueue t m _ _ s = s"

fun note_publish :: "nat \<Rightarrow> pub_pc \<Rightarrow> conc \<Rightarrow> conc" where
  "note_publish t Pub_Store s = s\<lparr>life := (life s)(pos s t := Published)\<rparr>"
| "note_publish t _ s = s"

fun note_dequeue :: "nat \<Rightarrow> deq_pc \<Rightarrow> deq_pc \<Rightarrow> conc \<Rightarrow> conc" where
  "note_dequeue t (Deq_Cas _) (Deq_Return (Some i)) s =
     s\<lparr>taken := taken s @ [slot_message (slot_at (ring_q s) i)],
       pos := (pos s)(t := length (taken s)), life := (life s)(length (taken s) := Held)\<rparr>"
| "note_dequeue t _ _ s = s"

fun note_disarm :: "nat \<Rightarrow> rel_pc \<Rightarrow> rel_pc \<Rightarrow> conc \<Rightarrow> conc" where
  "note_disarm t Rel_Clear pc' s = s\<lparr>life := (life s)(pos s t := Cleared)\<rparr>"
| "note_disarm t Rel_Wait Rel_Free s = s\<lparr>life := (life s)(pos s t := Quiet)\<rparr>"
| "note_disarm t _ _ s = s"

fun note_release :: "nat \<Rightarrow> rel_pc \<Rightarrow> conc \<Rightarrow> conc" where
  "note_release t Rel_Free s = s\<lparr>life := (life s)(pos s t := Released)\<rparr>"
| "note_release t _ s = s"

definition respond :: "nat \<Rightarrow> conc \<Rightarrow> conc" where
  "respond i s = s\<lparr>responses := responses s @
     [(unat (slot_position (slot_at (ring_q s) i)), slot_message (slot_at (ring_q s) i))]\<rparr>"

abbreviation go :: "nat \<Rightarrow> thread \<Rightarrow> esrb_queue \<Rightarrow> conc \<Rightarrow> conc" where
  "go t x q s \<equiv> s\<lparr>ring_q := q, threads := (threads s)(t := x)\<rparr>"

inductive conc_step :: "conc \<Rightarrow> conc \<Rightarrow> bool" where
  callback: "threads s t = Idle \<Longrightarrow> conc_step s (go t (Enqueueing m Enq_Load) (ring_q s) s)"
| enqueue: "threads s t = Enqueueing m pc \<Longrightarrow> enq_done pc = None \<Longrightarrow>
    enqueue_step spurious pc (ring_q s) = (pc', q) \<Longrightarrow>
    conc_step s (note_enqueue t m pc pc' (go t (Enqueueing m pc') q s))"
| full: "threads s t = Enqueueing m (Enq_Return None) \<Longrightarrow> conc_step s (go t Idle (ring_q s) s)"
| claimed: "threads s t = Enqueueing m (Enq_Return (Some i)) \<Longrightarrow>
    conc_step s (go t (Filling m i) (ring_q s) s)"
| fill: "threads s t = Filling m i \<Longrightarrow>
    conc_step s ((go t (Occupying m i) (set_slot i (fill_slot m native fire_at) (ring_q s)) s)
      \<lparr>life := (life s)(pos s t := Filled)\<rparr>)"
| occupy: "threads s t = Occupying m i \<Longrightarrow>
    conc_step s ((go t (Arming m i) (set_slot i (\<lambda>s. s\<lparr>occupied := True\<rparr>) (ring_q s)) s)
      \<lparr>life := (life s)(pos s t := Armed)\<rparr>)"
| armed: "threads s t = Arming m i \<Longrightarrow>
    conc_step s (go t (Publishing i Pub_Dequeued) (ring_q s) s)"
| not_armed: "threads s t = Arming m i \<Longrightarrow> is_auth m \<Longrightarrow>
    conc_step s (go t (ProducerCas i) (ring_q s) s)"
| producer_cas: "threads s t = ProducerCas i \<Longrightarrow> cas_answer i (ring_q s) = (won, q) \<Longrightarrow>
    conc_step s (go t (if won then ProducerSend i else Publishing i Pub_Dequeued) q s)"
| producer_send: "threads s t = ProducerSend i \<Longrightarrow>
    conc_step s (respond i (go t (Publishing i Pub_Dequeued) (ring_q s) s))"
| publish: "threads s t = Publishing i pc \<Longrightarrow> pub_done pc = None \<Longrightarrow>
    publish_step spurious i pc (ring_q s) = (pc', q) \<Longrightarrow>
    conc_step s (note_publish t pc (go t (Publishing i pc') q s))"
| published: "threads s t = Publishing i Pub_Return \<Longrightarrow> conc_step s (go t Idle (ring_q s) s)"
| drain: "threads s t = Idle \<Longrightarrow> conc_step s (go t (Dequeueing Deq_Load) (ring_q s) s)"
| dequeue: "threads s t = Dequeueing pc \<Longrightarrow> deq_done pc = None \<Longrightarrow>
    dequeue_step spurious pc (ring_q s) = (pc', q) \<Longrightarrow>
    conc_step s (note_dequeue t pc pc' (go t (Dequeueing pc') q s))"
| empty: "threads s t = Dequeueing (Deq_Return None) \<Longrightarrow> conc_step s (go t Idle (ring_q s) s)"
| wrapped: "threads s t = Dequeueing (Deq_Return (Some i)) \<Longrightarrow>
    conc_step s (go t (Holding i) (ring_q s) s)"
| answer: "threads s t = Holding i \<Longrightarrow> conc_step s (go t (HolderCas i releasing) (ring_q s) s)"
| holder_cas: "threads s t = HolderCas i releasing \<Longrightarrow> cas_answer i (ring_q s) = (won, q) \<Longrightarrow>
    conc_step s (go t (if won then HolderSend i releasing
      else if releasing then Disarming i Rel_Clear else Holding i) q s)"
| holder_send: "threads s t = HolderSend i releasing \<Longrightarrow>
    conc_step s (respond i
      (go t (if releasing then Disarming i Rel_Clear else Holding i) (ring_q s) s))"
| disarm: "threads s t = Disarming i pc \<Longrightarrow> disarm_done pc = None \<Longrightarrow>
    release_step i pc (ring_q s) = (pc', q) \<Longrightarrow>
    conc_step s (note_disarm t pc pc' (go t (Disarming i pc') q s))"
| disarmed: "threads s t = Disarming i Rel_Free \<Longrightarrow>
    conc_step s (go t (Releasing i Rel_Clear) (ring_q s) s)"
| release: "threads s t = Releasing i pc \<Longrightarrow> rel_done pc = None \<Longrightarrow>
    release_step i pc (ring_q s) = (pc', q) \<Longrightarrow>
    conc_step s (note_release t pc (go t (Releasing i pc') q s))"
| released: "threads s t = Releasing i Rel_Return \<Longrightarrow> conc_step s (go t Idle (ring_q s) s)"
| watch_start: "watch s = Waiting \<Longrightarrow> i < length (slots (ring_q s)) \<Longrightarrow>
    conc_step s (s\<lparr>watch := Answering i position Due_Check\<rparr>)"
| watch_send: "watch s = Answering i position Due_Send \<Longrightarrow>
    conc_step s (respond i (s\<lparr>watch := Answering i position Due_Leave\<rparr>))"
| watch_step: "watch s = Answering i position pc \<Longrightarrow> pc \<noteq> Due_Send \<Longrightarrow> due_done pc = None \<Longrightarrow>
    due_step i position pc (ring_q s) = (pc', q) \<Longrightarrow>
    conc_step s (s\<lparr>ring_q := q, watch := Answering i position pc'\<rparr>)"
| watch_end: "watch s = Answering i position Due_Return \<Longrightarrow> conc_step s (s\<lparr>watch := Waiting\<rparr>)"

inductive reachable :: "esrb_queue \<Rightarrow> conc \<Rightarrow> bool" for queue where
  init: "reachable queue (conc_init queue)"
| step: "reachable queue s \<Longrightarrow> conc_step s s' \<Longrightarrow> reachable queue s'"

end
