(* ===== verification/Protocol_Invariant.thy ===== *)
theory Protocol_Invariant
  imports Protocol
begin

text \<open>
  The invariant of the concurrent system, in five parts: the ring (with the sets the lives of the
  positions determine), the threads (who owns which position, and what each control state knows),
  the contents of the slots, the watchdog, and the answers. Runs are bounded to \<open>2 ^ 62\<close> claimed
  positions, so that no counter wraps while a thread still holds an old value of it.
\<close>

section \<open>Who owns what\<close>

text \<open>The life of the position a thread owns, if it owns one, and the slot it works on.\<close>

fun owned :: "thread \<Rightarrow> life option" where
  "owned (Enqueueing m (Enq_Mark w)) = Some Claimed"
| "owned (Enqueueing m (Enq_Return (Some i))) = Some Marked"
| "owned (Filling m i) = Some Marked"
| "owned (Occupying m i) = Some Filled"
| "owned (Arming m i) = Some Armed"
| "owned (ProducerCas i) = Some Armed"
| "owned (ProducerSend i) = Some Armed"
| "owned (Publishing i Pub_Return) = None"
| "owned (Publishing i pc) = Some Armed"
| "owned (Dequeueing (Deq_Return (Some i))) = Some Held"
| "owned (Holding i) = Some Held"
| "owned (HolderCas i b) = Some Held"
| "owned (HolderSend i b) = Some Held"
| "owned (Disarming i Rel_Clear) = Some Held"
| "owned (Disarming i Rel_Wait) = Some Cleared"
| "owned (Disarming i Rel_Free) = Some Quiet"
| "owned (Releasing i Rel_Return) = None"
| "owned (Releasing i pc) = Some Quiet"
| "owned _ = None"

fun works_on :: "thread \<Rightarrow> nat option" where
  "works_on (Enqueueing m (Enq_Return (Some i))) = Some i"
| "works_on (Filling m i) = Some i"
| "works_on (Occupying m i) = Some i"
| "works_on (Arming m i) = Some i"
| "works_on (ProducerCas i) = Some i"
| "works_on (ProducerSend i) = Some i"
| "works_on (Publishing i Pub_Return) = None"
| "works_on (Publishing i pc) = Some i"
| "works_on (Dequeueing (Deq_Return (Some i))) = Some i"
| "works_on (Holding i) = Some i"
| "works_on (HolderCas i b) = Some i"
| "works_on (HolderSend i b) = Some i"
| "works_on (Disarming i Rel_Return) = None"
| "works_on (Disarming i pc) = Some i"
| "works_on (Releasing i Rel_Return) = None"
| "works_on (Releasing i pc) = Some i"
| "works_on _ = None"

fun carries :: "thread \<Rightarrow> es_message option" where
  "carries (Enqueueing m (Enq_Mark w)) = Some m"
| "carries (Enqueueing m (Enq_Return (Some i))) = Some m"
| "carries (Filling m i) = Some m"
| "carries (Occupying m i) = Some m"
| "carries (Arming m i) = Some m"
| "carries _ = None"

text \<open>The slot a thread knows to be answered.\<close>

fun settled :: "thread \<Rightarrow> nat option" where
  "settled (HolderSend i b) = Some i"
| "settled (Disarming i Rel_Return) = None"
| "settled (Disarming i pc) = Some i"
| "settled _ = None"

fun sends :: "thread \<Rightarrow> bool" where
  "sends (ProducerSend i) = True"
| "sends (HolderSend i b) = True"
| "sends _ = False"

section \<open>The ring\<close>

definition unmarked_of :: "(nat \<Rightarrow> life) \<Rightarrow> nat set" where
  "unmarked_of f = {p. f p = Claimed}"

definition claimed_of :: "(nat \<Rightarrow> life) \<Rightarrow> nat set" where
  "claimed_of f = {p. f p \<in> {Claimed, Marked, Filled, Armed}}"

definition released_of :: "(nat \<Rightarrow> life) \<Rightarrow> nat set" where
  "released_of f = {p. f p = Released}"

definition life_ok :: "nat \<Rightarrow> nat \<Rightarrow> (nat \<Rightarrow> life) \<Rightarrow> bool" where
  "life_ok e d f \<longleftrightarrow> (\<forall>p. (f p = Unborn \<longleftrightarrow> e \<le> p) \<and>
     (f p \<in> {Held, Cleared, Quiet, Released} \<longleftrightarrow> p < d))"

definition ring_ok :: "nat \<Rightarrow> conc \<Rightarrow> bool" where
  "ring_ok k s \<longleftrightarrow>
     ring k (length (claims s)) (length (taken s)) (unmarked_of (life s)) (claimed_of (life s))
       (released_of (life s)) (ring_q s) \<and>
     life_ok (length (claims s)) (length (taken s)) (life s) \<and>
     depth_max (ring_q s) \<le> 2 ^ k"

section \<open>The threads\<close>

fun knows :: "nat \<Rightarrow> conc \<Rightarrow> thread \<Rightarrow> bool" where
  "knows k s (Enqueueing m (Enq_Check w)) \<longleftrightarrow> unat w \<le> length (claims s)"
| "knows k s (Enqueueing m (Enq_Cas w)) \<longleftrightarrow> unat w \<le> length (claims s) \<and>
     (unat w = length (claims s) \<longrightarrow> can_claim k (length (claims s)) (released_of (life s)))"
| "knows k s (Publishing i (Pub_Maximum depth)) \<longleftrightarrow> depth \<le> 2 ^ k"
| "knows k s (Publishing i (Pub_Cas depth maximum)) \<longleftrightarrow> depth \<le> 2 ^ k"
| "knows k s (Dequeueing (Deq_Check w)) \<longleftrightarrow> unat w \<le> length (taken s)"
| "knows k s (Dequeueing (Deq_Cas w)) \<longleftrightarrow> unat w \<le> length (taken s) \<and>
     (unat w = length (taken s) \<longrightarrow>
       length (taken s) < length (claims s) \<and> length (taken s) \<notin> claimed_of (life s))"
| "knows k s _ \<longleftrightarrow> True"

definition thread_ok :: "nat \<Rightarrow> conc \<Rightarrow> nat \<Rightarrow> bool" where
  "thread_ok k s t \<longleftrightarrow>
     (\<forall>l. owned (threads s t) = Some l \<longrightarrow> life s (pos s t) = l) \<and>
     (\<forall>i. works_on (threads s t) = Some i \<longrightarrow> i = pos s t mod 2 ^ k) \<and>
     (\<forall>m. carries (threads s t) = Some m \<longrightarrow> claims s ! pos s t = m) \<and>
     (\<forall>m w. threads s t = Enqueueing m (Enq_Mark w) \<longrightarrow> w = of_nat (pos s t)) \<and>
     (\<forall>i. settled (threads s t) = Some i \<longrightarrow>
        answer_state (slot_at (ring_q s) i) \<noteq> ESRB_ANSWER_PENDING) \<and>
     knows k s (threads s t)"

definition threads_ok :: "nat \<Rightarrow> conc \<Rightarrow> bool" where
  "threads_ok k s \<longleftrightarrow> (\<forall>t. thread_ok k s t) \<and>
     (\<forall>t t'. owned (threads s t) \<noteq> None \<longrightarrow> owned (threads s t') \<noteq> None \<longrightarrow>
        pos s t = pos s t' \<longrightarrow> t = t')"

section \<open>The slots\<close>

definition filled_lives :: "life set" where
  "filled_lives = {Filled, Armed, Published, Held, Cleared, Quiet}"

definition slots_ok :: "nat \<Rightarrow> conc \<Rightarrow> bool" where
  "slots_ok k s \<longleftrightarrow>
     (\<forall>p. life s p \<in> filled_lives \<longrightarrow>
        slot_message (slot_at (ring_q s) (p mod 2 ^ k)) = Some (claims s ! p)) \<and>
     (\<forall>i < 2 ^ k. occupied (slot_at (ring_q s) i) \<longrightarrow>
        (\<exists>p. p mod 2 ^ k = i \<and> life s p \<in> {Armed, Published, Held})) \<and>
     taken s = map Some (take (length (taken s)) (claims s))"

section \<open>The watchdog\<close>

text \<open>The slot the watchdog has entered, and the slot it may still read or answer.\<close>

fun inside :: "watcher \<Rightarrow> nat option" where
  "inside (Answering i w Due_Recheck) = Some i"
| "inside (Answering i w Due_Position) = Some i"
| "inside (Answering i w Due_Cas) = Some i"
| "inside (Answering i w Due_Send) = Some i"
| "inside (Answering i w Due_Leave) = Some i"
| "inside _ = None"

fun watches :: "watcher \<Rightarrow> nat option" where
  "watches Waiting = None"
| "watches (Answering i w Due_Return) = None"
| "watches (Answering i w pc) = Some i"

fun pins :: "watcher \<Rightarrow> nat \<Rightarrow> nat \<Rightarrow> bool" where
  "pins (Answering i w Due_Position) n p \<longleftrightarrow> p mod n = i"
| "pins (Answering i w Due_Cas) n p \<longleftrightarrow> p mod n = i \<and> w = of_nat p"
| "pins (Answering i w Due_Send) n p \<longleftrightarrow> p mod n = i \<and> w = of_nat p"
| "pins _ n p \<longleftrightarrow> False"

definition watch_ok :: "nat \<Rightarrow> conc \<Rightarrow> bool" where
  "watch_ok k s \<longleftrightarrow>
     (\<forall>i. watches (watch s) = Some i \<longrightarrow> i < 2 ^ k) \<and>
     (\<forall>i < 2 ^ k. readers (slot_at (ring_q s) i) = (if inside (watch s) = Some i then 1 else 0)) \<and>
     (\<forall>i w pc. watch s = Answering i w pc \<and> pc \<in> {Due_Position, Due_Cas, Due_Send} \<longrightarrow>
        (\<exists>p. pins (watch s) (2 ^ k) p \<and> life s p \<in> {Armed, Published, Held, Cleared}))"

section \<open>The answers\<close>

definition answer_count :: "conc \<Rightarrow> nat \<Rightarrow> nat" where
  "answer_count s p = count_list (map fst (responses s)) p"

definition thread_sending :: "conc \<Rightarrow> nat \<Rightarrow> bool" where
  "thread_sending s p \<longleftrightarrow> (\<exists>t. sends (threads s t) \<and> pos s t = p)"

definition watch_sending :: "nat \<Rightarrow> conc \<Rightarrow> nat \<Rightarrow> bool" where
  "watch_sending k s p \<longleftrightarrow> (\<exists>i w. watch s = Answering i w Due_Send) \<and> pins (watch s) (2 ^ k) p"

text \<open>Answers given or about to be given for a position.\<close>

definition answers_due :: "nat \<Rightarrow> conc \<Rightarrow> nat \<Rightarrow> nat" where
  "answers_due k s p = answer_count s p + of_bool (thread_sending s p) + of_bool (watch_sending k s p)"

text \<open>What an answer state says: whether the message wants an answer, and how many it has.\<close>

fun fits :: "answer \<Rightarrow> bool \<Rightarrow> nat \<Rightarrow> bool" where
  "fits ESRB_ANSWER_PENDING auth n \<longleftrightarrow> auth \<and> n = 0"
| "fits ESRB_ANSWER_ANSWERED auth n \<longleftrightarrow> auth \<and> n = 1"
| "fits ESRB_ANSWER_NOT_AUTH auth n \<longleftrightarrow> \<not> auth \<and> n = 0"

definition answers_ok :: "nat \<Rightarrow> conc \<Rightarrow> bool" where
  "answers_ok k s \<longleftrightarrow>
     (\<forall>p. life s p \<in> {Unborn, Claimed, Marked} \<longrightarrow> answer_count s p = 0) \<and>
     (\<forall>p. life s p \<in> filled_lives \<longrightarrow>
        fits (answer_state (slot_at (ring_q s) (p mod 2 ^ k))) (is_auth (claims s ! p))
          (answers_due k s p)) \<and>
     (\<forall>p. life s p \<in> {Cleared, Quiet} \<longrightarrow>
        answer_state (slot_at (ring_q s) (p mod 2 ^ k)) \<noteq> ESRB_ANSWER_PENDING) \<and>
     (\<forall>p. life s p = Released \<longrightarrow> answer_count s p = of_bool (is_auth (claims s ! p))) \<and>
     (\<forall>p m. (p, m) \<in> set (responses s) \<longrightarrow> p < length (claims s) \<and> m = Some (claims s ! p))"

definition conc_inv :: "nat \<Rightarrow> conc \<Rightarrow> bool" where
  "conc_inv k s \<longleftrightarrow> length (claims s) \<le> 2 ^ 62 \<and> ring_ok k s \<and> threads_ok k s \<and> slots_ok k s \<and>
     watch_ok k s \<and> answers_ok k s"

end
