(* ===== verification/Protocol_Ring.thy ===== *)
theory Protocol_Ring
  imports Protocol_Invariant
begin

text \<open>
  Every step of the concurrent system keeps the ring part of its invariant: each access of a step
  machine is one of the ring transformations of \<open>Ring_Invariant\<close>, made at a moment when the
  thread's knowledge says that it applies.
\<close>

section \<open>Lives and the sets they determine\<close>

lemma life_sets_upd [simp]:
  "unmarked_of (f(p := l)) = (if l = Claimed then insert p (unmarked_of f) else unmarked_of f - {p})"
  "claimed_of (f(p := l)) = (if l \<in> {Claimed, Marked, Filled, Armed}
     then insert p (claimed_of f) else claimed_of f - {p})"
  "released_of (f(p := l)) = (if l = Released then insert p (released_of f) else released_of f - {p})"
  by (auto simp: unmarked_of_def claimed_of_def released_of_def)

lemma in_life_sets [simp]:
  "p \<in> unmarked_of f \<longleftrightarrow> f p = Claimed"
  "p \<in> claimed_of f \<longleftrightarrow> f p \<in> {Claimed, Marked, Filled, Armed}"
  "p \<in> released_of f \<longleftrightarrow> f p = Released"
  by (simp_all add: unmarked_of_def claimed_of_def released_of_def)

lemma life_okD:
  assumes "life_ok e d f"
  shows "f p = Unborn \<longleftrightarrow> e \<le> p" and "f p \<in> {Held, Cleared, Quiet, Released} \<longleftrightarrow> p < d"
  using assms by (auto simp: life_ok_def)

lemma life_ok_claim:
  assumes "life_ok e d f" and "d \<le> e"
  shows "life_ok (Suc e) d (f(e := Claimed))"
  unfolding life_ok_def
proof (intro allI)
  fix p
  show "((f(e := Claimed)) p = Unborn \<longleftrightarrow> Suc e \<le> p) \<and>
      ((f(e := Claimed)) p \<in> {Held, Cleared, Quiet, Released} \<longleftrightarrow> p < d)"
    using life_okD [OF assms(1), of p] assms(2) by (cases "p = e") auto
qed

lemma life_ok_take:
  assumes "life_ok e d f" and "d < e"
  shows "life_ok e (Suc d) (f(d := Held))"
  unfolding life_ok_def
proof (intro allI)
  fix p
  show "((f(d := Held)) p = Unborn \<longleftrightarrow> e \<le> p) \<and>
      ((f(d := Held)) p \<in> {Held, Cleared, Quiet, Released} \<longleftrightarrow> p < Suc d)"
    using life_okD [OF assms(1), of p] assms(2) by (cases "p = d") (auto simp: less_Suc_eq)
qed

lemma life_ok_upd:
  assumes "life_ok e d f"
    and "{f p, l} \<subseteq> {Claimed, Marked, Filled, Armed, Published} \<or> {f p, l} \<subseteq> {Held, Cleared, Quiet, Released}"
  shows "life_ok e d (f(p := l))"
  unfolding life_ok_def
proof (intro allI)
  fix p'
  show "((f(p := l)) p' = Unborn \<longleftrightarrow> e \<le> p') \<and>
      ((f(p := l)) p' \<in> {Held, Cleared, Quiet, Released} \<longleftrightarrow> p' < d)"
    using life_okD [OF assms(1), of p'] assms(2) by (cases "p' = p") auto
qed

lemma conc_invD:
  assumes "conc_inv k s"
  shows "length (claims s) \<le> 2 ^ 62"
    and "ring k (length (claims s)) (length (taken s)) (unmarked_of (life s)) (claimed_of (life s))
      (released_of (life s)) (ring_q s)"
    and "life_ok (length (claims s)) (length (taken s)) (life s)"
    and "depth_max (ring_q s) \<le> 2 ^ k"
    and "thread_ok k s t"
    and "threads_ok k s" and "slots_ok k s" and "watch_ok k s" and "answers_ok k s" and "ring_ok k s"
  using assms unfolding conc_inv_def ring_ok_def threads_ok_def by blast+

lemma thread_okD:
  assumes "thread_ok k s t"
  shows "owned (threads s t) = Some l \<Longrightarrow> life s (pos s t) = l"
    and "works_on (threads s t) = Some i \<Longrightarrow> i = pos s t mod 2 ^ k"
    and "carries (threads s t) = Some m \<Longrightarrow> claims s ! pos s t = m"
    and "threads s t = Enqueueing m (Enq_Mark w) \<Longrightarrow> w = of_nat (pos s t)"
    and "knows k s (threads s t)"
    and "settled (threads s t) = Some i \<Longrightarrow>
      answer_state (slot_at (ring_q s) i) \<noteq> ESRB_ANSWER_PENDING"
  using assms by (auto simp: thread_ok_def)

lemma unat_of_nat_small: "n \<le> 2 ^ 62 \<Longrightarrow> unat (of_nat n :: size_t) = n"
  by (simp add: unat_of_nat)

section \<open>Steps and the ring\<close>

lemma ring_ok_cong:
  "ring_q s' = ring_q s \<Longrightarrow> claims s' = claims s \<Longrightarrow> taken s' = taken s \<Longrightarrow> life s' = life s \<Longrightarrow>
    ring_ok k s' \<longleftrightarrow> ring_ok k s"
  by (simp add: ring_ok_def)

lemma ring_ok_write:
  assumes "ring_ok k s" and "ring_q s' = set_slot i f (ring_q s)"
    and "\<And>x. sequence (f x) = sequence x" "\<And>x. slot_position (f x) = slot_position x"
    and "claims s' = claims s" "taken s' = taken s" "life s' = life s"
  shows "ring_ok k s'"
  using assms ring_write [of k _ _ _ _ _ "ring_q s" f i] by (auto simp: ring_ok_def)

lemma ring_ok_relife:
  assumes "ring_ok k s" and "ring_q s' = ring_q s" "claims s' = claims s" "taken s' = taken s"
    and "life s' = (life s)(p := l)"
    and l: "{life s p, l} \<subseteq> {Marked, Filled, Armed} \<or> {life s p, l} \<subseteq> {Held, Cleared, Quiet}"
  shows "ring_ok k s'"
proof -
  have "unmarked_of (life s') = unmarked_of (life s)" "claimed_of (life s') = claimed_of (life s)"
    "released_of (life s') = released_of (life s)"
    using assms by (auto simp: insert_absorb)
  moreover have "life_ok (length (claims s)) (length (taken s)) ((life s)(p := l))"
    using assms(1) l by (intro life_ok_upd) (auto simp: ring_ok_def)
  ultimately show ?thesis using assms(1-5) by (simp add: ring_ok_def)
qed

lemma ring_ok_cas:
  assumes "ring_ok k s" and c: "cas_answer i (ring_q s) = (won, q)" and "ring_q s' = q"
    and "claims s' = claims s" "taken s' = taken s" "life s' = life s"
  shows "ring_ok k s'"
proof (cases won)
  case True
  then have "q = set_slot i (\<lambda>s. s\<lparr>answer_state := ESRB_ANSWER_ANSWERED\<rparr>) (ring_q s)"
    using c by (auto simp: cas_answer_def split: if_splits)
  then show ?thesis using assms
    by (intro ring_ok_write [OF assms(1), of s' i "\<lambda>s. s\<lparr>answer_state := ESRB_ANSWER_ANSWERED\<rparr>"]) auto
next
  case False
  then have "q = ring_q s" using c by (auto simp: cas_answer_def split: if_splits)
  then show ?thesis using assms by (simp add: ring_ok_def)
qed

lemma ring_ok_enqueue:
  assumes inv: "conc_inv k s" and t: "threads s t = Enqueueing m pc"
    and step: "enqueue_step spurious pc (ring_q s) = (pc', q)"
  shows "ring_ok k (note_enqueue t m pc pc' (go t (Enqueueing m pc') q s))"
proof -
  note D = conc_invD [OF inv] and T = thread_okD [OF conc_invD(5) [OF inv, of t]]
  note r = D(2)
  let ?e = "length (claims s)" and ?d = "length (taken s)"
  show ?thesis
  proof (cases pc)
    case (Enq_Cas w)
    show ?thesis
    proof (cases "\<not> spurious \<and> enqueue_position (ring_q s) = w")
      case True
      have w: "w = of_nat ?e" using True ringD(6) [OF r] by simp
      then have "can_claim k ?e (released_of (life s))"
        using T(5) D(1) by (simp add: t Enq_Cas unat_of_nat_small)
      then have "ring k (Suc ?e) ?d (insert ?e (unmarked_of (life s)))
          (insert ?e (claimed_of (life s))) (released_of (life s))
          (ring_q s\<lparr>enqueue_position := of_nat ?e + 1\<rparr>)"
        by (rule ring_claim [OF r])
      moreover have "released_of (life s) - {?e} = released_of (life s)"
        using ringD(8,11) [OF r] by auto
      moreover have "life_ok (Suc ?e) ?d ((life s)(?e := Claimed))"
        using D(3) ringD(8) [OF r] by (rule life_ok_claim)
      moreover have "pc' = Enq_Mark w" "q = ring_q s\<lparr>enqueue_position := of_nat ?e + 1\<rparr>"
        using step True w by (simp_all add: Enq_Cas)
      ultimately show ?thesis
        using D(4) by (simp add: ring_ok_def Enq_Cas)
    next
      case False
      then have "pc' = Enq_Check (enqueue_position (ring_q s))" "q = ring_q s"
        using step Enq_Cas by (auto split: if_splits)
      then show ?thesis using D(10) by (simp add: ring_ok_def Enq_Cas)
    qed
  next
    case (Enq_Mark w)
    have w: "w = of_nat (pos s t)" and c: "life s (pos s t) = Claimed"
      using T(1,4) t Enq_Mark by auto
    have "ring k ?e ?d (unmarked_of (life s) - {pos s t})
        (claimed_of (life s)) (released_of (life s))
        (set_slot (slot_of (ring_q s) w) (\<lambda>s. s\<lparr>slot_position := w\<rparr>) (ring_q s))"
      unfolding w by (rule ring_mark [OF r]) (simp add: c)
    moreover have "insert (pos s t) (claimed_of (life s)) = claimed_of (life s)"
      "released_of (life s) - {pos s t} = released_of (life s)" using c by auto
    moreover have "life_ok ?e ?d ((life s)(pos s t := Marked))"
      using D(3) by (rule life_ok_upd) (simp add: c)
    moreover have "q = set_slot (slot_of (ring_q s) w) (\<lambda>s. s\<lparr>slot_position := w\<rparr>) (ring_q s)"
      using step by (simp add: Enq_Mark)
    ultimately show ?thesis
      using D(4) by (simp add: ring_ok_def Enq_Mark)
  qed (use step D(10) in \<open>auto simp: ring_ok_def Let_def split: if_splits\<close>)
qed

lemma ring_ok_publish:
  assumes inv: "conc_inv k s" and t: "threads s t = Publishing i pc" and pc: "pub_done pc = None"
    and step: "publish_step spurious i pc (ring_q s) = (pc', q)"
  shows "ring_ok k (note_publish t pc (go t (Publishing i pc') q s))"
proof -
  note D = conc_invD [OF inv] and T = thread_okD [OF conc_invD(5) [OF inv, of t]]
  note r = D(2)
  let ?e = "length (claims s)" and ?d = "length (taken s)"
  show ?thesis
  proof (cases pc)
    case (Pub_Cas depth maximum)
    then have "depth \<le> 2 ^ k" using T(5) t by simp
    moreover have "q = ring_q s \<or> q = ring_q s\<lparr>depth_max := depth\<rparr>"
      using step by (auto simp: Pub_Cas split: if_splits)
    ultimately show ?thesis using D(10) by (auto simp: Pub_Cas ring_ok_def ring_def)
  next
    case Pub_Store
    have i: "i = pos s t mod 2 ^ k" and c: "life s (pos s t) = Armed"
      using T(1,2) t Pub_Store by auto
    have "ring k ?e ?d (unmarked_of (life s)) (claimed_of (life s) - {pos s t}) (released_of (life s))
        (set_slot i (\<lambda>s. s\<lparr>sequence := slot_position s + 1\<rparr>) (ring_q s))"
      unfolding i by (rule ring_publish [OF r]) (simp_all add: c)
    moreover have "unmarked_of (life s) - {pos s t} = unmarked_of (life s)"
      "released_of (life s) - {pos s t} = released_of (life s)" using c by auto
    moreover have "life_ok ?e ?d ((life s)(pos s t := Published))"
      using D(3) by (rule life_ok_upd) (simp add: c)
    moreover have "q = set_slot i (\<lambda>s. s\<lparr>sequence := slot_position s + 1\<rparr>) (ring_q s)"
      using step by (simp add: Pub_Store)
    ultimately show ?thesis using D(4) by (simp add: ring_ok_def Pub_Store)
  qed (use step pc D(10) in \<open>simp_all add: ring_ok_def\<close>)
qed

lemma ring_ok_dequeue:
  assumes inv: "conc_inv k s" and t: "threads s t = Dequeueing pc"
    and step: "dequeue_step spurious pc (ring_q s) = (pc', q)"
  shows "ring_ok k (note_dequeue t pc pc' (go t (Dequeueing pc') q s))"
proof -
  note D = conc_invD [OF inv] and T = thread_okD [OF conc_invD(5) [OF inv, of t]]
  note r = D(2)
  let ?e = "length (claims s)" and ?d = "length (taken s)"
  show ?thesis
  proof (cases pc)
    case (Deq_Cas w)
    show ?thesis
    proof (cases "\<not> spurious \<and> dequeue_position (ring_q s) = w")
      case True
      have w: "w = of_nat ?d" using True ringD(7) [OF r] by simp
      moreover have "unat (of_nat ?d :: size_t) = ?d"
        using D(1) ringD(8) [OF r] by (intro unat_of_nat_small) simp
      ultimately have d: "?d < ?e" "?d \<notin> claimed_of (life s)"
        using T(5) by (simp_all add: t Deq_Cas)
      have "ring k ?e (Suc ?d) (unmarked_of (life s)) (claimed_of (life s)) (released_of (life s))
          (ring_q s\<lparr>dequeue_position := of_nat ?d + 1\<rparr>)"
        by (rule ring_take [OF r d])
      moreover have "released_of (life s) - {?d} = released_of (life s)"
        using ringD(11) [OF r] by auto
      moreover have "claimed_of (life s) - {?d} = claimed_of (life s)"
        "unmarked_of (life s) - {?d} = unmarked_of (life s)" using d(2) by auto
      moreover have "life_ok ?e (Suc ?d) ((life s)(?d := Held))"
        using D(3) d(1) by (rule life_ok_take)
      moreover have "pc' = Deq_Return (Some (slot_of (ring_q s) w))"
          "q = ring_q s\<lparr>dequeue_position := of_nat ?d + 1\<rparr>"
        using step True w by (simp_all add: Deq_Cas)
      ultimately show ?thesis
        using D(4) by (simp add: ring_ok_def Deq_Cas)
    next
      case False
      then have "pc' = Deq_Check (dequeue_position (ring_q s))" "q = ring_q s"
        using step Deq_Cas by (auto split: if_splits)
      then show ?thesis using D(10) by (simp add: ring_ok_def Deq_Cas)
    qed
  qed (use step D(10) in \<open>auto simp: ring_ok_def Let_def split: if_splits\<close>)
qed

lemma ring_ok_disarm:
  assumes inv: "conc_inv k s" and t: "threads s t = Disarming i pc" and pc: "disarm_done pc = None"
    and step: "release_step i pc (ring_q s) = (pc', q)"
  shows "ring_ok k (note_disarm t pc pc' (go t (Disarming i pc') q s))"
proof -
  note D = conc_invD [OF inv] and T = thread_okD [OF conc_invD(5) [OF inv, of t]]
  show ?thesis
  proof (cases pc)
    case Rel_Clear
    let ?s = "s\<lparr>ring_q := q\<rparr>"
    have w: "ring_ok k ?s" using step
      by (intro ring_ok_write [OF D(10), of ?s i "\<lambda>s. s\<lparr>occupied := False\<rparr>"]) (auto simp: Rel_Clear)
    have "life s (pos s t) = Held" using T(1) t Rel_Clear by simp
    then show ?thesis
      by (intro ring_ok_relife [OF w, of _ "pos s t" Cleared]) (simp_all add: Rel_Clear)
  next
    case Rel_Wait
    then consider "pc' = Rel_Wait" "q = ring_q s" | "pc' = Rel_Free" "q = ring_q s"
      using step by (auto split: if_splits)
    then show ?thesis
    proof cases
      case 1
      then show ?thesis using D(10) by (simp add: Rel_Wait ring_ok_def)
    next
      case 2
      moreover have "life s (pos s t) = Cleared" using T(1) t Rel_Wait by simp
      ultimately show ?thesis
        by (intro ring_ok_relife [OF D(10), of _ "pos s t" Quiet]) (simp_all add: Rel_Wait)
    qed
  qed (use pc in simp_all)
qed

lemma ring_ok_release:
  assumes inv: "conc_inv k s" and t: "threads s t = Releasing i pc" and pc: "rel_done pc = None"
    and step: "release_step i pc (ring_q s) = (pc', q)"
  shows "ring_ok k (note_release t pc (go t (Releasing i pc') q s))"
proof -
  note D = conc_invD [OF inv] and T = thread_okD [OF conc_invD(5) [OF inv, of t]]
  note r = D(2)
  let ?e = "length (claims s)" and ?d = "length (taken s)"
  show ?thesis
  proof (cases pc)
    case Rel_Clear
    then show ?thesis using step
      by (intro ring_ok_write [OF D(10), of _ i "\<lambda>s. s\<lparr>occupied := False\<rparr>"]) auto
  next
    case Rel_Free
    have i: "i = pos s t mod 2 ^ k" and c: "life s (pos s t) = Quiet"
      using T(1,2) t Rel_Free by auto
    then have "pos s t < ?d" using life_okD(2) [OF D(3), of "pos s t"] by simp
    then have "ring k ?e ?d (unmarked_of (life s)) (claimed_of (life s))
        (insert (pos s t) (released_of (life s)))
        (set_slot i (\<lambda>x. x\<lparr>sequence := slot_position x + capacity (ring_q s)\<rparr>) (ring_q s))"
      unfolding i by (rule ring_release [OF r]) (simp add: c)
    moreover have "unmarked_of (life s) - {pos s t} = unmarked_of (life s)"
      "claimed_of (life s) - {pos s t} = claimed_of (life s)" using c by auto
    moreover have "life_ok ?e ?d ((life s)(pos s t := Released))"
      using D(3) by (rule life_ok_upd) (simp add: c)
    moreover have
      "q = set_slot i (\<lambda>x. x\<lparr>sequence := slot_position x + capacity (ring_q s)\<rparr>) (ring_q s)"
      using step by (simp add: Rel_Free)
    ultimately show ?thesis using D(4) by (simp add: ring_ok_def Rel_Free)
  qed (use step pc D(10) in \<open>auto simp: ring_ok_def split: if_splits\<close>)
qed

lemma ring_ok_watch:
  assumes inv: "conc_inv k s" and step: "due_step i w pc (ring_q s) = (pc', q)"
  shows "ring_ok k (s\<lparr>ring_q := q, watch := x\<rparr>)"
proof -
  note D = conc_invD [OF inv]
  show ?thesis
  proof (cases pc)
    case Due_Enter
    then show ?thesis using step
      by (intro ring_ok_write [OF D(10), of _ i "\<lambda>s. s\<lparr>readers := readers s + 1\<rparr>"]) auto
  next
    case Due_Leave
    then show ?thesis using step
      by (intro ring_ok_write [OF D(10), of _ i "\<lambda>s. s\<lparr>readers := readers s - 1\<rparr>"]) auto
  next
    case Due_Cas
    obtain won q' where c: "cas_answer i (ring_q s) = (won, q')" by fastforce
    then have "q' = q" using step by (simp add: Due_Cas)
    then show ?thesis using c by (intro ring_ok_cas [OF D(10)]) auto
  qed (use step D(10) in \<open>auto simp: ring_ok_def split: if_splits\<close>)
qed

lemma ring_ok_step:
  assumes inv: "conc_inv k s" and "conc_step s s'"
  shows "ring_ok k s'"
proof -
  note D = conc_invD [OF inv] and T = thread_okD [OF conc_invD(5) [OF inv]]
  show ?thesis
    using assms(2)
  proof cases
    case (enqueue t m pc spurious pc' q)
    then show ?thesis using ring_ok_enqueue [OF inv] by simp
  next
    case (publish t i pc spurious pc' q)
    then show ?thesis using ring_ok_publish [OF inv] by simp
  next
    case (dequeue t pc spurious pc' q)
    then show ?thesis using ring_ok_dequeue [OF inv] by simp
  next
    case (disarm t i pc pc' q)
    then show ?thesis using ring_ok_disarm [OF inv] by simp
  next
    case (release t i pc pc' q)
    then show ?thesis using ring_ok_release [OF inv] by simp
  next
    case (watch_step i position pc pc' q)
    then show ?thesis using ring_ok_watch [OF inv] by simp
  next
    case (fill t m i native fire_at)
    let ?s = "s\<lparr>ring_q := set_slot i (fill_slot m native fire_at) (ring_q s)\<rparr>"
    have w: "ring_ok k ?s"
      by (rule ring_ok_write [OF D(10), of _ i "fill_slot m native fire_at"]) auto
    have "life s (pos s t) = Marked" using T(1) [of t] fill by simp
    then show ?thesis using fill
      by (intro ring_ok_relife [OF w, of _ "pos s t" Filled]) simp_all
  next
    case (occupy t m i)
    let ?s = "s\<lparr>ring_q := set_slot i (\<lambda>s. s\<lparr>occupied := True\<rparr>) (ring_q s)\<rparr>"
    have w: "ring_ok k ?s"
      by (rule ring_ok_write [OF D(10), of _ i "\<lambda>s. s\<lparr>occupied := True\<rparr>"]) auto
    have "life s (pos s t) = Filled" using T(1) [of t] occupy by simp
    then show ?thesis using occupy
      by (intro ring_ok_relife [OF w, of _ "pos s t" Armed]) simp_all
  next
    case (producer_cas t i won q)
    then show ?thesis by (intro ring_ok_cas [OF D(10)]) auto
  next
    case (holder_cas t i releasing won q)
    then show ?thesis by (intro ring_ok_cas [OF D(10)]) auto
  qed (use D(10) in \<open>simp_all add: ring_ok_def respond_def\<close>)
qed

end
