(* ===== verification/Protocol_Threads.thy ===== *)
theory Protocol_Threads
  imports Protocol_Ring
begin

text \<open>
  Every step of the concurrent system keeps the thread part of its invariant: no two threads own
  the same position (and so no two threads work on the same slot), and what a control state knows
  about the ring stays true while other threads step.
\<close>

section \<open>Ownership\<close>

lemma unreleased_same_slot:
  assumes inv: "conc_inv k s" and "life s p \<notin> {Unborn, Released}" "life s p' \<notin> {Unborn, Released}"
    and "p mod 2 ^ k = p' mod 2 ^ k"
  shows "p = p'"
proof -
  note D = conc_invD [OF inv]
  have "q < length (claims s) \<and> length (claims s) \<le> q + 2 ^ k" if "life s q \<notin> {Unborn, Released}" for q
    using that life_okD(1) [OF D(3), of q] ring_unreleased_current [OF D(2), of q] by simp
  from this [of p] this [of p'] show ?thesis
    using assms window_inj [of "length (claims s)" "p + 2 ^ k" "2 ^ k" "p' + 2 ^ k"] by simp
qed

lemma owned_unreleased: "owned x = Some l \<Longrightarrow> l \<notin> {Unborn, Published, Released}"
  by (induction x rule: owned.induct) auto

lemma works_on_owned: "works_on x = Some i \<Longrightarrow> owned x \<noteq> None"
  by (induction x rule: works_on.induct) auto

lemma carries_owned: "carries x = Some m \<Longrightarrow> owned x \<noteq> None"
  by (induction x rule: carries.induct) auto

lemma owner_life:
  assumes "conc_inv k s" and "owned (threads s t) \<noteq> None"
  shows "life s (pos s t) \<notin> {Unborn, Published, Released}"
  using thread_okD(1) [OF conc_invD(5) [OF assms(1), of t]] assms(2) owned_unreleased by blast

lemma owners_distinct:
  assumes "conc_inv k s" and "owned (threads s t) \<noteq> None" "owned (threads s t') \<noteq> None" "t \<noteq> t'"
  shows "pos s t \<noteq> pos s t'" and "pos s t mod 2 ^ k \<noteq> pos s t' mod 2 ^ k"
proof -
  show d: "pos s t \<noteq> pos s t'"
    using conc_invD(6) [OF assms(1)] assms(2-4) unfolding threads_ok_def by blast
  show "pos s t mod 2 ^ k \<noteq> pos s t' mod 2 ^ k"
    using unreleased_same_slot [OF assms(1), of "pos s t" "pos s t'"]
      owner_life [OF assms(1,2)] owner_life [OF assms(1,3)] d by auto
qed

lemma settled_owned: "settled x = Some i \<Longrightarrow> owned x \<noteq> None \<and> works_on x = Some i"
  by (induction x rule: settled.induct) auto

lemma threads_ok_intro:
  assumes ok: "threads_ok k s"
    and thr: "threads s' = (threads s)(t := x)"
    and posn: "\<And>t'. t' \<noteq> t \<Longrightarrow> pos s' t' = pos s t'"
    and life: "\<And>p. p \<noteq> pos s' t \<Longrightarrow> life s' p = life s p"
    and touch: "\<And>t'. t' \<noteq> t \<Longrightarrow> owned (threads s t') \<noteq> None \<Longrightarrow>
      owned x \<noteq> None \<or> life s' (pos s' t) \<noteq> life s (pos s' t) \<Longrightarrow> pos s t' \<noteq> pos s' t"
    and claims: "\<And>t'. owned (threads s t') \<noteq> None \<Longrightarrow>
      claims s' ! pos s t' = claims s ! pos s t'"
    and know: "\<And>t'. t' \<noteq> t \<Longrightarrow> knows k s (threads s t') \<Longrightarrow> knows k s' (threads s t')"
    and ans: "\<And>t' i. t' \<noteq> t \<Longrightarrow> settled (threads s t') = Some i \<Longrightarrow>
      answer_state (slot_at (ring_q s) i) \<noteq> ESRB_ANSWER_PENDING \<Longrightarrow>
      answer_state (slot_at (ring_q s') i) \<noteq> ESRB_ANSWER_PENDING"
    and self: "thread_ok k s' t"
  shows "threads_ok k s'"
proof -
  have other: "thread_ok k s' t'" if "t' \<noteq> t" for t'
  proof -
    have ok': "thread_ok k s t'" using ok by (simp add: threads_ok_def)
    have same: "life s' (pos s t') = life s (pos s t')" if "owned (threads s t') \<noteq> None"
      using touch [OF \<open>t' \<noteq> t\<close> that] life by metis
    have x: "threads s' t' = threads s t'" "pos s' t' = pos s t'"
      using that by (simp_all add: thr posn)
    note T = thread_okD [OF ok']
    show ?thesis
      unfolding thread_ok_def x
    proof (intro conjI allI impI)
      show "life s' (pos s t') = l" if "owned (threads s t') = Some l" for l
        using T(1) [OF that] same that by simp
      show "i = pos s t' mod 2 ^ k" if "works_on (threads s t') = Some i" for i
        by (rule T(2) [OF that])
      show "claims s' ! pos s t' = m" if "carries (threads s t') = Some m" for m
        using T(3) [OF that] claims carries_owned [OF that] by simp
      show "w = of_nat (pos s t')" if "threads s t' = Enqueueing m (Enq_Mark w)" for m w
        by (rule T(4) [OF that])
      show "answer_state (slot_at (ring_q s') i) \<noteq> ESRB_ANSWER_PENDING"
        if "settled (threads s t') = Some i" for i
        by (rule ans [OF \<open>t' \<noteq> t\<close> that T(6) [OF that]])
      show "knows k s' (threads s t')" by (rule know [OF \<open>t' \<noteq> t\<close> T(5)])
    qed
  qed
  then have all: "thread_ok k s' t'" for t' using self by (cases "t' = t") auto
  have distinct: "t1 = t2" if "owned (threads s' t1) \<noteq> None" "owned (threads s' t2) \<noteq> None"
      "pos s' t1 = pos s' t2" for t1 t2
  proof -
    have old: "pos s t1 = pos s t2 \<Longrightarrow> owned (threads s t1) \<noteq> None \<Longrightarrow>
        owned (threads s t2) \<noteq> None \<Longrightarrow> t1 = t2"
      using ok unfolding threads_ok_def by blast
    show ?thesis
      using that old touch posn unfolding thr by (metis fun_upd_apply)
  qed
  show ?thesis unfolding threads_ok_def using all distinct by blast
qed

lemma knows_mono:
  assumes "knows k s x" and "length (claims s) \<le> length (claims s')"
    and "length (taken s) \<le> length (taken s')" and "released_of (life s) \<subseteq> released_of (life s')"
    and "length (taken s') = length (taken s) \<Longrightarrow> length (taken s) < length (claims s) \<Longrightarrow>
      length (taken s) \<notin> claimed_of (life s) \<Longrightarrow> length (taken s) \<notin> claimed_of (life s')"
  shows "knows k s' x"
proof (cases "(k, s, x)" rule: knows.cases)
  case (2 k s m w)
  then have "unat w \<le> length (claims s')" using assms(1,2) by simp
  moreover have "can_claim k (length (claims s')) (released_of (life s'))"
    if "unat w = length (claims s')"
    using 2 assms(1,2,4) that by (auto simp: can_claim_def)
  ultimately show ?thesis using 2 by simp
next
  case (6 k s w)
  then have "unat w \<le> length (taken s')" using assms(1,3) by simp
  moreover have "length (taken s') < length (claims s') \<and> length (taken s') \<notin> claimed_of (life s')"
    if w: "unat w = length (taken s')"
  proof -
    have "length (taken s') = length (taken s)" using 6 assms(1,3) w by simp
    then show ?thesis using 6 assms(1,2,5) w by auto
  qed
  ultimately show ?thesis using 6 by simp
qed (use assms(1-3) in auto)

section \<open>Steps and the threads\<close>

text \<open>A step of a thread that owns a position, or takes up none.\<close>

lemma threads_ok_own:
  assumes inv: "conc_inv k s" and thr: "threads s' = (threads s)(t := x)"
    and same: "pos s' = pos s" "claims s' = claims s" "taken s' = taken s"
    and life: "life s' = (life s)(pos s t := l)"
    and own: "owned (threads s t) \<noteq> None \<or> owned x = None \<and> l = life s (pos s t)"
    and ans: "\<And>t' i. t' \<noteq> t \<Longrightarrow> settled (threads s t') = Some i \<Longrightarrow>
      answer_state (slot_at (ring_q s) i) \<noteq> ESRB_ANSWER_PENDING \<Longrightarrow>
      answer_state (slot_at (ring_q s') i) \<noteq> ESRB_ANSWER_PENDING"
    and self: "thread_ok k s' t"
  shows "threads_ok k s'"
proof (rule threads_ok_intro [OF conc_invD(6) [OF inv] thr])
  fix t' assume t': "t' \<noteq> t"
  show "pos s t' \<noteq> pos s' t"
    if "owned (threads s t') \<noteq> None"
      "owned x \<noteq> None \<or> life s' (pos s' t) \<noteq> life s (pos s' t)"
    using owners_distinct(1) [OF inv that(1) _ t'] own that(2) by (auto simp: same life)
  show "knows k s' (threads s t')" if "knows k s (threads s t')"
  proof (rule knows_mono [OF that])
    show "released_of (life s) \<subseteq> released_of (life s')"
      using owner_life [OF inv, of t] own by (auto simp: life)
    show "length (taken s) \<notin> claimed_of (life s')"
      if "length (taken s) < length (claims s)" "length (taken s) \<notin> claimed_of (life s)"
    proof (cases "length (taken s) = pos s t \<and> l \<noteq> life s (pos s t)")
      case True
      then have "owned (threads s t) \<noteq> None" using own by auto
      then have "life s (pos s t) \<notin> {Unborn, Published, Released}" by (rule owner_life [OF inv])
      moreover have "life s (pos s t) \<notin> {Held, Cleared, Quiet}"
        using life_okD(2) [OF conc_invD(3) [OF inv], of "pos s t"] True by auto
      ultimately have False using True that by (cases "life s (pos s t)") auto
      then show ?thesis ..
    next
      case False
      then show ?thesis using that by (auto simp: life)
    qed
  qed (use same in auto)
qed (use same life self ans in auto)

text \<open>Writes to the slot a thread owns leave the slots of the other owners alone.\<close>

lemma other_slot_untouched:
  assumes inv: "conc_inv k s" and "owned (threads s t) \<noteq> None" and i: "i = pos s t mod 2 ^ k"
    and t': "t' \<noteq> t" "settled (threads s t') = Some j"
  shows "i \<noteq> j"
proof -
  have o: "owned (threads s t') \<noteq> None" and "works_on (threads s t') = Some j"
    using settled_owned [OF t'(2)] by auto
  then have "j = pos s t' mod 2 ^ k" using thread_okD(2) [OF conc_invD(5) [OF inv]] by blast
  then show ?thesis using owners_distinct(2) [OF inv assms(2) o] t'(1) i by auto
qed

lemma slot_at_set_slot_neq: "i \<noteq> j \<Longrightarrow> slot_at (set_slot i f queue) j = slot_at queue j"
  by (simp add: slot_at_def set_slot_def)

lemma set_slot_field:
  assumes "\<And>x. g (f x) = g x"
  shows "g (slot_at (set_slot i f queue) j) = g (slot_at queue j)"
  using assms by (cases "i = j"; cases "i < length (slots queue)")
    (simp_all add: slot_at_def set_slot_def list_update_beyond)

lemmas answer_state_set_slot = set_slot_field [where g = answer_state]

lemma cas_answer_not_pending:
  assumes "cas_answer i queue = (won, queue')" and "answer_state (slot_at queue j) \<noteq> ESRB_ANSWER_PENDING"
  shows "answer_state (slot_at queue' j) \<noteq> ESRB_ANSWER_PENDING"
  using assms by (cases "i = j") (auto simp: cas_answer_def slot_at_set_slot_neq split: if_splits)

lemma cas_answer_settles:
  assumes "cas_answer i queue = (won, queue')" and "i < length (slots queue)"
  shows "answer_state (slot_at queue' i) \<noteq> ESRB_ANSWER_PENDING"
  using assms by (auto simp: cas_answer_def split: if_splits)

lemma threads_ok_go:
  assumes inv: "conc_inv k s" and "owned x = None \<or> owned x = owned (threads s t)"
    and self: "thread_ok k (s\<lparr>threads := (threads s)(t := x)\<rparr>) t"
  shows "threads_ok k (s\<lparr>threads := (threads s)(t := x)\<rparr>)"
  by (rule threads_ok_own [OF inv, of _ t x "life s (pos s t)"]) (use assms in auto)

lemma threads_ok_claim:
  assumes inv: "conc_inv k s" and t: "threads s t = Enqueueing m (Enq_Cas w)" and w: "w = of_nat (length (claims s))"
  shows "threads_ok k (note_enqueue t m (Enq_Cas w) (Enq_Mark w)
    (go t (Enqueueing m (Enq_Mark w)) (ring_q s\<lparr>enqueue_position := w + 1\<rparr>) s))" (is "threads_ok k ?s'")
proof -
  note D = conc_invD [OF inv]
  let ?e = "length (claims s)"
  have born: "life s ?e = Unborn" using life_okD(1) [OF D(3)] by simp
  show ?thesis
  proof (rule threads_ok_intro [OF D(6), of ?s' t "Enqueueing m (Enq_Mark w)"])
    fix t' assume t': "t' \<noteq> t"
    show "pos s t' \<noteq> pos ?s' t" if "owned (threads s t') \<noteq> None"
      using owner_life [OF inv that] born by auto
    show "knows k ?s' (threads s t')" if "knows k s (threads s t')"
      by (rule knows_mono [OF that]) (use born in auto)
  next
    fix t' assume "owned (threads s t') \<noteq> None"
    then have "pos s t' < ?e"
      using owner_life [OF inv] life_okD(1) [OF D(3), of "pos s t'"] by force
    then show "claims ?s' ! pos s t' = claims s ! pos s t'" by (simp add: nth_append)
  qed (simp_all add: w thread_ok_def)
qed

lemma threads_ok_enqueue:
  assumes inv: "conc_inv k s" and t: "threads s t = Enqueueing m pc" and pc: "enq_done pc = None"
    and step: "enqueue_step spurious pc (ring_q s) = (pc', q)"
  shows "threads_ok k (note_enqueue t m pc pc' (go t (Enqueueing m pc') q s))"
proof -
  note D = conc_invD [OF inv] and T = thread_okD [OF conc_invD(5) [OF inv, of t]]
  note r = D(2)
  let ?e = "length (claims s)" and ?d = "length (taken s)"
  have e: "unat (of_nat ?e :: size_t) = ?e" by (rule unat_of_nat_small [OF D(1)])
  show ?thesis
  proof (cases pc)
    case Enq_Load
    then have "pc' = Enq_Check (of_nat ?e)" "q = ring_q s" using step ringD(6) [OF r] by auto
    then show ?thesis using Enq_Load e
      by (auto intro!: threads_ok_go [OF inv] simp: thread_ok_def)
  next
    case (Enq_Check w)
    have "unat w \<le> ?e" using T(5) by (simp add: t Enq_Check)
    moreover have "w = of_nat (unat w)" by simp
    ultimately have cl: "can_claim k ?e (released_of (life s))" if "pc' = Enq_Cas w" "unat w = ?e"
      using check_claim_difference [OF r] ring_lap_int [OF r] step that
      by (auto simp: Enq_Check Let_def split: if_splits)
    have "q = ring_q s" and pcs: "pc' \<in> {Enq_Cas w, Enq_Return None, Enq_Load}"
      using step by (auto simp: Enq_Check Let_def split: if_splits)
    then show ?thesis using Enq_Check cl \<open>unat w \<le> ?e\<close>
      by (auto intro!: threads_ok_go [OF inv] simp: thread_ok_def)
  next
    case (Enq_Cas w)
    show ?thesis
    proof (cases "\<not> spurious \<and> enqueue_position (ring_q s) = w")
      case True
      have st: "pc' = Enq_Mark w" "q = ring_q s\<lparr>enqueue_position := w + 1\<rparr>"
        using step True by (simp_all add: Enq_Cas)
      have "w = of_nat ?e" using True ringD(6) [OF r] by simp
      then show ?thesis unfolding st Enq_Cas by (rule threads_ok_claim [OF inv t [unfolded Enq_Cas]])
    next
      case False
      then have "pc' = Enq_Check (of_nat ?e)" "q = ring_q s"
        using step ringD(6) [OF r] by (auto simp: Enq_Cas split: if_splits)
      then show ?thesis using Enq_Cas e
        by (auto intro!: threads_ok_go [OF inv] simp: thread_ok_def)
    qed
  next
    case (Enq_Mark w)
    have w: "w = of_nat (pos s t)" and m: "claims s ! pos s t = m"
      using T(3,4) t Enq_Mark by auto
    have st: "pc' = Enq_Return (Some (pos s t mod 2 ^ k))"
        "q = set_slot (pos s t mod 2 ^ k) (\<lambda>s. s\<lparr>slot_position := w\<rparr>) (ring_q s)"
      using step by (simp_all add: Enq_Mark w slot_of_ring [OF r])
    show ?thesis
      by (rule threads_ok_own [OF inv, of _ t "Enqueueing m pc'" Marked])
        (simp_all add: Enq_Mark st t m thread_ok_def answer_state_set_slot)
  qed (use pc in simp)
qed

lemma publish_depth_bound:
  assumes r: "ring k e d U C R queue" and "p \<in> C" "p \<notin> U"
  shows "slot_position (slot_at queue (p mod 2 ^ k)) + 1 - dequeue_position queue = of_nat (p + 1 - d)"
    and "(of_nat (p + 1 - d) :: size_t) \<le> 2 ^ k" and "0 < (of_nat (p + 1 - d) :: size_t)"
proof -
  note pc = ring_claimed [OF r assms(2)] and n = ring_lap [OF r]
  have "slot_position (slot_at queue (p mod 2 ^ k)) = of_nat p"
    using ringD(14) [OF r] pc assms(3) by simp
  then show "slot_position (slot_at queue (p mod 2 ^ k)) + 1 - dequeue_position queue = of_nat (p + 1 - d)"
    using pc(1) by (simp add: ringD(7) [OF r] of_nat_diff)
  have le: "p + 1 - d \<le> 2 ^ k" "0 < p + 1 - d" using pc(1,2) ring_depth_bound [OF r] by auto
  have u: "unat (of_nat (p + 1 - d) :: size_t) = p + 1 - d"
    using le(1) n(2) by (simp add: unat_of_nat)
  have "unat (2 ^ k :: size_t) = 2 ^ k" using ringD(2) [OF r] by (intro unat_pow2) simp
  then show "(of_nat (p + 1 - d) :: size_t) \<le> 2 ^ k"
    using le(1) u by (simp only: word_le_nat_alt)
  show "0 < (of_nat (p + 1 - d) :: size_t)"
    using le(2) u by (simp only: word_less_nat_alt unsigned_0)
qed

lemma threads_ok_publish:
  assumes inv: "conc_inv k s" and t: "threads s t = Publishing i pc" and pc: "pub_done pc = None"
    and step: "publish_step spurious i pc (ring_q s) = (pc', q)"
  shows "threads_ok k (note_publish t pc (go t (Publishing i pc') q s))"
proof -
  note D = conc_invD [OF inv] and T = thread_okD [OF conc_invD(5) [OF inv, of t]]
  note r = D(2)
  have i: "i = pos s t mod 2 ^ k" and a: "life s (pos s t) = Armed"
    using T(1,2) t pc by (cases pc; simp)+
  have own: "owned (threads s t) \<noteq> None" using t pc by (cases pc) auto
  show ?thesis
  proof (cases pc)
    case Pub_Dequeued
    note b = publish_depth_bound [OF r, of "pos s t", folded i]
    have "pc' = Pub_Maximum (of_nat (pos s t + 1 - length (taken s)))" "q = ring_q s"
      using step b(1) a by (auto simp: Pub_Dequeued)
    then show ?thesis using b(2) a
      by (auto intro!: threads_ok_go [OF inv] simp: Pub_Dequeued thread_ok_def t i)
  next
    case (Pub_Maximum depth)
    then have "pc' = Pub_Cas depth (depth_max (ring_q s))" "q = ring_q s" "depth \<le> 2 ^ k"
      using step T(5) t by auto
    then show ?thesis using a
      by (auto intro!: threads_ok_go [OF inv] simp: Pub_Maximum thread_ok_def t i)
  next
    case (Pub_Cas depth maximum)
    have st: "pc' = Pub_Store \<or> pc' = Pub_Cas depth (depth_max (ring_q s))" "depth \<le> 2 ^ k"
      and q: "q = ring_q s \<or> q = ring_q s\<lparr>depth_max := depth\<rparr>"
      using step T(5) t by (auto simp: Pub_Cas split: if_splits)
    show ?thesis
      by (rule threads_ok_own [OF inv, of _ t "Publishing i pc'" Armed])
        (use st q a own i in \<open>auto simp: Pub_Cas thread_ok_def\<close>)
  next
    case Pub_Store
    then have st: "pc' = Pub_Return" "q = set_slot i (\<lambda>s. s\<lparr>sequence := slot_position s + 1\<rparr>) (ring_q s)"
      using step by auto
    show ?thesis
      by (rule threads_ok_own [OF inv, of _ t "Publishing i pc'" Published])
        (use own in \<open>simp_all add: Pub_Store st thread_ok_def answer_state_set_slot\<close>)
  qed (use pc in simp)
qed

lemma threads_ok_dequeue:
  assumes inv: "conc_inv k s" and t: "threads s t = Dequeueing pc" and pc: "deq_done pc = None"
    and step: "dequeue_step spurious pc (ring_q s) = (pc', q)"
  shows "threads_ok k (note_dequeue t pc pc' (go t (Dequeueing pc') q s))"
proof -
  note D = conc_invD [OF inv] and T = thread_okD [OF conc_invD(5) [OF inv, of t]]
  note r = D(2)
  let ?e = "length (claims s)" and ?d = "length (taken s)"
  have d: "unat (of_nat ?d :: size_t) = ?d"
    using D(1) ringD(8) [OF r] by (intro unat_of_nat_small) simp
  show ?thesis
  proof (cases pc)
    case Deq_Load
    then have "pc' = Deq_Check (of_nat ?d)" "q = ring_q s" using step ringD(7) [OF r] by auto
    then show ?thesis using Deq_Load d
      by (auto intro!: threads_ok_go [OF inv] simp: thread_ok_def)
  next
    case (Deq_Check w)
    have "unat w \<le> ?d" using T(5) by (simp add: t Deq_Check)
    moreover have "w = of_nat (unat w)" by simp
    ultimately have cl: "?d < ?e \<and> ?d \<notin> claimed_of (life s)" if "pc' = Deq_Cas w" "unat w = ?d"
      using check_take_difference [OF r] ring_lap_int [OF r] step that
      by (auto simp: Deq_Check Let_def split: if_splits)
    have "q = ring_q s" and pcs: "pc' \<in> {Deq_Cas w, Deq_Return None, Deq_Load}"
      using step by (auto simp: Deq_Check Let_def split: if_splits)
    then show ?thesis using Deq_Check cl \<open>unat w \<le> ?d\<close>
      by (auto intro!: threads_ok_go [OF inv] simp: thread_ok_def)
  next
    case (Deq_Cas w)
    show ?thesis
    proof (cases "\<not> spurious \<and> dequeue_position (ring_q s) = w")
      case True
      have w: "w = of_nat ?d" using True ringD(7) [OF r] by simp
      have de: "?d < ?e" "?d \<notin> claimed_of (life s)" using T(5) w d by (simp_all add: t Deq_Cas)
      have st: "pc' = Deq_Return (Some (?d mod 2 ^ k))" "q = ring_q s\<lparr>dequeue_position := w + 1\<rparr>"
        using step True by (simp_all add: Deq_Cas w slot_of_ring [OF r])
      let ?s' = "note_dequeue t pc pc' (go t (Dequeueing pc') q s)"
      have "life s ?d \<noteq> Unborn" "life s ?d \<notin> {Held, Cleared, Quiet, Released}"
        using life_okD [OF D(3), of ?d] de(1) by auto
      then have pub: "life s ?d = Published" using de(2) by (cases "life s ?d") auto
      show ?thesis
      proof (rule threads_ok_intro [OF D(6), of ?s' t "Dequeueing pc'"])
        fix t' assume t': "t' \<noteq> t"
        show "pos s t' \<noteq> pos ?s' t" if "owned (threads s t') \<noteq> None"
          using owner_life [OF inv that] pub by (auto simp: Deq_Cas st)
        show "knows k ?s' (threads s t')" if "knows k s (threads s t')"
          by (rule knows_mono [OF that]) (use pub in \<open>auto simp: Deq_Cas st\<close>)
      qed (simp_all add: Deq_Cas st thread_ok_def)
    next
      case False
      then have "pc' = Deq_Check (of_nat ?d)" "q = ring_q s"
        using step ringD(7) [OF r] by (auto simp: Deq_Cas split: if_splits)
      then show ?thesis using Deq_Cas d
        by (auto intro!: threads_ok_go [OF inv] simp: thread_ok_def)
    qed
  qed (use pc in simp)
qed

lemma threads_ok_disarm:
  assumes inv: "conc_inv k s" and t: "threads s t = Disarming i pc" and pc: "disarm_done pc = None"
    and step: "release_step i pc (ring_q s) = (pc', q)"
  shows "threads_ok k (note_disarm t pc pc' (go t (Disarming i pc') q s))"
proof -
  note D = conc_invD [OF inv] and T = thread_okD [OF conc_invD(5) [OF inv, of t]]
  have i: "i = pos s t mod 2 ^ k" and own: "owned (threads s t) \<noteq> None"
    and ans: "answer_state (slot_at (ring_q s) i) \<noteq> ESRB_ANSWER_PENDING"
    using T(2,6) t pc by (cases pc; simp)+
  show ?thesis
  proof (cases pc)
    case Rel_Clear
    then have st: "pc' = Rel_Wait" "q = set_slot i (\<lambda>s. s\<lparr>occupied := False\<rparr>) (ring_q s)"
      using step by auto
    show ?thesis
      by (rule threads_ok_own [OF inv, of _ t "Disarming i pc'" Cleared])
        (use own ans i in \<open>simp_all add: Rel_Clear st thread_ok_def answer_state_set_slot\<close>)
  next
    case Rel_Wait
    then consider "pc' = Rel_Wait" "q = ring_q s" | "pc' = Rel_Free" "q = ring_q s"
      using step by (auto split: if_splits)
    then show ?thesis
    proof cases
      case 1
      moreover have "life s (pos s t) = Cleared" using T(1) t Rel_Wait by simp
      ultimately show ?thesis using own ans i t
        by (auto intro!: threads_ok_go [OF inv] simp: Rel_Wait thread_ok_def)
    next
      case 2
      show ?thesis
        by (rule threads_ok_own [OF inv, of _ t "Disarming i pc'" Quiet])
          (use own ans i 2 in \<open>simp_all add: Rel_Wait thread_ok_def\<close>)
    qed
  qed (use pc in simp_all)
qed

lemma threads_ok_release:
  assumes inv: "conc_inv k s" and t: "threads s t = Releasing i pc" and pc: "rel_done pc = None"
    and step: "release_step i pc (ring_q s) = (pc', q)"
  shows "threads_ok k (note_release t pc (go t (Releasing i pc') q s))"
proof -
  note D = conc_invD [OF inv] and T = thread_okD [OF conc_invD(5) [OF inv, of t]]
  have i: "i = pos s t mod 2 ^ k" and own: "owned (threads s t) \<noteq> None"
    and l: "life s (pos s t) = Quiet"
    using T(1,2) t pc by (cases pc; simp)+
  have q: "answer_state (slot_at q j) = answer_state (slot_at (ring_q s) j)" for j
    using step by (cases pc) (auto simp: answer_state_set_slot split: if_splits)
  show ?thesis
  proof (cases "pc = Rel_Free")
    case True
    then have "pc' = Rel_Return" using step by simp
    then show ?thesis
      by (intro threads_ok_own [OF inv, of _ t "Releasing i pc'" Released])
        (use own q True in \<open>simp_all add: thread_ok_def\<close>)
  next
    case False
    then have "pc' \<in> {Rel_Wait, Rel_Free}" using step pc by (cases pc) (auto split: if_splits)
    then show ?thesis
      by (intro threads_ok_own [OF inv, of _ t "Releasing i pc'" "life s (pos s t)"])
        (use own q i l pc False in \<open>cases pc; auto simp: thread_ok_def\<close>)+
  qed
qed

lemma threads_ok_watch:
  "threads_ok k (s\<lparr>watch := w\<rparr>) = threads_ok k s"
  "threads_ok k (s\<lparr>responses := l\<rparr>) = threads_ok k s"
proof -
  have "knows k (s\<lparr>watch := w\<rparr>) x = knows k s x" "knows k (s\<lparr>responses := l\<rparr>) x = knows k s x" for x
    by (cases "(k, s, x)" rule: knows.cases; simp)+
  then show "threads_ok k (s\<lparr>watch := w\<rparr>) = threads_ok k s"
    "threads_ok k (s\<lparr>responses := l\<rparr>) = threads_ok k s"
    by (simp_all add: threads_ok_def thread_ok_def)
qed

lemma threads_ok_fill:
  assumes inv: "conc_inv k s" and t: "threads s t = Filling m i"
  shows "threads_ok k ((go t (Occupying m i) (set_slot i (fill_slot m native fire_at) (ring_q s)) s)
      \<lparr>life := (life s)(pos s t := Filled)\<rparr>)"
proof -
  note T = thread_okD [OF conc_invD(5) [OF inv, of t]]
  have m: "i = pos s t mod 2 ^ k" "claims s ! pos s t = m" using T(2,3) t by simp_all
  have own: "owned (threads s t) \<noteq> None" using t by simp
  show ?thesis
    by (rule threads_ok_own [OF inv, of _ t "Occupying m i" Filled])
      (use t own m other_slot_untouched [OF inv own m(1)] in
        \<open>simp_all add: thread_ok_def slot_at_set_slot_neq\<close>)
qed

lemma threads_ok_occupy:
  assumes inv: "conc_inv k s" and t: "threads s t = Occupying m i"
  shows "threads_ok k ((go t (Arming m i) (set_slot i (\<lambda>s. s\<lparr>occupied := True\<rparr>) (ring_q s)) s)
      \<lparr>life := (life s)(pos s t := Armed)\<rparr>)"
proof -
  note T = thread_okD [OF conc_invD(5) [OF inv, of t]]
  have m: "i = pos s t mod 2 ^ k" "claims s ! pos s t = m" using T(2,3) t by simp_all
  show ?thesis
    by (rule threads_ok_own [OF inv, of _ t "Arming m i" Armed])
      (use t m in \<open>simp_all add: thread_ok_def answer_state_set_slot\<close>)
qed

lemma threads_ok_producer_cas:
  assumes inv: "conc_inv k s" and t: "threads s t = ProducerCas i" and cas: "cas_answer i (ring_q s) = (won, q)"
  shows "threads_ok k (go t (if won then ProducerSend i else Publishing i Pub_Dequeued) q s)"
proof -
  note T = thread_okD [OF conc_invD(5) [OF inv, of t]]
  have m: "i = pos s t mod 2 ^ k" "life s (pos s t) = Armed" using T(1,2) t by simp_all
  show ?thesis
    by (rule threads_ok_own [OF inv, of _ t
          "if won then ProducerSend i else Publishing i Pub_Dequeued" "life s (pos s t)"])
      (use t cas m cas_answer_not_pending [OF cas] in \<open>simp_all add: thread_ok_def fun_upd_idem\<close>)
qed

lemma threads_ok_holder_cas:
  assumes inv: "conc_inv k s" and t: "threads s t = HolderCas i releasing"
    and cas: "cas_answer i (ring_q s) = (won, q)"
  shows "threads_ok k (go t (if won then HolderSend i releasing
      else if releasing then Disarming i Rel_Clear else Holding i) q s)"
proof -
  note T = thread_okD [OF conc_invD(5) [OF inv, of t]]
  have m: "i = pos s t mod 2 ^ k" "life s (pos s t) = Held" using T(1,2) t by simp_all
  have "i < length (slots (ring_q s))" unfolding m(1) by (rule ring_index [OF conc_invD(2) [OF inv]])
  then have settled: "answer_state (slot_at q i) \<noteq> ESRB_ANSWER_PENDING"
    using cas by (intro cas_answer_settles) auto
  show ?thesis
    by (rule threads_ok_own [OF inv, of _ t "if won then HolderSend i releasing
          else if releasing then Disarming i Rel_Clear else Holding i" "life s (pos s t)"])
      (use t cas m settled cas_answer_not_pending [OF cas] in
        \<open>simp_all add: thread_ok_def fun_upd_idem\<close>)
qed

lemma threads_ok_watch_step:
  assumes inv: "conc_inv k s" and step: "due_step i position pc (ring_q s) = (pc', q)"
  shows "threads_ok k (s\<lparr>ring_q := q, watch := Answering i position pc'\<rparr>)" (is "threads_ok k ?s'")
proof -
  note D = conc_invD [OF inv]
  have ans: "answer_state (slot_at q j) \<noteq> ESRB_ANSWER_PENDING"
    if "answer_state (slot_at (ring_q s) j) \<noteq> ESRB_ANSWER_PENDING" for j
    using step that cas_answer_not_pending [of i "ring_q s" _ q j]
    by (cases pc) (auto simp: answer_state_set_slot split: if_splits prod.splits)
  have "thread_ok k ?s' t" for t
    using D(5) [of t] ans unfolding thread_ok_def
    by (cases "(k, s, threads s t)" rule: knows.cases) auto
  then show ?thesis using D(6) by (simp add: threads_ok_def)
qed

lemma threads_ok_step:
  assumes inv: "conc_inv k s" and "conc_step s s'"
  shows "threads_ok k s'"
proof -
  note D = conc_invD [OF inv] and T = thread_okD [OF conc_invD(5) [OF inv]]
  show ?thesis
    using assms(2)
  proof cases
    case (producer_send t i)
    have m: "i = pos s t mod 2 ^ k" "life s (pos s t) = Armed"
      using T(1,2) [of t] producer_send by simp_all
    show ?thesis unfolding producer_send(1)
      by (rule threads_ok_own [OF inv, of _ t "Publishing i Pub_Dequeued" "life s (pos s t)"])
        (use producer_send m in \<open>simp_all add: thread_ok_def respond_def fun_upd_idem\<close>)
  next
    case (holder_send t i releasing)
    have m: "i = pos s t mod 2 ^ k" "life s (pos s t) = Held"
        "answer_state (slot_at (ring_q s) i) \<noteq> ESRB_ANSWER_PENDING"
      using T(1,2,6) [of t] holder_send by simp_all
    show ?thesis unfolding holder_send(1)
      by (rule threads_ok_own [OF inv, of _ t
            "if releasing then Disarming i Rel_Clear else Holding i" "life s (pos s t)"])
        (use holder_send m in \<open>simp_all add: thread_ok_def respond_def fun_upd_idem\<close>)
  next
    case (watch_start i position)
    then show ?thesis using D(6) by (simp add: threads_ok_watch)
  next
    case (watch_send i position)
    then show ?thesis using D(6) by (simp add: threads_ok_watch respond_def)
  next
    case (watch_end i position)
    then show ?thesis using D(6) by (simp add: threads_ok_watch)
  next
    case (enqueue t m pc spurious pc' q)
    then show ?thesis using threads_ok_enqueue [OF inv] by simp
  next
    case (publish t i pc spurious pc' q)
    then show ?thesis using threads_ok_publish [OF inv] by simp
  next
    case (dequeue t pc spurious pc' q)
    then show ?thesis using threads_ok_dequeue [OF inv] by simp
  next
    case (disarm t i pc pc' q)
    then show ?thesis using threads_ok_disarm [OF inv] by simp
  next
    case (release t i pc pc' q)
    then show ?thesis using threads_ok_release [OF inv] by simp
  next
    case (fill t m i native fire_at)
    then show ?thesis using threads_ok_fill [OF inv] by simp
  next
    case (occupy t m i)
    then show ?thesis using threads_ok_occupy [OF inv] by simp
  next
    case (producer_cas t i won q)
    then show ?thesis using threads_ok_producer_cas [OF inv] by simp
  next
    case (holder_cas t i releasing won q)
    then show ?thesis using threads_ok_holder_cas [OF inv] by simp
  next
    case (watch_step i position pc pc' q)
    then show ?thesis using threads_ok_watch_step [OF inv] by simp
  qed (use T in \<open>auto intro!: threads_ok_go [OF inv] simp: thread_ok_def\<close>)
qed

end
