(* ===== verification/Protocol_Slots.thy ===== *)
theory Protocol_Slots
  imports Protocol_Threads
begin

text \<open>
  Every step of the concurrent system keeps what the invariant says of the slots: an unreleased
  slot holds the message of its position from the moment it is filled, a slot that is marked
  occupied belongs to a position between arming and release, and what consumers took is, in order,
  what producers claimed.
\<close>

section \<open>Fields the steps leave alone\<close>

lemmas slot_fields = set_slot_field [where g = slot_message] set_slot_field [where g = occupied]
  set_slot_field [where g = readers] set_slot_field [where g = answer_state]

lemma enqueue_frame:
  "enqueue_step b ep queue = (ep', q1) \<Longrightarrow> slot_message (slot_at q1 j) = slot_message (slot_at queue j) \<and>
    occupied (slot_at q1 j) = occupied (slot_at queue j) \<and> readers (slot_at q1 j) = readers (slot_at queue j) \<and>
    answer_state (slot_at q1 j) = answer_state (slot_at queue j)"
  by (cases ep) (auto simp: Let_def slot_fields split: if_splits)

lemma publish_frame:
  "publish_step b i pp queue = (pp', q1) \<Longrightarrow> slot_message (slot_at q1 j) = slot_message (slot_at queue j) \<and>
    occupied (slot_at q1 j) = occupied (slot_at queue j) \<and> readers (slot_at q1 j) = readers (slot_at queue j) \<and>
    answer_state (slot_at q1 j) = answer_state (slot_at queue j)"
  by (cases pp) (auto simp: slot_fields split: if_splits)

lemma dequeue_frame: "dequeue_step b dp queue = (dp', q1) \<Longrightarrow> slot_at q1 j = slot_at queue j"
  by (cases dp) (auto simp: Let_def split: if_splits)

lemma release_frame:
  "release_step i rp queue = (rp', q1) \<Longrightarrow> slot_message (slot_at q1 j) = slot_message (slot_at queue j) \<and>
    (occupied (slot_at q1 j) \<longrightarrow> occupied (slot_at queue j)) \<and> readers (slot_at q1 j) = readers (slot_at queue j) \<and>
    answer_state (slot_at q1 j) = answer_state (slot_at queue j)"
proof (cases rp)
  case Rel_Clear
  assume "release_step i rp queue = (rp', q1)"
  then show ?thesis using Rel_Clear
    by (cases "i = j"; cases "i < length (slots queue)")
      (auto simp: slot_fields slot_at_set_slot_neq set_slot_def slot_at_def list_update_beyond)
qed (auto simp: slot_fields split: if_splits)

lemma cas_frame:
  "cas_answer i queue = (won, q1) \<Longrightarrow> slot_message (slot_at q1 j) = slot_message (slot_at queue j) \<and>
    occupied (slot_at q1 j) = occupied (slot_at queue j) \<and> readers (slot_at q1 j) = readers (slot_at queue j)"
  by (auto simp: cas_answer_def slot_fields split: if_splits)

lemma due_frame:
  "due_step i w up queue = (up', q1) \<Longrightarrow> slot_message (slot_at q1 j) = slot_message (slot_at queue j) \<and>
    occupied (slot_at q1 j) = occupied (slot_at queue j)"
  by (cases up) (auto simp: slot_fields cas_frame split: if_splits prod.splits dest: cas_frame)

lemmas step_frames = enqueue_frame publish_frame dequeue_frame release_frame due_frame cas_frame

section \<open>Steps and the slots\<close>

lemma slots_ok_keep:
  assumes ok: "slots_ok k s"
    and msg: "\<And>i. slot_message (slot_at (ring_q s') i) = slot_message (slot_at (ring_q s) i)"
    and occ: "\<And>i. occupied (slot_at (ring_q s') i) \<Longrightarrow> occupied (slot_at (ring_q s) i)"
    and same: "claims s' = claims s" "taken s' = taken s"
    and life: "life s' = (life s)(p := l)"
    and fil: "l \<in> filled_lives \<Longrightarrow> life s p \<in> filled_lives"
    and gone: "life s p \<in> {Armed, Published, Held} \<Longrightarrow> l \<notin> {Armed, Published, Held} \<Longrightarrow>
      \<not> occupied (slot_at (ring_q s') (p mod 2 ^ k))"
  shows "slots_ok k s'"
  unfolding slots_ok_def
proof (intro conjI allI impI)
  fix p' assume "life s' p' \<in> filled_lives"
  then have "life s p' \<in> filled_lives" using fil life by (cases "p' = p") auto
  then show "slot_message (slot_at (ring_q s') (p' mod 2 ^ k)) = Some (claims s' ! p')"
    using ok msg same by (simp add: slots_ok_def)
next
  fix i :: nat assume i: "i < 2 ^ k" and o: "occupied (slot_at (ring_q s') i)"
  then obtain p' where p': "p' mod 2 ^ k = i" "life s p' \<in> {Armed, Published, Held}"
    using ok occ unfolding slots_ok_def by blast
  have "life s' p' \<in> {Armed, Published, Held}"
    using gone p' o by (cases "p' = p") (auto simp: life)
  with p' show "\<exists>p. p mod 2 ^ k = i \<and> life s' p \<in> {Armed, Published, Held}" by blast
next
  show "taken s' = map Some (take (length (taken s')) (claims s'))"
    using ok same by (simp add: slots_ok_def)
qed

lemma slots_ok_cong:
  "claims s' = claims s \<Longrightarrow> taken s' = taken s \<Longrightarrow> life s' = life s \<Longrightarrow>
    (\<And>i. slot_message (slot_at (ring_q s') i) = slot_message (slot_at (ring_q s) i)) \<Longrightarrow>
    (\<And>i. occupied (slot_at (ring_q s') i) = occupied (slot_at (ring_q s) i)) \<Longrightarrow>
    slots_ok k s' = slots_ok k s"
  by (simp add: slots_ok_def)

text \<open>What an enqueue or a dequeue writes to the history.\<close>

lemma note_enqueue_cases [case_names claim mark other]:
  assumes "\<And>w w'. pc = Enq_Cas w \<Longrightarrow> pc' = Enq_Mark w' \<Longrightarrow> P" "\<And>w. pc = Enq_Mark w \<Longrightarrow> P"
    and "(\<And>s. note_enqueue t m pc pc' s = s) \<Longrightarrow> P"
  shows P
proof (cases "(\<exists>w w'. pc = Enq_Cas w \<and> pc' = Enq_Mark w') \<or> (\<exists>w. pc = Enq_Mark w)")
  case False
  then have "note_enqueue t m pc pc' s = s" for s by (cases pc; cases pc') simp_all
  then show ?thesis by (rule assms(3))
qed (use assms(1,2) in blast)

lemma note_dequeue_cases [case_names take other]:
  assumes "\<And>w i. pc = Deq_Cas w \<Longrightarrow> pc' = Deq_Return (Some i) \<Longrightarrow> P"
    and "(\<And>s. note_dequeue t pc pc' s = s) \<Longrightarrow> P"
  shows P
proof (cases "\<exists>w i. pc = Deq_Cas w \<and> pc' = Deq_Return (Some i)")
  case False
  then have "note_dequeue t pc pc' s = s" for s
    by (cases "(t, pc, pc', s)" rule: note_dequeue.cases) simp_all
  then show ?thesis by (rule assms(2))
qed (use assms(1) in blast)

lemma claim_unborn: "conc_inv k s \<Longrightarrow> life s (length (claims s)) = Unborn"
  using life_okD(1) [OF conc_invD(3)] by simp

text \<open>The exchange of a dequeue takes the oldest claimed position, which is published.\<close>

lemma dequeue_takes_published:
  assumes inv: "conc_inv k s" and t: "threads s t = Dequeueing (Deq_Cas w)"
    and step: "dequeue_step spurious (Deq_Cas w) (ring_q s) = (Deq_Return (Some i), q)"
  shows "i = length (taken s) mod 2 ^ k" "length (taken s) < length (claims s)"
    "life s (length (taken s)) = Published"
proof -
  note D = conc_invD [OF inv]
  let ?d = "length (taken s)"
  have "dequeue_position (ring_q s) = w" "i = slot_of (ring_q s) w" using step by (auto split: if_splits)
  then have w: "w = of_nat ?d" and i: "i = ?d mod 2 ^ k"
    using slot_of_ring [OF D(2), of ?d] by (simp_all add: ringD(7) [OF D(2)])
  have "unat (of_nat ?d :: size_t) = ?d"
    using D(1) ringD(8) [OF D(2)] by (intro unat_of_nat_small) simp
  then have de: "?d < length (claims s)" "?d \<notin> claimed_of (life s)"
    using thread_okD(5) [OF conc_invD(5) [OF inv, of t]] t w by simp_all
  have "life s ?d \<noteq> Unborn" "life s ?d \<notin> {Held, Cleared, Quiet, Released}"
    using life_okD [OF D(3), of ?d] de(1) by auto
  then show "life s ?d = Published" using de(2) by (cases "life s ?d") auto
  show "i = ?d mod 2 ^ k" "?d < length (claims s)" by (rule i, rule de(1))
qed

lemma slots_ok_message:
  "slots_ok k s \<Longrightarrow> life s p \<in> filled_lives \<Longrightarrow>
    slot_message (slot_at (ring_q s) (p mod 2 ^ k)) = Some (claims s ! p)"
  by (simp add: slots_ok_def)

lemma slots_ok_occupied:
  assumes "slots_ok k s" "i < 2 ^ k" "occupied (slot_at (ring_q s) i)"
  obtains p where "p mod 2 ^ k = i" "life s p \<in> {Armed, Published, Held}"
  using assms unfolding slots_ok_def by blast

lemma slots_ok_enqueue:
  assumes inv: "conc_inv k s" and t: "threads s t = Enqueueing m pc"
    and step: "enqueue_step spurious pc (ring_q s) = (pc', q)"
  shows "slots_ok k (note_enqueue t m pc pc' (go t (Enqueueing m pc') q s))"
proof -
  note D = conc_invD [OF inv] and T = thread_okD [OF conc_invD(5) [OF inv]]
  let ?s = "go t (Enqueueing m pc') q s"
  have ok: "slots_ok k ?s" using D(7) step_frames(1) [OF step] by (subst slots_ok_cong [of _ s]) auto
  show ?thesis
  proof (cases rule: note_enqueue_cases [of pc pc' _ t m])
    case (claim w w')
    have "p < length (claims s)" if "life s p \<in> filled_lives" for p
      using life_okD(1) [OF D(3), of p] that by (force simp: filled_lives_def)
    moreover have "length (taken s) \<le> length (claims s)" by (rule ringD(8) [OF D(2)])
    moreover have "slots_ok k (?s\<lparr>life := (life s)(length (claims s) := Claimed)\<rparr>)"
      using claim_unborn [OF inv]
      by (intro slots_ok_keep [OF ok, of _ "length (claims s)" Claimed]) (simp_all add: filled_lives_def)
    ultimately show ?thesis
      unfolding claim slots_ok_def using claim_unborn [OF inv] by (auto simp: nth_append filled_lives_def)
  next
    case (mark w)
    have "life s (pos s t) = Claimed" using T(1) [of t] t mark by simp
    then show ?thesis unfolding mark
      by (intro slots_ok_keep [OF ok, of _ "pos s t" Marked]) (simp_all add: filled_lives_def)
  next
    case other
    then show ?thesis using ok by simp
  qed
qed

lemma slots_ok_fill:
  assumes inv: "conc_inv k s" and t: "threads s t = Filling m i"
  shows "slots_ok k ((go t (Occupying m i) (set_slot i (fill_slot m native fire_at) (ring_q s)) s)
      \<lparr>life := (life s)(pos s t := Filled)\<rparr>)" (is "slots_ok k ?s'")
proof -
  note D = conc_invD [OF inv] and T = thread_okD [OF conc_invD(5) [OF inv, of t]]
  note ok = D(7)
  have m: "i = pos s t mod 2 ^ k" "claims s ! pos s t = m" "life s (pos s t) = Marked"
    using T(1-3) t by simp_all
  have i: "i < length (slots (ring_q s))" unfolding m(1) by (rule ring_index [OF D(2)])
  have neq: "p mod 2 ^ k \<noteq> i" if "life s p \<in> filled_lives" for p
    using unreleased_same_slot [OF inv, of p "pos s t"] that m by (auto simp: filled_lives_def)
  have occ: "occupied (slot_at (set_slot i (fill_slot m native fire_at) (ring_q s)) j) =
      occupied (slot_at (ring_q s) j)" for j by (rule set_slot_field) simp
  show ?thesis unfolding slots_ok_def
  proof (intro conjI allI impI)
    fix p assume p: "life ?s' p \<in> filled_lives"
    show "slot_message (slot_at (ring_q ?s') (p mod 2 ^ k)) = Some (claims ?s' ! p)"
    proof (cases "p = pos s t")
      case True
      then show ?thesis using m i by simp
    next
      case False
      then show ?thesis using p neq slots_ok_message [OF ok] i by auto
    qed
  next
    fix j :: nat assume "j < 2 ^ k" and "occupied (slot_at (ring_q ?s') j)"
    then obtain p where "p mod 2 ^ k = j" "life s p \<in> {Armed, Published, Held}"
      using slots_ok_occupied [OF ok, of j] occ by auto
    then show "\<exists>p. p mod 2 ^ k = j \<and> life ?s' p \<in> {Armed, Published, Held}"
      using m by (intro exI [of _ p]) auto
  qed (use ok in \<open>simp add: slots_ok_def\<close>)
qed

lemma slots_ok_occupy:
  assumes inv: "conc_inv k s" and t: "threads s t = Occupying m i"
  shows "slots_ok k ((go t (Arming m i) (set_slot i (\<lambda>s. s\<lparr>occupied := True\<rparr>) (ring_q s)) s)
      \<lparr>life := (life s)(pos s t := Armed)\<rparr>)" (is "slots_ok k ?s'")
proof -
  note D = conc_invD [OF inv] and T = thread_okD [OF conc_invD(5) [OF inv, of t]]
  note ok = D(7)
  have m: "i = pos s t mod 2 ^ k" "life s (pos s t) = Filled" using T(1,2) t by simp_all
  have i: "i < length (slots (ring_q s))" unfolding m(1) by (rule ring_index [OF D(2)])
  show ?thesis unfolding slots_ok_def
  proof (intro conjI allI impI)
    fix j :: nat assume j: "j < 2 ^ k" and o: "occupied (slot_at (ring_q ?s') j)"
    show "\<exists>p. p mod 2 ^ k = j \<and> life ?s' p \<in> {Armed, Published, Held}"
    proof (cases "j = i")
      case True
      then show ?thesis using m by (intro exI [of _ "pos s t"]) auto
    next
      case False
      then obtain p where "p mod 2 ^ k = j" "life s p \<in> {Armed, Published, Held}"
        using slots_ok_occupied [OF ok j] o i by auto
      then show ?thesis using m by (intro exI [of _ p]) auto
    qed
  qed (use ok m i in \<open>auto simp: slots_ok_def filled_lives_def split: if_splits\<close>)
qed

lemma slots_ok_publish:
  assumes inv: "conc_inv k s" and t: "threads s t = Publishing i pc"
    and step: "publish_step spurious i pc (ring_q s) = (pc', q)"
  shows "slots_ok k (note_publish t pc (go t (Publishing i pc') q s))"
proof (cases "pc = Pub_Store")
  case True
  have "slots_ok k (go t (Publishing i pc') q s)"
    using conc_invD(7) [OF inv] step_frames(2) [OF step] by (subst slots_ok_cong [of _ s]) auto
  moreover have "life s (pos s t) = Armed"
    using thread_okD(1) [OF conc_invD(5) [OF inv, of t]] t True by simp
  ultimately show ?thesis unfolding True
    by (elim slots_ok_keep [of _ _ _ "pos s t" Published]) (simp_all add: filled_lives_def)
next
  case False
  then have "note_publish t pc (go t (Publishing i pc') q s) = go t (Publishing i pc') q s" by (cases pc) auto
  then show ?thesis using conc_invD(7) [OF inv] step_frames(2) [OF step]
    by (simp only:, subst slots_ok_cong [of _ s]) auto
qed

lemma slots_ok_dequeue:
  assumes inv: "conc_inv k s" and t: "threads s t = Dequeueing pc"
    and step: "dequeue_step spurious pc (ring_q s) = (pc', q)"
  shows "slots_ok k (note_dequeue t pc pc' (go t (Dequeueing pc') q s))"
proof -
  note ok = conc_invD(7) [OF inv] and F = step_frames(3) [OF step]
  let ?s = "go t (Dequeueing pc') q s" and ?d = "length (taken s)"
  have ok1: "slots_ok k ?s" using ok F by (subst slots_ok_cong [of _ s]) auto
  show ?thesis
  proof (cases rule: note_dequeue_cases [of pc pc' _ t])
    case (take w i)
    note P = dequeue_takes_published [OF inv t [unfolded take] step [unfolded take]]
    have "taken s @ [slot_message (slot_at q i)] = map Some (take (Suc ?d) (claims s))"
      using ok P F slots_ok_message [OF ok, of ?d]
      by (simp add: slots_ok_def take_Suc_conv_app_nth filled_lives_def)
    moreover have "slots_ok k (?s\<lparr>life := (life s)(?d := Held)\<rparr>)"
      using P(3) by (intro slots_ok_keep [OF ok1, of _ ?d Held]) (simp_all add: filled_lives_def)
    moreover have "min (length (claims s)) (Suc ?d) = Suc ?d" using P(2) by simp
    ultimately show ?thesis unfolding take slots_ok_def by simp
  next
    case other
    then show ?thesis using ok1 by simp
  qed
qed

lemma slots_ok_disarm:
  assumes inv: "conc_inv k s" and t: "threads s t = Disarming i pc" and pc: "disarm_done pc = None"
    and step: "release_step i pc (ring_q s) = (pc', q)"
  shows "slots_ok k (note_disarm t pc pc' (go t (Disarming i pc') q s))"
proof -
  note D = conc_invD [OF inv] and T = thread_okD [OF conc_invD(5) [OF inv, of t]]
  note F = step_frames(4) [OF step]
  have i: "i = pos s t mod 2 ^ k" using T(2) t pc by (cases pc) simp_all
  have idx: "i < length (slots (ring_q s))" unfolding i by (rule ring_index [OF D(2)])
  show ?thesis
  proof (cases pc)
    case Rel_Clear
    then have q: "pc' = Rel_Wait" "q = set_slot i (\<lambda>s. s\<lparr>occupied := False\<rparr>) (ring_q s)"
      using step by auto
    have "life s (pos s t) = Held" using T(1) t Rel_Clear by simp
    then show ?thesis unfolding Rel_Clear
      by (intro slots_ok_keep [OF D(7), of _ "pos s t" Cleared])
        (use F i idx q in \<open>auto simp: filled_lives_def\<close>)
  next
    case Rel_Wait
    then have st: "pc' = Rel_Wait \<or> pc' = Rel_Free" "q = ring_q s" using step by (auto split: if_splits)
    have l: "life s (pos s t) = Cleared" using T(1) t Rel_Wait by simp
    define l' where "l' = (if pc' = Rel_Free then Quiet else Cleared)"
    show ?thesis unfolding Rel_Wait
      by (intro slots_ok_keep [OF D(7), of _ "pos s t" l'])
        (use st l in \<open>auto simp: filled_lives_def l'_def fun_upd_idem\<close>)
  qed (use pc in simp_all)
qed

lemma slots_ok_release:
  assumes inv: "conc_inv k s" and t: "threads s t = Releasing i pc" and pc: "rel_done pc = None"
    and step: "release_step i pc (ring_q s) = (pc', q)"
  shows "slots_ok k (note_release t pc (go t (Releasing i pc') q s))"
proof -
  have l: "life s (pos s t) = Quiet"
    using thread_okD(1) [OF conc_invD(5) [OF inv, of t]] t pc by (cases pc) auto
  define l' where "l' = (if pc = Rel_Free then Released else Quiet)"
  show ?thesis
    by (intro slots_ok_keep [OF conc_invD(7) [OF inv], of _ "pos s t" l'])
      (use step_frames(4) [OF step] l pc in \<open>cases pc; auto simp: filled_lives_def l'_def fun_upd_idem\<close>)+
qed

lemma slots_ok_step:
  assumes inv: "conc_inv k s" and "conc_step s s'"
  shows "slots_ok k s'"
  using assms(2)
proof cases
  case (producer_cas t i won q)
  then show ?thesis using conc_invD(7) [OF inv] step_frames(6) [OF producer_cas(3)]
    by (subst slots_ok_cong [of _ s]) auto
next
  case (holder_cas t i releasing won q)
  then show ?thesis using conc_invD(7) [OF inv] step_frames(6) [OF holder_cas(3)]
    by (subst slots_ok_cong [of _ s]) auto
next
  case (watch_step i position pc pc' q)
  then show ?thesis using conc_invD(7) [OF inv] step_frames(5) [OF watch_step(5)]
    by (subst slots_ok_cong [of _ s]) auto
next
  case (enqueue t m pc spurious pc' q)
  then show ?thesis using slots_ok_enqueue [OF inv] by simp
next
  case (fill t m i native fire_at)
  then show ?thesis using slots_ok_fill [OF inv] by simp
next
  case (occupy t m i)
  then show ?thesis using slots_ok_occupy [OF inv] by simp
next
  case (publish t i pc spurious pc' q)
  then show ?thesis using slots_ok_publish [OF inv] by simp
next
  case (dequeue t pc spurious pc' q)
  then show ?thesis using slots_ok_dequeue [OF inv] by simp
next
  case (disarm t i pc pc' q)
  then show ?thesis using slots_ok_disarm [OF inv] by simp
next
  case (release t i pc pc' q)
  then show ?thesis using slots_ok_release [OF inv] by simp
qed (use conc_invD(7) [OF inv] in \<open>simp_all add: slots_ok_def respond_def\<close>)

end
