(* ===== verification/Protocol_Watch.thy ===== *)
theory Protocol_Watch
  imports Protocol_Slots
begin

text \<open>
  Every step of the concurrent system keeps what the invariant says of the watchdog: the readers
  count of a slot is one exactly while the watchdog is inside it, and between its second look at
  \<open>occupied\<close> and its answer the position it found stays unreleased (watchdog.c:190-211 against
  queue.c:102-109).
\<close>

lemma pinned_position:
  assumes inv: "conc_inv k s" and p: "life s p \<in> {Armed, Published, Held, Cleared}"
  shows "slot_position (slot_at (ring_q s) (p mod 2 ^ k)) = of_nat p"
    and "slot_message (slot_at (ring_q s) (p mod 2 ^ k)) = Some (claims s ! p)"
    and "p < length (claims s)" and "unat (of_nat p :: size_t) = p"
proof -
  note D = conc_invD [OF inv]
  show e: "p < length (claims s)" using life_okD(1) [OF D(3), of p] p by force
  then show "unat (of_nat p :: size_t) = p"
    using D(1) by (intro unat_of_nat_small) simp
  have "p \<notin> unmarked_of (life s)" "p \<notin> released_of (life s)" using p by auto
  then show "slot_position (slot_at (ring_q s) (p mod 2 ^ k)) = of_nat p"
    using ringD(14) [OF D(2) e] ring_unreleased_current [OF D(2)] by blast
  show "slot_message (slot_at (ring_q s) (p mod 2 ^ k)) = Some (claims s ! p)"
    using D(7) p by (auto simp: slots_ok_def filled_lives_def)
qed

lemma born_eq:
  assumes inv: "conc_inv k s" and "life s p \<noteq> Unborn" "life s p' \<noteq> Unborn"
    and "(of_nat p :: size_t) = of_nat p'"
  shows "p = p'"
proof -
  note D = conc_invD [OF inv]
  have "p < length (claims s)" "p' < length (claims s)"
    using life_okD(1) [OF D(3)] assms(2,3) by (meson not_le)+
  then show ?thesis using assms(4) D(1) unat_of_nat_small by (metis le_trans less_imp_le)
qed

lemma watch_ok_keep:
  assumes ok: "watch_ok k s" and w: "watch s' = watch s"
    and rd: "\<And>i. readers (slot_at (ring_q s') i) = readers (slot_at (ring_q s) i)"
    and life: "life s' = (life s)(p := l)"
    and keep: "life s p \<in> {Armed, Published, Held, Cleared} \<Longrightarrow> pins (watch s) (2 ^ k) p \<Longrightarrow>
      l \<in> {Armed, Published, Held, Cleared}"
  shows "watch_ok k s'"
  unfolding watch_ok_def
proof (intro conjI allI impI)
  fix i w' pc
  assume a: "watch s' = Answering i w' pc \<and> pc \<in> {Due_Position, Due_Cas, Due_Send}"
  then obtain p' where p': "pins (watch s) (2 ^ k) p'" "life s p' \<in> {Armed, Published, Held, Cleared}"
    using ok unfolding watch_ok_def w by blast
  then have "life s' p' \<in> {Armed, Published, Held, Cleared}"
    using keep by (cases "p' = p") (simp_all add: life)
  then show "\<exists>p. pins (watch s') (2 ^ k) p \<and> life s' p \<in> {Armed, Published, Held, Cleared}"
    using p' w by auto
qed (use ok rd w in \<open>auto simp: watch_ok_def\<close>)

lemma watch_ok_same:
  assumes "watch_ok k s" and "watch s' = watch s" and "life s' = life s"
    and "\<And>i. readers (slot_at (ring_q s') i) = readers (slot_at (ring_q s) i)"
  shows "watch_ok k s'"
  using assms by (intro watch_ok_keep [OF assms(1,2), of p "life s p" for p]) auto

lemma watch_ok_advance:
  assumes inv: "conc_inv k s" and w: "watch s = Answering i w pc" and pc: "due_done pc = None"
    and step: "due_step i w pc (ring_q s) = (pc', q)"
  shows "watch_ok k (s\<lparr>ring_q := q, watch := Answering i w pc'\<rparr>)"
proof -
  note D = conc_invD [OF inv]
  note ok = D(8)
  have i: "i < 2 ^ k" "i < length (slots (ring_q s))"
    using ok w pc ringD(5) [OF D(2)] unfolding watch_ok_def by (cases pc; simp)+
  have rd: "readers (slot_at (ring_q s) j) = (if inside (watch s) = Some j then 1 else 0)"
    if "j < 2 ^ k" for j using ok that by (simp add: watch_ok_def)
  have pin: "\<exists>p. pins (watch s) (2 ^ k) p \<and> life s p \<in> {Armed, Published, Held, Cleared}"
    if "pc \<in> {Due_Position, Due_Cas, Due_Send}" using ok w that unfolding watch_ok_def by blast
  let ?s' = "s\<lparr>ring_q := q, watch := Answering i w pc'\<rparr>"
  have readers: "readers (slot_at q j) = (if inside (Answering i w pc') = Some j then 1 else 0)"
    if "j < 2 ^ k" for j
    using step pc rd [OF that] i step_frames(6) [of i "ring_q s" _ q j] unfolding w
    by (cases pc) (auto split: if_splits prod.splits)
  have pinned: "\<exists>p. pins (Answering i w pc') (2 ^ k) p \<and> life s p \<in> {Armed, Published, Held, Cleared}"
    if p': "pc' \<in> {Due_Position, Due_Cas, Due_Send}"
  proof (cases pc)
    case Due_Recheck
    then have "pc' = Due_Position" and o: "occupied (slot_at (ring_q s) i)"
      using step p' by (auto split: if_splits)
    moreover obtain p where "p mod 2 ^ k = i" "life s p \<in> {Armed, Published, Held}"
      using D(7) o i(1) unfolding slots_ok_def by blast
    ultimately show ?thesis by auto
  next
    case Due_Position
    then have "pc' = Due_Cas" and sp: "slot_position (slot_at (ring_q s) i) = w"
      using step p' by (auto split: if_splits)
    moreover obtain p where p: "p mod 2 ^ k = i" "life s p \<in> {Armed, Published, Held, Cleared}"
      using pin Due_Position w by auto
    moreover have "w = of_nat p" using pinned_position(1) [OF inv p(2)] sp p(1) by simp
    ultimately show ?thesis by auto
  next
    case Due_Cas
    then have "pc' = Due_Send" using step p' by (auto split: prod.splits if_splits)
    then show ?thesis using pin Due_Cas w by auto
  qed (use step p' pc in \<open>auto split: if_splits\<close>)
  show ?thesis unfolding watch_ok_def
  proof (intro conjI allI impI)
    fix j assume "watches (watch ?s') = Some j"
    then have "j = i" by (cases pc') auto
    then show "j < 2 ^ k" using i by simp
  qed (use readers pinned in auto)
qed

lemma watch_ok_enqueue:
  assumes inv: "conc_inv k s" and t: "threads s t = Enqueueing m pc"
    and step: "enqueue_step spurious pc (ring_q s) = (pc', q)"
  shows "watch_ok k (note_enqueue t m pc pc' (go t (Enqueueing m pc') q s))"
proof -
  have ok: "watch_ok k (go t (Enqueueing m pc') q s)" using step_frames(1) [OF step]
    by (intro watch_ok_same [OF conc_invD(8) [OF inv]]) auto
  show ?thesis
  proof (cases rule: note_enqueue_cases [of pc pc' _ t m])
    case (claim w w')
    then show ?thesis using claim_unborn [OF inv]
      by (intro watch_ok_keep [OF ok, of _ "length (claims s)" Claimed]) simp_all
  next
    case (mark w)
    have "life s (pos s t) = Claimed"
      using thread_okD(1) [OF conc_invD(5) [OF inv, of t]] t mark by simp
    then show ?thesis unfolding mark
      by (intro watch_ok_keep [OF ok, of _ "pos s t" Marked]) simp_all
  next
    case other
    then show ?thesis using ok by simp
  qed
qed

lemma watch_ok_dequeue:
  assumes inv: "conc_inv k s" and step: "dequeue_step spurious pc (ring_q s) = (pc', q)"
  shows "watch_ok k (note_dequeue t pc pc' (go t (Dequeueing pc') q s))"
proof -
  have ok: "watch_ok k (go t (Dequeueing pc') q s)" using step_frames(3) [OF step]
    by (intro watch_ok_same [OF conc_invD(8) [OF inv]]) auto
  show ?thesis
  proof (cases rule: note_dequeue_cases [of pc pc' _ t])
    case (take w i)
    then show ?thesis by (intro watch_ok_keep [OF ok, of _ "length (taken s)" Held]) simp_all
  next
    case other
    then show ?thesis using ok by simp
  qed
qed

text \<open>A slot without readers is no slot of the watchdog.\<close>

lemma unread_not_pinned:
  assumes "watch_ok k s" and "readers (slot_at (ring_q s) (p mod 2 ^ k)) = 0"
  shows "\<not> pins (watch s) (2 ^ k) p"
proof -
  have "inside (watch s) \<noteq> Some (p mod 2 ^ k)" using assms unfolding watch_ok_def
    by (metis mod_less_divisor one_neq_zero zero_less_numeral zero_less_power)
  then show ?thesis by (cases "(watch s, 2 ^ k :: nat, p)" rule: pins.cases) auto
qed

lemma watch_ok_disarm:
  assumes inv: "conc_inv k s" and t: "threads s t = Disarming i pc" and pc: "disarm_done pc = None"
    and step: "release_step i pc (ring_q s) = (pc', q)"
  shows "watch_ok k (note_disarm t pc pc' (go t (Disarming i pc') q s))"
proof -
  note ok = conc_invD(8) [OF inv] and G = step_frames(4) [OF step]
  have i: "i = pos s t mod 2 ^ k"
    using thread_okD(2) [OF conc_invD(5) [OF inv, of t]] t pc by (cases pc) auto
  show ?thesis
  proof (cases pc)
    case Rel_Clear
    then show ?thesis by (intro watch_ok_keep [OF ok, of _ "pos s t" Cleared]) (use G in simp_all)
  next
    case Rel_Wait
    show ?thesis
    proof (cases "pc' = Rel_Free")
      case True
      then have "readers (slot_at (ring_q s) i) = 0" using step Rel_Wait by (auto split: if_splits)
      then have "\<not> pins (watch s) (2 ^ k) (pos s t)" unfolding i by (rule unread_not_pinned [OF ok])
      then show ?thesis
        by (intro watch_ok_keep [OF ok, of _ "pos s t" Quiet]) (use G True Rel_Wait in simp_all)
    next
      case False
      then have "pc' = Rel_Wait" using step Rel_Wait by (auto split: if_splits)
      then show ?thesis by (intro watch_ok_same [OF ok]) (use G Rel_Wait in simp_all)
    qed
  qed (use pc in simp_all)
qed

lemma watch_ok_publish:
  assumes inv: "conc_inv k s" and t: "threads s t = Publishing i pc" and pc: "pub_done pc = None"
    and step: "publish_step spurious i pc (ring_q s) = (pc', q)"
  shows "watch_ok k (note_publish t pc (go t (Publishing i pc') q s))"
proof -
  define l where "l = (if pc = Pub_Store then Published else life s (pos s t))"
  have "pc = Pub_Store \<Longrightarrow> life s (pos s t) = Armed"
    using thread_okD(1) [OF conc_invD(5) [OF inv, of t]] t by simp
  then show ?thesis
    by (intro watch_ok_keep [OF conc_invD(8) [OF inv], of _ "pos s t" l])
      (use step_frames(2) [OF step] pc in \<open>cases pc; auto simp: l_def\<close>)+
qed

lemma watch_ok_release:
  assumes inv: "conc_inv k s" and t: "threads s t = Releasing i pc" and pc: "rel_done pc = None"
    and step: "release_step i pc (ring_q s) = (pc', q)"
  shows "watch_ok k (note_release t pc (go t (Releasing i pc') q s))"
proof -
  have l: "life s (pos s t) = Quiet"
    using thread_okD(1) [OF conc_invD(5) [OF inv, of t]] t pc by (cases pc) auto
  define l' where "l' = (if pc = Rel_Free then Released else Quiet)"
  show ?thesis
    by (intro watch_ok_keep [OF conc_invD(8) [OF inv], of _ "pos s t" l'])
      (use step_frames(4) [OF step] l pc in \<open>cases pc; auto simp: l'_def fun_upd_idem\<close>)+
qed

lemma watch_ok_step:
  assumes inv: "conc_inv k s" and "conc_step s s'"
  shows "watch_ok k s'"
proof -
  note D = conc_invD [OF inv] and T = thread_okD [OF conc_invD(5) [OF inv]]
  note ok = D(8)
  note F = set_slot_field [where g = readers]
  show ?thesis
    using assms(2)
  proof cases
    case (fill t m i native fire_at)
    have "life s (pos s t) = Marked" using T(1) [of t] fill by simp
    then show ?thesis unfolding fill(1)
      by (intro watch_ok_keep [OF ok, of _ "pos s t" Filled]) (simp_all add: F)
  next
    case (occupy t m i)
    have "life s (pos s t) = Filled" using T(1) [of t] occupy by simp
    then show ?thesis unfolding occupy(1)
      by (intro watch_ok_keep [OF ok, of _ "pos s t" Armed]) (simp_all add: F)
  next
    case (producer_cas t i won q)
    then show ?thesis using step_frames(6) [OF producer_cas(3)]
      by (intro watch_ok_same [OF ok]) auto
  next
    case (holder_cas t i releasing won q)
    then show ?thesis using step_frames(6) [OF holder_cas(3)]
      by (intro watch_ok_same [OF ok]) auto
  next
    case (watch_send i position)
    have "watch_ok k (s\<lparr>watch := Answering i position Due_Leave\<rparr>)"
      using watch_ok_advance [OF inv watch_send(2), of Due_Leave "ring_q s"] by simp
    then show ?thesis unfolding watch_send(1) by (simp add: watch_ok_def respond_def)
  next
    case (enqueue t m pc spurious pc' q)
    then show ?thesis using watch_ok_enqueue [OF inv] by simp
  next
    case (publish t i pc spurious pc' q)
    then show ?thesis using watch_ok_publish [OF inv] by simp
  next
    case (dequeue t pc spurious pc' q)
    then show ?thesis using watch_ok_dequeue [OF inv] by simp
  next
    case (disarm t i pc pc' q)
    then show ?thesis using watch_ok_disarm [OF inv] by simp
  next
    case (release t i pc pc' q)
    then show ?thesis using watch_ok_release [OF inv] by simp
  next
    case (watch_step i position pc pc' q)
    then show ?thesis using watch_ok_advance [OF inv] by simp
  qed (use ok ringD(5) [OF D(2)] in \<open>simp_all add: watch_ok_def respond_def\<close>)
qed

end
