(* ===== verification/Protocol_Answers.thy ===== *)
theory Protocol_Answers
  imports Protocol_Watch
begin

text \<open>
  Every step of the concurrent system keeps the account of the answers: whoever moves a slot from
  PENDING to ANSWERED owes exactly one response for the slot's position, and nobody owes one for a
  position that is not yet filled or whose slot is past its release.
\<close>

section \<open>Who is about to answer\<close>

lemma sends_owned: "sends x \<Longrightarrow> owned x = Some Armed \<or> owned x = Some Held"
  by (cases x) auto

lemma sends_works_on: "sends x \<Longrightarrow> \<exists>i. works_on x = Some i"
  by (cases x) auto

lemma not_sending:
  assumes inv: "conc_inv k s" and p: "life s p \<in> {Claimed, Marked, Filled, Quiet, Released}"
  shows "\<not> thread_sending s p" and "\<not> watch_sending k s p"
proof -
  note D = conc_invD [OF inv] and T = thread_okD [OF conc_invD(5) [OF inv]]
  show "\<not> thread_sending s p"
    using T(1) sends_owned p unfolding thread_sending_def by fastforce
  show "\<not> watch_sending k s p"
  proof
    assume "watch_sending k s p"
    then obtain i w where w: "watch s = Answering i w Due_Send" and wp: "w = of_nat p"
      by (auto simp: watch_sending_def)
    have "\<exists>p'. pins (watch s) (2 ^ k) p' \<and> life s p' \<in> {Armed, Published, Held, Cleared}"
      using D(8) w unfolding watch_ok_def by blast
    then obtain p' where l: "life s p' \<in> {Armed, Published, Held, Cleared}" and "w = of_nat p'"
      using w by auto
    then have "(of_nat p :: size_t) = of_nat p'" using wp by simp
    moreover have "life s p \<noteq> Unborn" "life s p' \<noteq> Unborn" using p l by (safe, simp_all)
    ultimately have "p = p'" using born_eq [OF inv] by blast
    then show False using p l by (elim insertE) simp_all
  qed
qed

lemma thread_sending_quiet:
  assumes "threads s' = (threads s)(t := x)" and "\<And>t'. t' \<noteq> t \<Longrightarrow> pos s' t' = pos s t'"
    and "\<not> sends (threads s t)" "\<not> sends x"
  shows "thread_sending s' p = thread_sending s p"
  using assms unfolding thread_sending_def by (metis fun_upd_apply)

lemma thread_sending_start:
  assumes "threads s' = (threads s)(t := x)" and "pos s' = pos s"
    and "\<not> sends (threads s t)" "sends x"
  shows "thread_sending s' p \<longleftrightarrow> p = pos s t \<or> thread_sending s p"
  using assms unfolding thread_sending_def by auto

lemma thread_sending_stop:
  assumes inv: "conc_inv k s" and "threads s' = (threads s)(t := x)" and "pos s' = pos s"
    and "sends (threads s t)" "\<not> sends x"
  shows "thread_sending s' p \<longleftrightarrow> p \<noteq> pos s t \<and> thread_sending s p"
proof -
  have "pos s t' \<noteq> pos s t" if "sends (threads s t')" "t' \<noteq> t" for t'
    using owners_distinct(1) [OF inv, of t' t] sends_owned that assms(4) by fastforce
  then show ?thesis using assms(2-) unfolding thread_sending_def by (auto; metis)
qed

section \<open>One position\<close>

definition answer_ok :: "nat \<Rightarrow> conc \<Rightarrow> nat \<Rightarrow> bool" where
  "answer_ok k s p \<longleftrightarrow>
     (life s p \<in> {Unborn, Claimed, Marked} \<longrightarrow> answer_count s p = 0) \<and>
     (life s p \<in> filled_lives \<longrightarrow>
        fits (answer_state (slot_at (ring_q s) (p mod 2 ^ k))) (is_auth (claims s ! p))
          (answers_due k s p)) \<and>
     (life s p \<in> {Cleared, Quiet} \<longrightarrow>
        answer_state (slot_at (ring_q s) (p mod 2 ^ k)) \<noteq> ESRB_ANSWER_PENDING) \<and>
     (life s p = Released \<longrightarrow> answer_count s p = of_bool (is_auth (claims s ! p)))"

definition log_ok :: "conc \<Rightarrow> bool" where
  "log_ok s \<longleftrightarrow> (\<forall>p m. (p, m) \<in> set (responses s) \<longrightarrow> p < length (claims s) \<and> m = Some (claims s ! p))"

lemma answers_ok_alt: "answers_ok k s \<longleftrightarrow> (\<forall>p. answer_ok k s p) \<and> log_ok s"
  unfolding answers_ok_def answer_ok_def log_ok_def by blast

text \<open>A life that goes on without an answer being given.\<close>

definition same_stage :: "life \<Rightarrow> life \<Rightarrow> answer \<Rightarrow> bool" where
  "same_stage l l' a \<longleftrightarrow> l = l' \<or> {l, l'} \<subseteq> {Unborn, Claimed, Marked} \<or>
     {l, l'} \<subseteq> filled_lives \<and> (l' \<in> {Cleared, Quiet} \<longrightarrow> a \<noteq> ESRB_ANSWER_PENDING)"

lemma answer_ok_keep:
  assumes ok: "answer_ok k s p"
    and stage: "same_stage (life s p) (life s' p) (answer_state (slot_at (ring_q s) (p mod 2 ^ k)))"
    and ans: "life s p \<in> filled_lives \<Longrightarrow>
      answer_state (slot_at (ring_q s') (p mod 2 ^ k)) = answer_state (slot_at (ring_q s) (p mod 2 ^ k))"
    and claims: "life s p \<in> filled_lives \<union> {Released} \<Longrightarrow> claims s' ! p = claims s ! p"
    and count: "life s p \<notin> filled_lives \<Longrightarrow> answer_count s' p = answer_count s p"
    and due: "life s p \<in> filled_lives \<Longrightarrow> answers_due k s' p = answers_due k s p"
  shows "answer_ok k s' p"
proof (cases "life s p \<in> filled_lives")
  case True
  have ok3: "life s p \<in> {Cleared, Quiet} \<longrightarrow>
      answer_state (slot_at (ring_q s) (p mod 2 ^ k)) \<noteq> ESRB_ANSWER_PENDING"
    using ok by (simp add: answer_ok_def)
  have "life s' p = life s p \<or> life s' p \<in> filled_lives \<and> (life s' p \<in> {Cleared, Quiet} \<longrightarrow>
      answer_state (slot_at (ring_q s) (p mod 2 ^ k)) \<noteq> ESRB_ANSWER_PENDING)"
    using stage True unfolding same_stage_def by (auto simp: filled_lives_def)
  then have "life s' p \<in> filled_lives" and
    "life s' p \<in> {Cleared, Quiet} \<longrightarrow>
      answer_state (slot_at (ring_q s) (p mod 2 ^ k)) \<noteq> ESRB_ANSWER_PENDING"
    using True ok3 by (elim disjE; simp)+
  moreover have "life s' p \<notin> {Unborn, Claimed, Marked, Released}"
    using calculation(1) by (auto simp: filled_lives_def)
  moreover have "claims s' ! p = claims s ! p" using claims True by simp
  ultimately show ?thesis
    using ok True ans [OF True] due [OF True] unfolding answer_ok_def by simp
next
  case False
  then have "life s' p \<notin> filled_lives \<union> {Cleared, Quiet}" "life s p \<in> {Unborn, Claimed, Marked} \<or> life s p = Released"
    using stage by (auto simp: same_stage_def filled_lives_def) (cases "life s p"; simp)
  moreover have "life s' p \<in> {Unborn, Claimed, Marked} \<longleftrightarrow> life s p \<in> {Unborn, Claimed, Marked}"
    "life s' p = Released \<longleftrightarrow> life s p = Released"
    using stage False by (auto simp: same_stage_def filled_lives_def)
  ultimately show ?thesis using ok count [OF False] claims unfolding answer_ok_def by simp
qed

section \<open>Steps that give no answer\<close>

lemma answers_ok_quiet:
  assumes inv: "conc_inv k s"
    and "responses s' = responses s" and "watch s' = watch s"
    and thr: "threads s' = (threads s)(t := x)" "\<And>t'. t' \<noteq> t \<Longrightarrow> pos s' t' = pos s t'"
      "\<not> sends (threads s t)" "\<not> sends x"
    and ans: "\<And>i. answer_state (slot_at (ring_q s') i) = answer_state (slot_at (ring_q s) i)"
    and claims: "claims s' = claims s @ xs"
    and life: "life s' = (life s)(p := l)"
    and stage: "same_stage (life s p) l (answer_state (slot_at (ring_q s) (p mod 2 ^ k)))"
  shows "answers_ok k s'"
proof -
  note D = conc_invD [OF inv]
  have born: "p' < length (claims s)" if "life s p' \<in> filled_lives \<union> {Released}" for p'
    using life_okD(1) [OF D(3), of p'] that by (force simp: filled_lives_def)
  have due: "answers_due k s' p' = answers_due k s p'" for p'
    using thread_sending_quiet [OF thr] assms(2,3)
    by (simp add: answers_due_def answer_count_def watch_sending_def)
  have "answer_ok k s' p'" for p'
  proof (rule answer_ok_keep [where s = s])
    show "answer_ok k s p'" using D(9) by (simp add: answers_ok_alt)
    show "same_stage (life s p') (life s' p') (answer_state (slot_at (ring_q s) (p' mod 2 ^ k)))"
      using stage by (simp add: life) (simp add: same_stage_def)
    show "claims s' ! p' = claims s ! p'" if "life s p' \<in> filled_lives \<union> {Released}"
      using born [OF that] by (simp add: claims nth_append)
  qed (use ans due assms(2) in \<open>simp_all add: answer_count_def\<close>)
  moreover have "log_ok s'"
    using D(9) assms(2) claims by (fastforce simp: answers_ok_alt log_ok_def nth_append)
  ultimately show ?thesis by (simp add: answers_ok_alt)
qed

lemma answers_ok_same:
  assumes "conc_inv k s" and "responses s' = responses s" and "watch s' = watch s"
    and "threads s' = (threads s)(t := x)" "pos s' = pos s"
      "\<not> sends (threads s t)" "\<not> sends x"
    and "\<And>i. answer_state (slot_at (ring_q s') i) = answer_state (slot_at (ring_q s) i)"
    and "claims s' = claims s" and "life s' = life s"
  shows "answers_ok k s'"
  using assms
  by (intro answers_ok_quiet [OF assms(1-4), of "[]" p "life s p" for p])
    (auto simp: same_stage_def)

lemma answers_ok_watch:
  assumes inv: "conc_inv k s"
    and "responses s' = responses s" "threads s' = threads s" "pos s' = pos s"
      "claims s' = claims s" "life s' = life s"
    and "\<And>p. \<not> watch_sending k s p" "\<And>p. \<not> watch_sending k s' p"
    and ans: "\<And>i. answer_state (slot_at (ring_q s') i) = answer_state (slot_at (ring_q s) i)"
  shows "answers_ok k s'"
proof -
  have "answers_due k s' p = answers_due k s p" "answer_count s' p = answer_count s p" for p
    using assms(2-8) by (simp_all add: answers_due_def answer_count_def thread_sending_def)
  then show ?thesis
    using conc_invD(9) [OF inv] assms(2,5,6) ans by (simp add: answers_ok_def)
qed

section \<open>Steps that win the answer, and steps that send it\<close>

lemma answers_ok_win:
  assumes inv: "conc_inv k s" and p: "life s p \<in> filled_lives"
    and pend: "answer_state (slot_at (ring_q s) (p mod 2 ^ k)) = ESRB_ANSWER_PENDING"
    and q: "ring_q s' = set_slot (p mod 2 ^ k) (\<lambda>s. s\<lparr>answer_state := ESRB_ANSWER_ANSWERED\<rparr>) (ring_q s)"
    and l: "life s p \<notin> {Cleared, Quiet}"
    and same: "claims s' = claims s" "life s' = life s" "responses s' = responses s"
    and due: "answers_due k s p = 0 \<Longrightarrow> answers_due k s' p = 1"
      "\<And>p'. p' \<noteq> p \<Longrightarrow> life s p' \<in> filled_lives \<Longrightarrow> answers_due k s' p' = answers_due k s p'"
  shows "answers_ok k s'"
proof -
  note D = conc_invD [OF inv]
  have i: "p mod 2 ^ k < length (slots (ring_q s))" by (rule ring_index [OF D(2)])
  have ok: "answer_ok k s p'" for p' using D(9) by (simp add: answers_ok_alt)
  have "answer_ok k s' p'" for p'
  proof (cases "p' = p")
    case True
    have "life s p \<notin> {Unborn, Claimed, Marked, Released, Cleared, Quiet}"
      using p l by (auto simp: filled_lives_def)
    moreover have "is_auth (claims s ! p)" "answers_due k s p = 0"
      using ok [of p] p pend by (simp_all add: answer_ok_def)
    moreover have "answer_state (slot_at (ring_q s') (p mod 2 ^ k)) = ESRB_ANSWER_ANSWERED"
      using i by (simp add: q)
    moreover have "answers_due k s' p = 1" using due(1) calculation(3) by blast
    ultimately show ?thesis unfolding True answer_ok_def same by simp
  next
    case False
    have "p' mod 2 ^ k \<noteq> p mod 2 ^ k" if "life s p' \<in> filled_lives"
      using unreleased_same_slot [OF inv, of p' p] that p False by (auto simp: filled_lives_def)
    then have slot: "slot_at (ring_q s') (p' mod 2 ^ k) = slot_at (ring_q s) (p' mod 2 ^ k)"
      if "life s p' \<in> filled_lives" using that unfolding q by (metis slot_at_set_slot_neq)
    show ?thesis
    proof (rule answer_ok_keep [OF ok])
      show "same_stage (life s p') (life s' p') (answer_state (slot_at (ring_q s) (p' mod 2 ^ k)))"
        by (simp add: same same_stage_def)
    qed (use slot due(2) False in \<open>simp_all only: same answer_count_def\<close>)
  qed
  moreover have "log_ok s'" using D(9) same by (auto simp: answers_ok_alt log_ok_def)
  ultimately show ?thesis by (simp add: answers_ok_alt)
qed

lemma answers_ok_send:
  assumes inv: "conc_inv k s" and p: "life s p \<in> {Armed, Published, Held, Cleared}"
    and same: "claims s' = claims s" "life s' = life s" "ring_q s' = ring_q s"
    and log: "responses s' = responses s @ [(p, Some (claims s ! p))]"
    and due: "\<And>p'. life s p' \<in> filled_lives \<Longrightarrow> answers_due k s' p' = answers_due k s p'"
  shows "answers_ok k s'"
proof -
  note D = conc_invD [OF inv]
  have fil: "life s p \<in> filled_lives" using p by (auto simp: filled_lives_def)
  have "answer_ok k s' p'" for p'
  proof (rule answer_ok_keep [where s = s])
    show "answer_ok k s p'" using D(9) by (simp add: answers_ok_alt)
    show "answer_count s' p' = answer_count s p'" if "life s p' \<notin> filled_lives"
    proof -
      have "p' \<noteq> p" using that fil by blast
      then show ?thesis by (simp add: answer_count_def log)
    qed
  qed (use due in \<open>simp_all add: same same_stage_def\<close>)
  moreover have "log_ok s'"
    using D(9) pinned_position(3) [OF inv p] by (auto simp: answers_ok_alt log_ok_def log same)
  ultimately show ?thesis by (simp add: answers_ok_alt)
qed

section \<open>Every step\<close>

lemma same_stage_refl [simp]: "same_stage l l a"
  by (simp add: same_stage_def)

lemma answers_ok_enqueue:
  assumes inv: "conc_inv k s" and t: "threads s t = Enqueueing m pc"
    and step: "enqueue_step spurious pc (ring_q s) = (pc', q)"
  shows "answers_ok k (note_enqueue t m pc pc' (go t (Enqueueing m pc') q s))"
proof -
  note T = thread_okD [OF conc_invD(5) [OF inv]]
  note F = step_frames(1) [OF step]
  show ?thesis
  proof (cases rule: note_enqueue_cases [of pc pc' _ t m])
    case (claim w w')
    show ?thesis unfolding claim using claim_unborn [OF inv]
      by (intro answers_ok_quiet [OF inv, of _ t "Enqueueing m pc'" "[m]" "length (claims s)" Claimed])
        (use F t in \<open>simp_all add: claim same_stage_def\<close>)
  next
    case (mark w)
    have "life s (pos s t) = Claimed" using T(1) [of t] t mark by simp
    then show ?thesis unfolding mark
      by (intro answers_ok_quiet [OF inv, of _ t "Enqueueing m pc'" "[]" "pos s t" Marked])
        (use F t in \<open>simp_all add: mark same_stage_def\<close>)
  next
    case other
    then show ?thesis
      by (simp only:, intro answers_ok_same [OF inv, of _ t "Enqueueing m pc'"])
        (use F t in simp_all)
  qed
qed

lemma answers_ok_fill:
  assumes inv: "conc_inv k s" and t: "threads s t = Filling m i"
  shows "answers_ok k ((go t (Occupying m i) (set_slot i (fill_slot m native fire_at) (ring_q s)) s)
      \<lparr>life := (life s)(pos s t := Filled)\<rparr>)" (is "answers_ok k ?s'")
proof -
  note D = conc_invD [OF inv] and T = thread_okD [OF conc_invD(5) [OF inv, of t]]
  have i: "i = pos s t mod 2 ^ k" and m: "claims s ! pos s t = m" and l: "life s (pos s t) = Marked"
    using T(1-3) t by simp_all
  have idx: "i < length (slots (ring_q s))" unfolding i by (rule ring_index [OF D(2)])
  have ok: "answer_ok k s p" for p using D(9) by (simp add: answers_ok_alt)
  have sending: "thread_sending ?s' p = thread_sending s p" for p
    by (rule thread_sending_quiet [of _ _ t "Occupying m i"]) (simp_all add: t)
  have watching: "watch_sending k ?s' p = watch_sending k s p" for p by (simp add: watch_sending_def)
  have count: "answer_count ?s' p = answer_count s p" for p by (simp add: answer_count_def)
  have due: "answers_due k ?s' p = answers_due k s p" for p
    by (simp only: answers_due_def sending watching count)
  have "answer_ok k ?s' p" for p
  proof (cases "p = pos s t")
    case True
    have "answer_count s (pos s t) = 0" using ok [of "pos s t"] l by (simp add: answer_ok_def)
    moreover have "\<not> thread_sending s (pos s t)" "\<not> watch_sending k s (pos s t)"
      using not_sending [OF inv, of "pos s t"] l by simp_all
    ultimately have "answers_due k s (pos s t) = 0" by (simp add: answers_due_def)
    then have "answers_due k ?s' (pos s t) = 0" by (simp only: due)
    then show ?thesis unfolding answer_ok_def True using idx m i by simp
  next
    case False
    have slot: "slot_at (ring_q ?s') (p mod 2 ^ k) = slot_at (ring_q s) (p mod 2 ^ k)"
      if "life s p \<in> filled_lives"
    proof -
      have "p mod 2 ^ k \<noteq> i" unfolding i
        using unreleased_same_slot [OF inv, of p "pos s t"] that l False
        by (auto simp: filled_lives_def)
      then show ?thesis by (simp add: slot_at_set_slot_neq)
    qed
    show ?thesis
    proof (rule answer_ok_keep [OF ok])
      show "same_stage (life s p) (life ?s' p) (answer_state (slot_at (ring_q s) (p mod 2 ^ k)))"
        using False by simp
      show "answer_count ?s' p = answer_count s p" by (rule count)
      show "answers_due k ?s' p = answers_due k s p" by (rule due)
      show "answer_state (slot_at (ring_q ?s') (p mod 2 ^ k)) =
          answer_state (slot_at (ring_q s) (p mod 2 ^ k))" if "life s p \<in> filled_lives"
        by (simp only: slot [OF that])
    qed simp
  qed
  moreover have "log_ok ?s'" using D(9) by (simp add: answers_ok_alt log_ok_def)
  ultimately show ?thesis by (simp add: answers_ok_alt)
qed

lemma answers_ok_publish:
  assumes inv: "conc_inv k s" and t: "threads s t = Publishing i pc" and pc: "pub_done pc = None"
    and step: "publish_step spurious i pc (ring_q s) = (pc', q)"
  shows "answers_ok k (note_publish t pc (go t (Publishing i pc') q s))"
proof -
  note T = thread_okD [OF conc_invD(5) [OF inv, of t]]
  define l where "l = (if pc = Pub_Store then Published else life s (pos s t))"
  have "pc = Pub_Store \<Longrightarrow> life s (pos s t) = Armed" using T(1) t by simp
  then have stage: "same_stage (life s (pos s t)) l a" for a
    by (auto simp: l_def same_stage_def filled_lives_def)
  show ?thesis
    by (rule answers_ok_quiet [OF inv, of _ t "Publishing i pc'" "[]" "pos s t" l])
      (use step_frames(2) [OF step] t pc stage in \<open>cases pc; simp add: l_def\<close>)+
qed

lemma answers_ok_dequeue:
  assumes inv: "conc_inv k s" and t: "threads s t = Dequeueing pc"
    and step: "dequeue_step spurious pc (ring_q s) = (pc', q)"
  shows "answers_ok k (note_dequeue t pc pc' (go t (Dequeueing pc') q s))"
proof -
  note F = step_frames(3) [OF step]
  let ?d = "length (taken s)"
  show ?thesis
  proof (cases rule: note_dequeue_cases [of pc pc' _ t])
    case (take w i)
    have "life s ?d = Published" by (rule dequeue_takes_published [OF inv t [unfolded take] step [unfolded take]])
    then show ?thesis unfolding take
      by (intro answers_ok_quiet [OF inv, of _ t "Dequeueing pc'" "[]" ?d Held])
        (use F t in \<open>simp_all add: take same_stage_def filled_lives_def\<close>)
  next
    case other
    then show ?thesis
      by (simp only:, intro answers_ok_same [OF inv, of _ t "Dequeueing pc'"])
        (use F t in simp_all)
  qed
qed

lemma answers_ok_disarm:
  assumes inv: "conc_inv k s" and t: "threads s t = Disarming i pc" and pc: "disarm_done pc = None"
    and step: "release_step i pc (ring_q s) = (pc', q)"
  shows "answers_ok k (note_disarm t pc pc' (go t (Disarming i pc') q s))"
proof -
  note T = thread_okD [OF conc_invD(5) [OF inv, of t]]
  note F = step_frames(4) [OF step]
  have i: "i = pos s t mod 2 ^ k" using T(2) t pc by (cases pc) simp_all
  have a: "answer_state (slot_at (ring_q s) (pos s t mod 2 ^ k)) \<noteq> ESRB_ANSWER_PENDING"
    using T(6) [of i] t pc unfolding i by (cases pc) simp_all
  define l where "l = (if pc = Rel_Clear then Cleared else if pc' = Rel_Free then Quiet else life s (pos s t))"
  have "pc = Rel_Clear \<Longrightarrow> life s (pos s t) = Held" "pc = Rel_Wait \<Longrightarrow> life s (pos s t) = Cleared"
    using T(1) t by simp_all
  then have stage: "same_stage (life s (pos s t)) l (answer_state (slot_at (ring_q s) (pos s t mod 2 ^ k)))"
    using a pc by (cases pc) (auto simp: l_def same_stage_def filled_lives_def)
  have note_eq: "note_disarm t pc pc' (go t (Disarming i pc') q s) =
      (go t (Disarming i pc') q s)\<lparr>life := (life s)(pos s t := l)\<rparr>"
    using step pc by (cases pc) (auto simp: l_def split: if_splits)
  show ?thesis unfolding note_eq
    by (rule answers_ok_quiet [OF inv, of _ t "Disarming i pc'" "[]" "pos s t" l])
      (use F t stage in simp_all)
qed

lemma answers_ok_release:
  assumes inv: "conc_inv k s" and t: "threads s t = Releasing i pc" and pc: "rel_done pc = None"
    and step: "release_step i pc (ring_q s) = (pc', q)"
  shows "answers_ok k (note_release t pc (go t (Releasing i pc') q s))"
proof (cases pc)
  case Rel_Free
  note D = conc_invD [OF inv] and T = thread_okD [OF conc_invD(5) [OF inv, of t]]
  note F = step_frames(4) [OF step]
  let ?s' = "note_release t pc (go t (Releasing i pc') q s)"
  have ok: "answer_ok k s p" for p using D(9) by (simp add: answers_ok_alt)
  have l: "life s (pos s t) = Quiet" using T(1) t Rel_Free by simp
  have sending: "thread_sending ?s' p = thread_sending s p" for p
    by (rule thread_sending_quiet [of _ _ t "Releasing i pc'"]) (simp_all add: t Rel_Free)
  have due: "answers_due k ?s' p = answers_due k s p" for p
    unfolding answers_due_def sending
    by (simp add: watch_sending_def answer_count_def Rel_Free)
  have "answer_ok k ?s' p" for p
  proof (cases "p = pos s t")
    case True
    have "\<not> thread_sending s (pos s t)" "\<not> watch_sending k s (pos s t)"
      using not_sending [OF inv, of "pos s t"] l by simp_all
    then have "answers_due k s (pos s t) = answer_count s (pos s t)" by (simp add: answers_due_def)
    then have "answer_count s (pos s t) = of_bool (is_auth (claims s ! pos s t))"
      using ok [of "pos s t"] l unfolding answer_ok_def
      by (cases "answer_state (slot_at (ring_q s) (pos s t mod 2 ^ k))") (simp_all add: filled_lives_def)
    then show ?thesis unfolding True by (simp add: answer_ok_def Rel_Free answer_count_def filled_lives_def)
  next
    case False
    show ?thesis
      by (rule answer_ok_keep [OF ok])
        (use False due F in \<open>simp_all add: Rel_Free answer_count_def\<close>)
  qed
  moreover have "log_ok ?s'" using D(9) by (simp add: answers_ok_alt log_ok_def Rel_Free)
  ultimately show ?thesis by (simp add: answers_ok_alt)
qed (use pc t step_frames(4) [OF step] in \<open>simp_all,
      (intro answers_ok_same [OF inv, of _ t "Releasing i pc'"]; simp)+\<close>)

lemma answers_ok_win_thread:
  assumes inv: "conc_inv k s" and w: "works_on (threads s t) = Some i"
    and o: "owned (threads s t) \<in> {Some Armed, Some Held}"
    and quiet: "\<not> sends (threads s t)" and x: "sends x"
    and cas: "cas_answer i (ring_q s) = (True, q)"
  shows "answers_ok k (go t x q s)"
proof -
  note T = thread_okD [OF conc_invD(5) [OF inv, of t]]
  let ?p = "pos s t"
  define s' where "s' = go t x q s"
  have i: "i = ?p mod 2 ^ k" by (rule T(2) [OF w])
  have l: "life s ?p \<in> {Armed, Held}" using T(1) o by auto
  have a: "answer_state (slot_at (ring_q s) (?p mod 2 ^ k)) = ESRB_ANSWER_PENDING"
    "q = set_slot (?p mod 2 ^ k) (\<lambda>s. s\<lparr>answer_state := ESRB_ANSWER_ANSWERED\<rparr>) (ring_q s)"
    using cas unfolding i by (auto simp: cas_answer_def split: if_splits)
  have sending: "thread_sending s' p \<longleftrightarrow> p = ?p \<or> thread_sending s p" for p
    by (rule thread_sending_start [of _ _ t x]) (simp_all add: quiet x s'_def)
  have same: "watch_sending k s' p = watch_sending k s p" "answer_count s' p = answer_count s p" for p
    by (simp_all add: watch_sending_def answer_count_def s'_def)
  have "answers_ok k s'"
  proof (rule answers_ok_win [OF inv, of ?p])
    show "answers_due k s' ?p = 1" if "answers_due k s ?p = 0"
      using that by (simp add: answers_due_def sending same)
    show "answers_due k s' p = answers_due k s p" if "p \<noteq> ?p" for p
      using that by (simp add: answers_due_def sending same)
  qed (use a l in \<open>auto simp: filled_lives_def s'_def\<close>)
  then show ?thesis by (simp add: s'_def)
qed

lemma answers_ok_send_thread:
  assumes inv: "conc_inv k s" and w: "works_on (threads s t) = Some i"
    and sender: "sends (threads s t)" and x: "\<not> sends x"
  shows "answers_ok k (respond i (go t x (ring_q s) s))"
proof -
  note T = thread_okD [OF conc_invD(5) [OF inv, of t]]
  let ?p = "pos s t"
  define s' where "s' = respond i (go t x (ring_q s) s)"
  have i: "i = ?p mod 2 ^ k" by (rule T(2) [OF w])
  have l: "life s ?p \<in> {Armed, Published, Held, Cleared}" using T(1) sends_owned [OF sender] by auto
  note P = pinned_position [OF inv l]
  have log: "responses s' = responses s @ [(?p, Some (claims s ! ?p))]"
    using P by (simp add: respond_def i s'_def)
  have sending: "thread_sending s' p \<longleftrightarrow> p \<noteq> ?p \<and> thread_sending s p" for p
    by (rule thread_sending_stop [OF inv, of _ t x]) (simp_all add: sender x respond_def s'_def)
  have now: "thread_sending s ?p" using sender by (auto simp: thread_sending_def)
  have same: "watch_sending k s' p = watch_sending k s p" for p
    by (simp add: watch_sending_def respond_def s'_def)
  have count: "answer_count s' p = answer_count s p + of_bool (p = ?p)" for p
    by (simp add: answer_count_def log)
  have "answers_ok k s'"
  proof (rule answers_ok_send [OF inv l _ _ _ log])
    show "answers_due k s' p = answers_due k s p" for p
      using now by (simp add: answers_due_def sending same count)
  qed (simp_all add: s'_def respond_def)
  then show ?thesis by (simp add: s'_def)
qed

lemma pins_unique:
  assumes inv: "conc_inv k s" and "watch s = Answering i w pc" "pc \<in> {Due_Cas, Due_Send}"
    and "pins (watch s) (2 ^ k) p" "pins (watch s) (2 ^ k) p'"
    and "life s p \<noteq> Unborn" "life s p' \<noteq> Unborn"
  shows "p = p'"
proof -
  have "w = of_nat p" "w = of_nat p'" using assms(2-5) by auto
  then have "(of_nat p :: size_t) = of_nat p'" by simp
  then show ?thesis using born_eq [OF inv assms(6,7)] by blast
qed

lemma watch_pinned:
  assumes inv: "conc_inv k s" and "watch s = Answering i w pc" "pc \<in> {Due_Cas, Due_Send}"
  obtains p where "pins (watch s) (2 ^ k) p" "life s p \<in> {Armed, Published, Held, Cleared}"
    "i = p mod 2 ^ k" "w = of_nat p"
proof -
  obtain p where p: "pins (watch s) (2 ^ k) p" "life s p \<in> {Armed, Published, Held, Cleared}"
    using conc_invD(8) [OF inv] assms(2,3) unfolding watch_ok_def by blast
  moreover have "i = p mod 2 ^ k" "w = of_nat p" using p(1) assms(2,3) by auto
  ultimately show thesis by (rule that)
qed

lemma answers_ok_watch_step:
  assumes inv: "conc_inv k s" and w: "watch s = Answering i w pc" and pc: "pc \<noteq> Due_Send"
    and step: "due_step i w pc (ring_q s) = (pc', q)"
  shows "answers_ok k (s\<lparr>ring_q := q, watch := Answering i w pc'\<rparr>)" (is "answers_ok k ?s'")
proof (cases "pc' = Due_Send")
  case False
  have "answer_state (slot_at q j) = answer_state (slot_at (ring_q s) j)" for j
  proof (cases pc)
    case Due_Cas
    then have "q = ring_q s"
      using step False by (auto simp: cas_answer_def split: if_splits)
    then show ?thesis by simp
  qed (use step in \<open>auto simp: set_slot_field [where g = answer_state] split: if_splits\<close>)
  then show ?thesis using w pc False
    by (intro answers_ok_watch [OF inv]) (simp_all add: watch_sending_def)
next
  case True
  then have pc: "pc = Due_Cas" using step pc by (cases pc) (auto split: if_splits)
  then have cas: "cas_answer i (ring_q s) = (True, q)"
    using step True by (auto split: prod.splits if_splits)
  obtain p where p: "pins (watch s) (2 ^ k) p" "life s p \<in> {Armed, Published, Held, Cleared}"
      "i = p mod 2 ^ k" "w = of_nat p"
    using watch_pinned [OF inv w] pc by auto
  have a: "answer_state (slot_at (ring_q s) (p mod 2 ^ k)) = ESRB_ANSWER_PENDING"
    "q = set_slot (p mod 2 ^ k) (\<lambda>s. s\<lparr>answer_state := ESRB_ANSWER_ANSWERED\<rparr>) (ring_q s)"
    using cas unfolding p(3) by (auto simp: cas_answer_def split: if_splits)
  have l: "life s p \<noteq> Cleared"
    using conc_invD(9) [OF inv] a(1) by (auto simp: answers_ok_def)
  have born: "life s p' \<noteq> Unborn" if "life s p' \<in> filled_lives" for p'
    using that by (auto simp: filled_lives_def)
  have old: "\<not> watch_sending k s p'" for p' by (simp add: watch_sending_def w pc)
  define s' where "s' = s\<lparr>ring_q := q, watch := Answering i w pc'\<rparr>"
  have new: "watch_sending k s' p' \<longleftrightarrow> p' = p" if "life s p' \<in> filled_lives" for p'
  proof -
    have "p' = p" if "w = of_nat p'" using born_eq [OF inv, of p' p] born [OF \<open>life s p' \<in> filled_lives\<close>] p(2) that
      unfolding p(4) by auto
    then show ?thesis using True p(3,4) by (auto simp: watch_sending_def s'_def)
  qed
  have same: "thread_sending s' p' = thread_sending s p'" "answer_count s' p' = answer_count s p'" for p'
    by (simp_all add: thread_sending_def answer_count_def s'_def)
  have fil: "life s p \<in> filled_lives" using p(2) by (auto simp: filled_lives_def)
  have "answers_ok k s'"
  proof (rule answers_ok_win [OF inv fil a(1)])
    show "life s p \<notin> {Cleared, Quiet}" using l p(2) by auto
    show "answers_due k s' p = 1" if "answers_due k s p = 0"
      using that by (simp add: answers_due_def same new [OF fil])
    show "answers_due k s' p' = answers_due k s p'" if "p' \<noteq> p" "life s p' \<in> filled_lives" for p'
      using that(1) old by (simp add: answers_due_def same new [OF that(2)])
  qed (use a(2) in \<open>simp_all add: s'_def\<close>)
  then show ?thesis by (simp add: s'_def)
qed

lemma answers_ok_watch_send:
  assumes inv: "conc_inv k s" and w: "watch s = Answering i w Due_Send"
  shows "answers_ok k (respond i (s\<lparr>watch := Answering i w Due_Leave\<rparr>))"
proof -
  define s' where "s' = respond i (s\<lparr>watch := Answering i w Due_Leave\<rparr>)"
  obtain p where p: "pins (watch s) (2 ^ k) p" "life s p \<in> {Armed, Published, Held, Cleared}"
      "i = p mod 2 ^ k" "w = of_nat p"
    using watch_pinned [OF inv w] by auto
  note P = pinned_position [OF inv p(2)]
  have log: "responses s' = responses s @ [(p, Some (claims s ! p))]"
    using P by (simp add: s'_def respond_def p(3))
  have count: "answer_count s' p' = answer_count s p' + of_bool (p' = p)" for p'
    by (simp add: answer_count_def log)
  have new: "\<not> watch_sending k s' p'" for p' by (simp add: s'_def watch_sending_def respond_def)
  have old: "watch_sending k s p' \<longleftrightarrow> p' = p" if "life s p' \<in> filled_lives" for p'
  proof -
    have "life s p' \<noteq> Unborn" "life s p \<noteq> Unborn" using that p(2) by (auto simp: filled_lives_def)
    then have "p' = p" if "pins (watch s) (2 ^ k) p'"
      using pins_unique [OF inv w _ that p(1)] by simp
    then show ?thesis using p(1) w unfolding watch_sending_def by blast
  qed
  have same: "thread_sending s' p' = thread_sending s p'" for p'
    by (simp add: s'_def thread_sending_def respond_def)
  have "answers_ok k s'"
  proof (rule answers_ok_send [OF inv p(2) _ _ _ log])
    show "answers_due k s' p' = answers_due k s p'" if "life s p' \<in> filled_lives" for p'
      using new by (simp add: answers_due_def same count old [OF that])
  qed (simp_all add: s'_def respond_def)
  then show ?thesis by (simp add: s'_def)
qed

lemma answers_ok_step:
  assumes inv: "conc_inv k s" and "conc_step s s'"
  shows "answers_ok k s'"
proof -
  note D = conc_invD [OF inv] and T = thread_okD [OF conc_invD(5) [OF inv]]
  note F = set_slot_field [where g = answer_state]
  have same: "answers_ok k (go t x (ring_q s) s)" if "\<not> sends (threads s t)" "\<not> sends x" for t x
    using that by (intro answers_ok_same [OF inv, of _ t x]) simp_all
  have cas: "answers_ok k (go t x q s)"
    if "cas_answer i (ring_q s) = (won, q)" "\<not> won" "\<not> sends (threads s t)" "\<not> sends x" for i won q t x
  proof -
    have "q = ring_q s" using that(1,2) by (auto simp: cas_answer_def split: if_splits)
    then show ?thesis using same that by simp
  qed
  show ?thesis
    using assms(2)
  proof cases
    case (enqueue t m pc spurious pc' q)
    then show ?thesis using answers_ok_enqueue [OF inv] by simp
  next
    case (fill t m i native fire_at)
    then show ?thesis using answers_ok_fill [OF inv] by simp
  next
    case (publish t i pc spurious pc' q)
    then show ?thesis using answers_ok_publish [OF inv] by simp
  next
    case (dequeue t pc spurious pc' q)
    then show ?thesis using answers_ok_dequeue [OF inv] by simp
  next
    case (disarm t i pc pc' q)
    then show ?thesis using answers_ok_disarm [OF inv] by simp
  next
    case (release t i pc pc' q)
    then show ?thesis using answers_ok_release [OF inv] by simp
  next
    case (occupy t m i)
    have "life s (pos s t) = Filled" using T(1) [of t] occupy by simp
    then show ?thesis unfolding occupy(1)
      by (intro answers_ok_quiet [OF inv, of _ t "Arming m i" "[]" "pos s t" Armed])
        (use occupy in \<open>simp_all add: F same_stage_def filled_lives_def\<close>)
  next
    case (producer_cas t i won q)
    then show ?thesis
      using answers_ok_win_thread [OF inv, of t i "ProducerSend i" q] cas [of i won q t]
      by (cases won) simp_all
  next
    case (holder_cas t i releasing won q)
    then show ?thesis
      using answers_ok_win_thread [OF inv, of t i "HolderSend i releasing" q] cas [of i won q t]
      by (cases won) simp_all
  next
    case (producer_send t i)
    then show ?thesis using answers_ok_send_thread [OF inv, of t i] by simp
  next
    case (holder_send t i releasing)
    then show ?thesis using answers_ok_send_thread [OF inv, of t i] by simp
  next
    case (watch_step i position pc pc' q)
    then show ?thesis using answers_ok_watch_step [OF inv] by simp
  next
    case (watch_send i position)
    then show ?thesis using answers_ok_watch_send [OF inv] by simp
  next
    case (watch_start i position)
    then show ?thesis by (intro answers_ok_watch [OF inv]) (simp_all add: watch_sending_def)
  next
    case (watch_end i position)
    then show ?thesis by (intro answers_ok_watch [OF inv]) (simp_all add: watch_sending_def)
  qed (use same in simp_all)
qed

end
