(* ===== verification/Protocol_Runs.thy ===== *)
theory Protocol_Runs
  imports Protocol_Answers
begin

text \<open>
  The invariant holds in every reachable state, and a concrete run of the system on a ring of two
  slots: one AUTH message is claimed, filled and armed, the watchdog answers it before it is
  published, and a consumer takes it, finds it answered and releases it.
\<close>

section \<open>The invariant holds\<close>

lemma conc_inv_init:
  assumes "esrb_queue_init allocated queue0 (2 ^ k) = (True, queue)" and "k \<le> 62"
  shows "conc_inv k (conc_init queue)"
proof -
  have r: "ring k 0 0 {} {} {} queue" using esrb_queue_init_ring [OF assms] .
  have u: "unat (2 ^ k :: size_t) = 2 ^ k" using assms(2) by (intro unat_pow2) simp
  have q: "queue = queue0\<lparr>capacity := 2 ^ k, queue_mask := 2 ^ k - 1, enqueue_position := 0,
      dequeue_position := 0, depth_max := 0, slots := map init_slot [0..<2 ^ k]\<rparr>"
    using assms(1) by (auto simp: esrb_queue_init_def u split: if_splits)
  have slot: "slot_at queue i = init_slot i" if "i < 2 ^ k" for i
    using that by (simp add: q slot_at_def)
  have "slots_ok k (conc_init queue)" "watch_ok k (conc_init queue)"
    using slot by (auto simp: slots_ok_def watch_ok_def conc_init_def filled_lives_def
        init_slot_def calloc_slot_def)
  moreover have "threads_ok k (conc_init queue)"
    by (auto simp: threads_ok_def thread_ok_def conc_init_def)
  moreover have "answers_ok k (conc_init queue)"
    by (auto simp: answers_ok_def conc_init_def filled_lives_def answer_count_def)
  moreover have "ring_ok k (conc_init queue)"
    using r by (simp add: ring_ok_def conc_init_def unmarked_of_def claimed_of_def
        released_of_def life_ok_def) (simp add: q)
  ultimately show ?thesis by (simp add: conc_inv_def) (simp add: conc_init_def)
qed

lemma claims_step:
  assumes "conc_step s s'"
  shows "\<exists>ms. claims s' = claims s @ ms"
  using assms
proof cases
  case (enqueue t m pc spurious pc' q)
  then show ?thesis by (cases "(t, m, pc, pc', s)" rule: note_enqueue.cases) auto
next
  case (publish t i pc spurious pc' q)
  then show ?thesis by (cases pc) auto
next
  case (dequeue t pc spurious pc' q)
  then show ?thesis by (cases "(t, pc, pc', s)" rule: note_dequeue.cases) auto
next
  case (disarm t i pc pc' q)
  then show ?thesis by (cases "(t, pc, pc', s)" rule: note_disarm.cases) auto
next
  case (release t i pc pc' q)
  then show ?thesis by (cases pc) auto
qed (simp_all add: respond_def)

lemma reachable_conc_inv:
  assumes "reachable queue s" and "esrb_queue_init allocated queue0 (2 ^ k) = (True, queue)" "k \<le> 62"
    and "length (claims s) \<le> 2 ^ 62"
  shows "conc_inv k s"
  using assms(1,4)
proof (induction)
  case init
  then show ?case by (simp add: conc_inv_init [OF assms(2,3)])
next
  case (step s s')
  then have "length (claims s) \<le> 2 ^ 62" using claims_step [of s s'] by auto
  then have inv: "conc_inv k s" using step.IH by simp
  show ?case unfolding conc_inv_def
    using step.prems step.hyps(2) inv ring_ok_step threads_ok_step slots_ok_step watch_ok_step
      answers_ok_step by blast
qed

text \<open>A run on a ring of capacity \<open>2 ^ k\<close>, of at most \<open>2 ^ 62\<close> claimed messages.\<close>

definition system_run :: "nat \<Rightarrow> conc \<Rightarrow> bool" where
  "system_run k s \<longleftrightarrow> k \<le> 62 \<and> length (claims s) \<le> 2 ^ 62 \<and>
     (\<exists>allocated queue0 queue. esrb_queue_init allocated queue0 (2 ^ k) = (True, queue) \<and>
        reachable queue s)"

lemma system_run_inv: "system_run k s \<Longrightarrow> conc_inv k s"
  unfolding system_run_def using reachable_conc_inv by blast

section \<open>A concrete run\<close>

definition demo_message :: es_message where
  "demo_message = \<lparr>msg_address = 4096, msg_version = 8, msg_event_type = 0,
     msg_action_type = ES_ACTION_TYPE_AUTH, msg_deadline = 1000, msg_mach_time = 100,
     msg_seq_num = 0, msg_global_seq_num = 0, msg_notify_result = ES_RESULT_TYPE_FLAGS 0,
     msg_time = (0, 0), msg_process = 8192, msg_thread = 0\<rparr>"

definition demo_queue :: esrb_queue where
  "demo_queue = \<lparr>capacity = 2, queue_mask = 1, slots = [init_slot 0, init_slot 1],
     enqueue_position = 0, dequeue_position = 0, depth_max = 0\<rparr>"

lemma demo_queue_init: "esrb_queue_init True demo_queue (2 ^ 1) = (True, demo_queue)"
  by (simp add: esrb_queue_init_def demo_queue_def upt_rec)

definition demo :: "esrb_queue \<Rightarrow> thread \<Rightarrow> watcher \<Rightarrow> es_message list \<Rightarrow> es_message option list \<Rightarrow>
    life \<Rightarrow> (nat \<times> es_message option) list \<Rightarrow> conc" where
  "demo q x w c tk l r = \<lparr>ring_q = q, threads = (\<lambda>_. Idle)(0 := x), watch = w, claims = c,
     taken = tk, pos = (\<lambda>_. 0), life = (\<lambda>_. Unborn)(0 := l), responses = r\<rparr>"

definition demo_ring :: "size_t \<Rightarrow> size_t \<Rightarrow> size_t \<Rightarrow> esrb_slot \<Rightarrow> esrb_queue" where
  "demo_ring e d m x = \<lparr>capacity = 2, queue_mask = 1, slots = [x, init_slot 1],
     enqueue_position = e, dequeue_position = d, depth_max = m\<rparr>"

lemma demo_step:
  "reachable queue s \<Longrightarrow> conc_step s s1 \<Longrightarrow> s1 = s' \<Longrightarrow> reachable queue s'"
  by (simp add: reachable.step)

text \<open>The slot of position 0 once it is filled.\<close>

definition demo_slot :: esrb_slot where
  "demo_slot = (init_slot 0)\<lparr>slot_message := Some demo_message, slot_client := Some 7,
     slot_fire_at := 900, answer_state := ESRB_ANSWER_PENDING\<rparr>"

lemmas demo_simps = demo_def demo_ring_def slot_at_def set_slot_def slot_of_def fun_eq_iff
  intptr_difference_def init_slot_def calloc_slot_def demo_message_def is_auth_def respond_def
  fill_slot_def cas_answer_def demo_slot_def

definition armed_state :: conc where
  "armed_state =
     demo (demo_ring 1 0 0 (demo_slot\<lparr>occupied := True\<rparr>))
       (Publishing 0 Pub_Dequeued) Waiting [demo_message] [] Armed []"

lemma demo_armed: "reachable demo_queue armed_state"
  unfolding armed_state_def
proof -
  have "reachable demo_queue (demo (demo_ring 0 0 0 (init_slot 0))
       Idle Waiting [] [] Unborn [])"
    using reachable.init [of demo_queue]
    by (simp add: conc_init_def demo_def demo_ring_def demo_queue_def fun_upd_idem)
  then have "reachable demo_queue (demo (demo_ring 0 0 0 (init_slot 0))
       (Enqueueing demo_message Enq_Load) Waiting [] [] Unborn [])"
    by (rule demo_step [OF _ conc_step.callback [of _ 0 demo_message]], (simp add: demo_simps)+)
  then have "reachable demo_queue (demo (demo_ring 0 0 0 (init_slot 0))
       (Enqueueing demo_message (Enq_Check 0)) Waiting [] [] Unborn [])"
    by (rule demo_step [OF _ conc_step.enqueue [of _ 0 _ _ False]], (simp add: demo_simps)+)
  then have "reachable demo_queue (demo (demo_ring 0 0 0 (init_slot 0))
       (Enqueueing demo_message (Enq_Cas 0)) Waiting [] [] Unborn [])"
    by (rule demo_step [OF _ conc_step.enqueue [of _ 0 _ _ False]], (simp add: demo_simps)+)
  then have "reachable demo_queue (demo (demo_ring 1 0 0 (init_slot 0))
       (Enqueueing demo_message (Enq_Mark 0)) Waiting [demo_message] [] Claimed [])"
    by (rule demo_step [OF _ conc_step.enqueue [of _ 0 _ _ False]], (simp add: demo_simps)+)
  then have "reachable demo_queue (demo (demo_ring 1 0 0 (init_slot 0))
       (Enqueueing demo_message (Enq_Return (Some 0))) Waiting [demo_message] [] Marked [])"
    by (rule demo_step [OF _ conc_step.enqueue [of _ 0 _ _ False]], (simp add: demo_simps)+)
  then have "reachable demo_queue (demo (demo_ring 1 0 0 (init_slot 0))
       (Filling demo_message 0) Waiting [demo_message] [] Marked [])"
    by (rule demo_step [OF _ conc_step.claimed [of _ 0]], (simp add: demo_simps)+)
  then have "reachable demo_queue (demo (demo_ring 1 0 0 demo_slot)
       (Occupying demo_message 0) Waiting [demo_message] [] Filled [])"
    by (rule demo_step [OF _ conc_step.fill [of _ 0 _ _ "Some 7" 900]], (simp add: demo_simps)+)
  then have "reachable demo_queue (demo (demo_ring 1 0 0 (demo_slot\<lparr>occupied := True\<rparr>))
       (Arming demo_message 0) Waiting [demo_message] [] Armed [])"
    by (rule demo_step [OF _ conc_step.occupy [of _ 0]], (simp add: demo_simps)+)
  then show "reachable demo_queue (demo (demo_ring 1 0 0 (demo_slot\<lparr>occupied := True\<rparr>))
       (Publishing 0 Pub_Dequeued) Waiting [demo_message] [] Armed [])"
    by (rule demo_step [OF _ conc_step.armed [of _ 0]], (simp add: demo_simps)+)
qed

definition due_state :: conc where
  "due_state =
     demo (demo_ring 1 0 0 (demo_slot\<lparr>occupied := True, readers := 1, answer_state := ESRB_ANSWER_ANSWERED\<rparr>))
       (Publishing 0 Pub_Dequeued) (Answering 0 0 Due_Send) [demo_message] [] Armed []"

lemma demo_due: "reachable demo_queue due_state"
  unfolding due_state_def
proof -
  note demo_armed [unfolded armed_state_def]
  then have "reachable demo_queue (demo (demo_ring 1 0 0 (demo_slot\<lparr>occupied := True\<rparr>))
       (Publishing 0 Pub_Dequeued) (Answering 0 0 Due_Check) [demo_message] [] Armed [])"
    by (rule demo_step [OF _ conc_step.watch_start [of _ 0 0]], (simp add: demo_simps)+)
  then have "reachable demo_queue (demo (demo_ring 1 0 0 (demo_slot\<lparr>occupied := True\<rparr>))
       (Publishing 0 Pub_Dequeued) (Answering 0 0 Due_Enter) [demo_message] [] Armed [])"
    by (rule demo_step [OF _ conc_step.watch_step], (simp add: demo_simps)+)
  then have "reachable demo_queue (demo (demo_ring 1 0 0 (demo_slot\<lparr>occupied := True, readers := 1\<rparr>))
       (Publishing 0 Pub_Dequeued) (Answering 0 0 Due_Recheck) [demo_message] [] Armed [])"
    by (rule demo_step [OF _ conc_step.watch_step], (simp add: demo_simps)+)
  then have "reachable demo_queue (demo (demo_ring 1 0 0 (demo_slot\<lparr>occupied := True, readers := 1\<rparr>))
       (Publishing 0 Pub_Dequeued) (Answering 0 0 Due_Position) [demo_message] [] Armed [])"
    by (rule demo_step [OF _ conc_step.watch_step], (simp add: demo_simps)+)
  then have "reachable demo_queue (demo (demo_ring 1 0 0 (demo_slot\<lparr>occupied := True, readers := 1\<rparr>))
       (Publishing 0 Pub_Dequeued) (Answering 0 0 Due_Cas) [demo_message] [] Armed [])"
    by (rule demo_step [OF _ conc_step.watch_step], (simp add: demo_simps)+)
  then show "reachable demo_queue (demo (demo_ring 1 0 0 (demo_slot\<lparr>occupied := True, readers := 1, answer_state := ESRB_ANSWER_ANSWERED\<rparr>))
       (Publishing 0 Pub_Dequeued) (Answering 0 0 Due_Send) [demo_message] [] Armed [])"
    by (rule demo_step [OF _ conc_step.watch_step], (simp add: demo_simps)+)
qed

definition held_state :: conc where
  "held_state =
     demo (demo_ring 1 1 1 (demo_slot\<lparr>occupied := True, answer_state := ESRB_ANSWER_ANSWERED, sequence := 1\<rparr>))
       (Holding 0) Waiting [demo_message] [Some demo_message] Held [(0, Some demo_message)]"

lemma demo_held: "reachable demo_queue held_state"
  unfolding held_state_def
proof -
  note demo_due [unfolded due_state_def]
  then have "reachable demo_queue (demo (demo_ring 1 0 0 (demo_slot\<lparr>occupied := True, readers := 1, answer_state := ESRB_ANSWER_ANSWERED\<rparr>))
       (Publishing 0 Pub_Dequeued) (Answering 0 0 Due_Leave) [demo_message] [] Armed [(0, Some demo_message)])"
    by (rule demo_step [OF _ conc_step.watch_send], (simp add: demo_simps)+)
  then have "reachable demo_queue (demo (demo_ring 1 0 0 (demo_slot\<lparr>occupied := True, answer_state := ESRB_ANSWER_ANSWERED\<rparr>))
       (Publishing 0 Pub_Dequeued) (Answering 0 0 Due_Return) [demo_message] [] Armed [(0, Some demo_message)])"
    by (rule demo_step [OF _ conc_step.watch_step], (simp add: demo_simps)+)
  then have "reachable demo_queue (demo (demo_ring 1 0 0 (demo_slot\<lparr>occupied := True, answer_state := ESRB_ANSWER_ANSWERED\<rparr>))
       (Publishing 0 Pub_Dequeued) Waiting [demo_message] [] Armed [(0, Some demo_message)])"
    by (rule demo_step [OF _ conc_step.watch_end], (simp add: demo_simps)+)
  then have "reachable demo_queue (demo (demo_ring 1 0 0 (demo_slot\<lparr>occupied := True, answer_state := ESRB_ANSWER_ANSWERED\<rparr>))
       (Publishing 0 (Pub_Maximum 1)) Waiting [demo_message] [] Armed [(0, Some demo_message)])"
    by (rule demo_step [OF _ conc_step.publish [of _ 0 _ _ False]], (simp add: demo_simps)+)
  then have "reachable demo_queue (demo (demo_ring 1 0 0 (demo_slot\<lparr>occupied := True, answer_state := ESRB_ANSWER_ANSWERED\<rparr>))
       (Publishing 0 (Pub_Cas 1 0)) Waiting [demo_message] [] Armed [(0, Some demo_message)])"
    by (rule demo_step [OF _ conc_step.publish [of _ 0 _ _ False]], (simp add: demo_simps)+)
  then have "reachable demo_queue (demo (demo_ring 1 0 1 (demo_slot\<lparr>occupied := True, answer_state := ESRB_ANSWER_ANSWERED\<rparr>))
       (Publishing 0 Pub_Store) Waiting [demo_message] [] Armed [(0, Some demo_message)])"
    by (rule demo_step [OF _ conc_step.publish [of _ 0 _ _ False]], (simp add: demo_simps)+)
  then have "reachable demo_queue (demo (demo_ring 1 0 1 (demo_slot\<lparr>occupied := True, answer_state := ESRB_ANSWER_ANSWERED, sequence := 1\<rparr>))
       (Publishing 0 Pub_Return) Waiting [demo_message] [] Published [(0, Some demo_message)])"
    by (rule demo_step [OF _ conc_step.publish [of _ 0 _ _ False]], (simp add: demo_simps)+)
  then have "reachable demo_queue (demo (demo_ring 1 0 1 (demo_slot\<lparr>occupied := True, answer_state := ESRB_ANSWER_ANSWERED, sequence := 1\<rparr>))
       Idle Waiting [demo_message] [] Published [(0, Some demo_message)])"
    by (rule demo_step [OF _ conc_step.published [of _ 0]], (simp add: demo_simps)+)
  then have "reachable demo_queue (demo (demo_ring 1 0 1 (demo_slot\<lparr>occupied := True, answer_state := ESRB_ANSWER_ANSWERED, sequence := 1\<rparr>))
       (Dequeueing Deq_Load) Waiting [demo_message] [] Published [(0, Some demo_message)])"
    by (rule demo_step [OF _ conc_step.drain [of _ 0]], (simp add: demo_simps)+)
  then have "reachable demo_queue (demo (demo_ring 1 0 1 (demo_slot\<lparr>occupied := True, answer_state := ESRB_ANSWER_ANSWERED, sequence := 1\<rparr>))
       (Dequeueing (Deq_Check 0)) Waiting [demo_message] [] Published [(0, Some demo_message)])"
    by (rule demo_step [OF _ conc_step.dequeue [of _ 0 _ False]], (simp add: demo_simps)+)
  then have "reachable demo_queue (demo (demo_ring 1 0 1 (demo_slot\<lparr>occupied := True, answer_state := ESRB_ANSWER_ANSWERED, sequence := 1\<rparr>))
       (Dequeueing (Deq_Cas 0)) Waiting [demo_message] [] Published [(0, Some demo_message)])"
    by (rule demo_step [OF _ conc_step.dequeue [of _ 0 _ False]], (simp add: demo_simps)+)
  then have "reachable demo_queue (demo (demo_ring 1 1 1 (demo_slot\<lparr>occupied := True, answer_state := ESRB_ANSWER_ANSWERED, sequence := 1\<rparr>))
       (Dequeueing (Deq_Return (Some 0))) Waiting [demo_message] [Some demo_message] Held [(0, Some demo_message)])"
    by (rule demo_step [OF _ conc_step.dequeue [of _ 0 _ False]], (simp add: demo_simps)+)
  then show "reachable demo_queue (demo (demo_ring 1 1 1 (demo_slot\<lparr>occupied := True, answer_state := ESRB_ANSWER_ANSWERED, sequence := 1\<rparr>))
       (Holding 0) Waiting [demo_message] [Some demo_message] Held [(0, Some demo_message)])"
    by (rule demo_step [OF _ conc_step.wrapped [of _ 0]], (simp add: demo_simps)+)
qed

definition released_state :: conc where
  "released_state =
     demo (demo_ring 1 1 1 (demo_slot\<lparr>answer_state := ESRB_ANSWER_ANSWERED, sequence := 2\<rparr>))
       Idle Waiting [demo_message] [Some demo_message] Released [(0, Some demo_message)]"

lemma demo_released: "reachable demo_queue released_state"
  unfolding released_state_def
proof -
  note demo_held [unfolded held_state_def]
  then have "reachable demo_queue (demo (demo_ring 1 1 1 (demo_slot\<lparr>occupied := True, answer_state := ESRB_ANSWER_ANSWERED, sequence := 1\<rparr>))
       (HolderCas 0 True) Waiting [demo_message] [Some demo_message] Held [(0, Some demo_message)])"
    by (rule demo_step [OF _ conc_step.answer [of _ 0 _ True]], (simp add: demo_simps)+)
  then have "reachable demo_queue (demo (demo_ring 1 1 1 (demo_slot\<lparr>occupied := True, answer_state := ESRB_ANSWER_ANSWERED, sequence := 1\<rparr>))
       (Disarming 0 Rel_Clear) Waiting [demo_message] [Some demo_message] Held [(0, Some demo_message)])"
    by (rule demo_step [OF _ conc_step.holder_cas [of _ 0 0 True False]], (simp add: demo_simps)+)
  then have "reachable demo_queue (demo (demo_ring 1 1 1 (demo_slot\<lparr>answer_state := ESRB_ANSWER_ANSWERED, sequence := 1\<rparr>))
       (Disarming 0 Rel_Wait) Waiting [demo_message] [Some demo_message] Cleared [(0, Some demo_message)])"
    by (rule demo_step [OF _ conc_step.disarm [of _ 0]], (simp add: demo_simps)+)
  then have "reachable demo_queue (demo (demo_ring 1 1 1 (demo_slot\<lparr>answer_state := ESRB_ANSWER_ANSWERED, sequence := 1\<rparr>))
       (Disarming 0 Rel_Free) Waiting [demo_message] [Some demo_message] Quiet [(0, Some demo_message)])"
    by (rule demo_step [OF _ conc_step.disarm [of _ 0]], (simp add: demo_simps)+)
  then have "reachable demo_queue (demo (demo_ring 1 1 1 (demo_slot\<lparr>answer_state := ESRB_ANSWER_ANSWERED, sequence := 1\<rparr>))
       (Releasing 0 Rel_Clear) Waiting [demo_message] [Some demo_message] Quiet [(0, Some demo_message)])"
    by (rule demo_step [OF _ conc_step.disarmed [of _ 0]], (simp add: demo_simps)+)
  then have "reachable demo_queue (demo (demo_ring 1 1 1 (demo_slot\<lparr>answer_state := ESRB_ANSWER_ANSWERED, sequence := 1\<rparr>))
       (Releasing 0 Rel_Wait) Waiting [demo_message] [Some demo_message] Quiet [(0, Some demo_message)])"
    by (rule demo_step [OF _ conc_step.release [of _ 0]], (simp add: demo_simps)+)
  then have "reachable demo_queue (demo (demo_ring 1 1 1 (demo_slot\<lparr>answer_state := ESRB_ANSWER_ANSWERED, sequence := 1\<rparr>))
       (Releasing 0 Rel_Free) Waiting [demo_message] [Some demo_message] Quiet [(0, Some demo_message)])"
    by (rule demo_step [OF _ conc_step.release [of _ 0]], (simp add: demo_simps)+)
  then have "reachable demo_queue (demo (demo_ring 1 1 1 (demo_slot\<lparr>answer_state := ESRB_ANSWER_ANSWERED, sequence := 2\<rparr>))
       (Releasing 0 Rel_Return) Waiting [demo_message] [Some demo_message] Released [(0, Some demo_message)])"
    by (rule demo_step [OF _ conc_step.release [of _ 0]], (simp add: demo_simps)+)
  then show "reachable demo_queue (demo (demo_ring 1 1 1 (demo_slot\<lparr>answer_state := ESRB_ANSWER_ANSWERED, sequence := 2\<rparr>))
       Idle Waiting [demo_message] [Some demo_message] Released [(0, Some demo_message)])"
    by (rule demo_step [OF _ conc_step.released [of _ 0]], (simp add: demo_simps)+)
qed

text \<open>
  From the same point, the watchdog may have seen the slot occupied before the holder clears it, and
  enter it after the holder has passed its wait.
\<close>

definition quiet_state :: conc where
  "quiet_state =
     demo (demo_ring 1 1 1 (demo_slot\<lparr>answer_state := ESRB_ANSWER_ANSWERED, sequence := 1, readers := 1\<rparr>))
       (Disarming 0 Rel_Free) (Answering 0 0 Due_Recheck) [demo_message] [Some demo_message] Quiet [(0, Some demo_message)]"

lemma demo_quiet: "reachable demo_queue quiet_state"
  unfolding quiet_state_def
proof -
  note demo_held [unfolded held_state_def]
  then have "reachable demo_queue (demo (demo_ring 1 1 1 (demo_slot\<lparr>occupied := True, answer_state := ESRB_ANSWER_ANSWERED, sequence := 1\<rparr>))
       (Holding 0) (Answering 0 0 Due_Check) [demo_message] [Some demo_message] Held [(0, Some demo_message)])"
    by (rule demo_step [OF _ conc_step.watch_start [of _ 0 0]], (simp add: demo_simps)+)
  then have "reachable demo_queue (demo (demo_ring 1 1 1 (demo_slot\<lparr>occupied := True, answer_state := ESRB_ANSWER_ANSWERED, sequence := 1\<rparr>))
       (Holding 0) (Answering 0 0 Due_Enter) [demo_message] [Some demo_message] Held [(0, Some demo_message)])"
    by (rule demo_step [OF _ conc_step.watch_step], (simp add: demo_simps)+)
  then have "reachable demo_queue (demo (demo_ring 1 1 1 (demo_slot\<lparr>occupied := True, answer_state := ESRB_ANSWER_ANSWERED, sequence := 1\<rparr>))
       (HolderCas 0 True) (Answering 0 0 Due_Enter) [demo_message] [Some demo_message] Held [(0, Some demo_message)])"
    by (rule demo_step [OF _ conc_step.answer [of _ 0 _ True]], (simp add: demo_simps)+)
  then have "reachable demo_queue (demo (demo_ring 1 1 1 (demo_slot\<lparr>occupied := True, answer_state := ESRB_ANSWER_ANSWERED, sequence := 1\<rparr>))
       (Disarming 0 Rel_Clear) (Answering 0 0 Due_Enter) [demo_message] [Some demo_message] Held [(0, Some demo_message)])"
    by (rule demo_step [OF _ conc_step.holder_cas [of _ 0 0 True False]], (simp add: demo_simps)+)
  then have "reachable demo_queue (demo (demo_ring 1 1 1 (demo_slot\<lparr>answer_state := ESRB_ANSWER_ANSWERED, sequence := 1\<rparr>))
       (Disarming 0 Rel_Wait) (Answering 0 0 Due_Enter) [demo_message] [Some demo_message] Cleared [(0, Some demo_message)])"
    by (rule demo_step [OF _ conc_step.disarm [of _ 0]], (simp add: demo_simps)+)
  then have "reachable demo_queue (demo (demo_ring 1 1 1 (demo_slot\<lparr>answer_state := ESRB_ANSWER_ANSWERED, sequence := 1\<rparr>))
       (Disarming 0 Rel_Free) (Answering 0 0 Due_Enter) [demo_message] [Some demo_message] Quiet [(0, Some demo_message)])"
    by (rule demo_step [OF _ conc_step.disarm [of _ 0]], (simp add: demo_simps)+)
  then show "reachable demo_queue (demo (demo_ring 1 1 1 (demo_slot\<lparr>answer_state := ESRB_ANSWER_ANSWERED, sequence := 1, readers := 1\<rparr>))
       (Disarming 0 Rel_Free) (Answering 0 0 Due_Recheck) [demo_message] [Some demo_message] Quiet [(0, Some demo_message)])"
    by (rule demo_step [OF _ conc_step.watch_step], (simp add: demo_simps)+)
qed

text \<open>
  With position 0 still in the hands of its producer, a second callback claims position 1 and a third
  one finds the ring full.
\<close>

definition crowd :: "size_t \<Rightarrow> thread \<Rightarrow> thread \<Rightarrow> es_message list \<Rightarrow> nat \<Rightarrow> life \<Rightarrow> conc" where
  "crowd e x1 x2 c n l = \<lparr>ring_q = demo_ring e 0 0 (demo_slot\<lparr>occupied := True\<rparr>),
     threads = (\<lambda>_. Idle)(0 := Publishing 0 Pub_Dequeued, 1 := x1, 2 := x2), watch = Waiting,
     claims = c, taken = [], pos = (\<lambda>_. 0)(1 := n), life = (\<lambda>_. Unborn)(0 := Armed, 1 := l),
     responses = []\<rparr>"

definition full_state :: conc where
  "full_state =
     crowd 2 (Enqueueing demo_message (Enq_Mark 1)) (Enqueueing demo_message (Enq_Check 2))
       [demo_message, demo_message] 1 Claimed"

lemma demo_full: "reachable demo_queue full_state"
  unfolding full_state_def
proof -
  note demo_armed [unfolded armed_state_def]
  moreover have "demo (demo_ring 1 0 0 (demo_slot\<lparr>occupied := True\<rparr>)) (Publishing 0 Pub_Dequeued)
      Waiting [demo_message] [] Armed [] = crowd 1 Idle Idle [demo_message] 0 Unborn"
    by (simp add: demo_def crowd_def fun_eq_iff)
  ultimately have "reachable demo_queue (crowd 1 Idle Idle [demo_message] 0 Unborn)" by simp
  then have "reachable demo_queue (crowd 1 (Enqueueing demo_message Enq_Load) Idle
       [demo_message] 0 Unborn)"
    by (rule demo_step [OF _ conc_step.callback [of _ 1 demo_message]], (simp add: demo_simps crowd_def)+)
  then have "reachable demo_queue (crowd 1 (Enqueueing demo_message (Enq_Check 1)) Idle
       [demo_message] 0 Unborn)"
    by (rule demo_step [OF _ conc_step.enqueue [of _ 1 _ _ False]], (simp add: demo_simps crowd_def)+)
  then have "reachable demo_queue (crowd 1 (Enqueueing demo_message (Enq_Cas 1)) Idle
       [demo_message] 0 Unborn)"
    by (rule demo_step [OF _ conc_step.enqueue [of _ 1 _ _ False]], (simp add: demo_simps crowd_def)+)
  then have "reachable demo_queue (crowd 2 (Enqueueing demo_message (Enq_Mark 1)) Idle
       [demo_message, demo_message] 1 Claimed)"
    by (rule demo_step [OF _ conc_step.enqueue [of _ 1 _ _ False]], (simp add: demo_simps crowd_def)+)
  then have "reachable demo_queue (crowd 2 (Enqueueing demo_message (Enq_Mark 1)) (Enqueueing demo_message Enq_Load)
       [demo_message, demo_message] 1 Claimed)"
    by (rule demo_step [OF _ conc_step.callback [of _ 2 demo_message]], (simp add: demo_simps crowd_def)+)
  then show "reachable demo_queue (crowd 2 (Enqueueing demo_message (Enq_Mark 1)) (Enqueueing demo_message (Enq_Check 2))
       [demo_message, demo_message] 1 Claimed)"
    by (rule demo_step [OF _ conc_step.enqueue [of _ 2 _ _ False]], (simp add: demo_simps crowd_def)+)
qed

lemma demo_fields [simp]:
  "ring_q (demo q x w c tk l r) = q" "threads (demo q x w c tk l r) = (\<lambda>_. Idle)(0 := x)"
  "watch (demo q x w c tk l r) = w" "claims (demo q x w c tk l r) = c"
  "taken (demo q x w c tk l r) = tk" "pos (demo q x w c tk l r) = (\<lambda>_. 0)"
  "life (demo q x w c tk l r) = (\<lambda>_. Unborn)(0 := l)" "responses (demo q x w c tk l r) = r"
  by (simp_all add: demo_def)

lemma demo_runs:
  "system_run 1 armed_state" "system_run 1 due_state" "system_run 1 held_state"
  "system_run 1 released_state" "system_run 1 quiet_state" "system_run 1 full_state"
  using demo_queue_init demo_armed demo_due demo_held demo_released demo_quiet demo_full
  unfolding system_run_def
  by (auto simp: armed_state_def due_state_def held_state_def released_state_def quiet_state_def
      full_state_def crowd_def)

end
