(* ===== verification/Interfaces.thy ===== *)
theory Interfaces
  imports Es_Prelude
begin

text \<open>
  The interfaces between the components, as locales, and the two loop shapes of the code that
  run over them: \<open>while ((x = get()) != NULL) use(x)\<close> and \<open>for (n times) { x = get(); if (!x) break;
  y = use(x); }\<close>. An operation that need not return (it may spin) has an \<open>option\<close> result, \<open>None\<close>
  for not returning.
\<close>

section \<open>Loops over a source\<close>

partial_function (option) while_get ::
    "('s \<Rightarrow> ('a option \<times> 's) option) \<Rightarrow> ('a \<Rightarrow> 's \<Rightarrow> 's option) \<Rightarrow> 's \<Rightarrow> 's option" where
  "while_get get use s =
     Option.bind (get s) (\<lambda>r.
       case fst r of
         None \<Rightarrow> Some (snd r)
       | Some x \<Rightarrow> Option.bind (use x (snd r)) (\<lambda>t. while_get get use t))"

primrec for_get ::
    "('s \<Rightarrow> ('a option \<times> 's) option) \<Rightarrow> ('a \<Rightarrow> 's \<Rightarrow> ('b \<times> 's) option) \<Rightarrow> nat \<Rightarrow> 's \<Rightarrow>
      ('b list \<times> 's) option" where
  "for_get get use 0 s = Some ([], s)"
| "for_get get use (Suc n) s =
     Option.bind (get s) (\<lambda>r.
       case fst r of
         None \<Rightarrow> Some ([], snd r)
       | Some x \<Rightarrow> Option.bind (use x (snd r)) (\<lambda>t.
           Option.bind (for_get get use n (snd t)) (\<lambda>u. Some (fst t # fst u, snd u))))"

section \<open>Sources and channels\<close>

text \<open>A source hands out its contents in order, and always returns.\<close>

locale source =
  fixes get :: "'s \<Rightarrow> ('a option \<times> 's) option"
    and valid :: "'s \<Rightarrow> bool"
    and contents :: "'s \<Rightarrow> 'a list"
  assumes get_empty: "valid s \<Longrightarrow> contents s = [] \<Longrightarrow> get s = Some (None, s)"
    and get_cons: "valid s \<Longrightarrow> contents s = x # xs \<Longrightarrow>
      \<exists>s'. get s = Some (Some x, s') \<and> valid s' \<and> contents s' = xs"
begin

lemma get_returns:
  assumes "valid s"
  shows "\<exists>r s'. get s = Some (r, s') \<and> valid s'"
  using assms get_empty get_cons by (cases "contents s") blast+

lemma get_Some_iff:
  assumes "valid s" and "get s = Some (r, s')"
  shows "r = (case contents s of [] \<Rightarrow> None | x # xs \<Rightarrow> Some x)" and "contents s' = tl (contents s)"
    and "valid s'"
proof -
  consider "contents s = []" | x xs where "contents s = x # xs" by (cases "contents s") auto
  then have "r = (case contents s of [] \<Rightarrow> None | x # xs \<Rightarrow> Some x) \<and>
      contents s' = tl (contents s) \<and> valid s'"
  proof cases
    case 1
    then show ?thesis using get_empty [OF assms(1)] assms by simp
  next
    case 2
    then show ?thesis using get_cons [OF assms(1) 2] assms(2) by auto
  qed
  then show "r = (case contents s of [] \<Rightarrow> None | x # xs \<Rightarrow> Some x)"
    "contents s' = tl (contents s)" "valid s'" by auto
qed

end

text \<open>A channel is a source with a bounded, non-blocking put at the other end.\<close>

locale channel = source get valid contents
  for get :: "'s \<Rightarrow> ('a option \<times> 's) option" and valid and contents +
  fixes put :: "'a \<Rightarrow> 's \<Rightarrow> (bool \<times> 's) option"
    and limit :: "'s \<Rightarrow> nat"
  assumes put_room: "valid s \<Longrightarrow> length (contents s) < limit s \<Longrightarrow>
      \<exists>s'. put x s = Some (True, s') \<and> valid s' \<and> contents s' = contents s @ [x] \<and> limit s' = limit s"
    and put_full: "valid s \<Longrightarrow> limit s \<le> length (contents s) \<Longrightarrow> put x s = Some (False, s)"
    and get_limit: "valid s \<Longrightarrow> get s = Some (r, s') \<Longrightarrow> limit s' = limit s"
begin

text \<open>Putting a list stores the prefix that fits, in order.\<close>

lemma put_get_fifo:
  assumes "valid s" and "contents s = []" and "0 < limit s"
  shows "\<exists>s' s''. put x s = Some (True, s') \<and> get s' = Some (Some x, s'') \<and> contents s'' = []"
proof -
  obtain s' where s': "put x s = Some (True, s')" "valid s'" "contents s' = [x]"
    using put_room [OF assms(1)] assms(2,3) by fastforce
  then show ?thesis using get_cons [of s' x "[]"] by blast
qed

lemma put_never_overfills:
  assumes "valid s" and "length (contents s) \<le> limit s" and "put x s = Some (ok, s')"
  shows "length (contents s') \<le> limit s' \<and> valid s'"
proof (cases "length (contents s) < limit s")
  case True
  then show ?thesis using put_room [OF assms(1), of x] assms(3) by fastforce
next
  case False
  then show ?thesis using put_full [OF assms(1), of x] assms by simp
qed

end

text \<open>
  A consumer of a source: \<open>use\<close> returns, keeps the source as it is, and acts on a view of the state
  as \<open>act\<close> does. Then both loops return, and their effect on the view is a fold over the contents.
\<close>

locale source_consumer = source get valid contents
  for get :: "'s \<Rightarrow> ('a option \<times> 's) option" and valid and contents +
  fixes use :: "'a \<Rightarrow> 's \<Rightarrow> ('b \<times> 's) option"
    and view :: "'s \<Rightarrow> 'v"
    and act :: "'a \<Rightarrow> 'v \<Rightarrow> 'v"
    and yield :: "'a \<Rightarrow> 'b"
  assumes use_returns: "valid s \<Longrightarrow> contents s = x # xs \<Longrightarrow> get s = Some (Some x, s') \<Longrightarrow>
      \<exists>s''. use x s' = Some (yield x, s'') \<and> valid s'' \<and> contents s'' = contents s' \<and>
        view s'' = act x (view s)"
    and get_view: "valid s \<Longrightarrow> contents s = [] \<Longrightarrow> get s = Some (None, s') \<Longrightarrow> view s' = view s"
begin

lemma while_get_drains:
  assumes "valid s"
  shows "\<exists>s'. while_get get (\<lambda>x t. map_option snd (use x t)) s = Some s' \<and> valid s' \<and>
    contents s' = [] \<and> view s' = fold act (contents s) (view s)"
  using assms
proof (induction "contents s" arbitrary: s)
  case Nil
  then show ?case using get_empty by (subst while_get.simps) simp
next
  case (Cons x xs)
  obtain s1 where s1: "get s = Some (Some x, s1)" "valid s1" "contents s1 = xs"
    using get_cons [of s x xs] Cons by metis
  obtain s2 where s2: "use x s1 = Some (yield x, s2)" "valid s2" "contents s2 = xs"
      "view s2 = act x (view s)"
    using use_returns [OF Cons.prems Cons.hyps(2) [symmetric] s1(1)] s1(3) by auto
  show ?case
    using Cons.hyps(1) [of s2] s1 s2
    by (subst while_get.simps) (simp flip: Cons.hyps(2))
qed

lemma for_get_takes:
  assumes "valid s"
  shows "\<exists>s'. for_get get use n s = Some (map yield (take n (contents s)), s') \<and> valid s' \<and>
    contents s' = drop n (contents s) \<and> view s' = fold act (take n (contents s)) (view s)"
  using assms
proof (induction n arbitrary: s)
  case 0
  then show ?case by simp
next
  case (Suc n)
  show ?case
  proof (cases "contents s")
    case Nil
    then show ?thesis using get_empty Suc.prems by simp
  next
    case (Cons x xs)
    obtain s1 where s1: "get s = Some (Some x, s1)" "contents s1 = xs"
      using get_cons [OF Suc.prems Cons] by blast
    obtain s2 where s2: "use x s1 = Some (yield x, s2)" "valid s2" "contents s2 = xs"
        "view s2 = act x (view s)"
      using use_returns [OF Suc.prems Cons s1(1)] s1(2) by auto
    show ?thesis using Suc.IH [OF s2(2)] s1 s2 Cons by auto
  qed
qed

end

section \<open>Agendas\<close>

text \<open>An agenda holds items with a due key; \<open>top\<close> is one of least key and \<open>pop\<close> takes it off.\<close>

locale agenda =
  fixes valid :: "'s \<Rightarrow> bool"
    and items :: "'s \<Rightarrow> 'e set"
    and key :: "'e \<Rightarrow> 'k::linorder"
    and top :: "'s \<Rightarrow> 'e option"
    and pop :: "'s \<Rightarrow> 's"
  assumes top_none: "valid s \<Longrightarrow> top s = None \<longleftrightarrow> items s = {}"
    and top_least: "valid s \<Longrightarrow> top s = Some e \<Longrightarrow> e \<in> items s \<and> (\<forall>x \<in> items s. key e \<le> key x)"
    and pop_items: "valid s \<Longrightarrow> top s = Some e \<Longrightarrow> valid (pop s) \<and> items (pop s) = items s - {e}"
begin

lemma none_due:
  assumes "valid s" and "\<And>e. top s = Some e \<Longrightarrow> now < key e"
  shows "\<forall>x \<in> items s. now < key x"
proof (cases "top s")
  case None
  then show ?thesis using top_none [OF assms(1)] by simp
next
  case (Some e)
  then show ?thesis using top_least [OF assms(1) Some] assms(2) by (meson less_le_trans)
qed

lemma pop_later:
  assumes "valid s" and "top s = Some e" and "x \<in> items (pop s)"
  shows "x \<in> items s \<and> x \<noteq> e \<and> key e \<le> key x"
  using assms(3) pop_items [OF assms(1,2)] top_least [OF assms(1,2)] by auto

end

end
