(* ===== verification/Queue_Seq.thy ===== *)
theory Queue_Seq
  imports Ring_Invariant Interfaces
begin

text \<open>
  The functions of queue.c called with no interference: for each, that it returns, what it returns
  and the ring it leaves. The contents of a ring, in the order the consumer will see them, is the
  list \<open>pending_slots\<close>; with \<open>esrb_queue_dequeue\<close> it is a source in the sense of \<open>Interfaces\<close>.
\<close>

section \<open>Enqueue\<close>

definition claimed_slot :: "nat \<Rightarrow> nat \<Rightarrow> esrb_queue \<Rightarrow> esrb_queue" where
  "claimed_slot k e queue =
     set_slot (e mod 2 ^ k) (\<lambda>s. s\<lparr>slot_position := of_nat e\<rparr>)
       (queue\<lparr>enqueue_position := of_nat e + 1\<rparr>)"

lemma enqueue_claims:
  assumes r: "ring k e d {} C R queue" and c: "can_claim k e R"
  shows "esrb_queue_enqueue queue = Some (Some (e mod 2 ^ k), claimed_slot k e queue)"
proof -
  note D = ringD [OF r] and s = slot_of_ring [OF r]
  have "enqueue_step False Enq_Load queue = (Enq_Check (of_nat e), queue)"
    by (simp add: D(6))
  moreover have "enqueue_step False (Enq_Check (of_nat e)) queue = (Enq_Cas (of_nat e), queue)"
    using check_claim_difference [OF r] c by simp
  moreover have "enqueue_step False (Enq_Cas (of_nat e)) queue =
      (Enq_Mark (of_nat e), queue\<lparr>enqueue_position := of_nat e + 1\<rparr>)"
    by (simp add: D(6))
  moreover have "enqueue_step False (Enq_Mark (of_nat e)) (queue\<lparr>enqueue_position := of_nat e + 1\<rparr>) =
      (Enq_Return (Some (e mod 2 ^ k)), claimed_slot k e queue)"
    by (simp add: s claimed_slot_def)
  ultimately show ?thesis
    unfolding esrb_queue_enqueue_def by (simp add: run_steps_step run_steps_done del: enqueue_step.simps)
qed

lemma enqueue_full:
  assumes r: "ring k e d {} C R queue" and c: "\<not> can_claim k e R"
  shows "esrb_queue_enqueue queue = Some (None, queue)"
proof -
  note D = ringD [OF r] and n = ring_lap_int [OF r]
  have "enqueue_step False Enq_Load queue = (Enq_Check (of_nat e), queue)"
    by (simp add: D(6))
  moreover have "enqueue_step False (Enq_Check (of_nat e)) queue = (Enq_Return None, queue)"
    using check_claim_difference [OF r] c n by (auto simp: Let_def)
  ultimately show ?thesis
    unfolding esrb_queue_enqueue_def by (simp add: run_steps_step run_steps_done del: enqueue_step.simps)
qed

lemma ring_claimed_slot:
  assumes r: "ring k e d {} C R queue" and c: "can_claim k e R"
  shows "ring k (Suc e) d {} (insert e C) R (claimed_slot k e queue)"
proof -
  note r' = ring_claim [OF r c]
  show ?thesis
    using ring_mark [OF r', of e] by (simp add: slot_of_ring [OF r] claimed_slot_def)
qed

section \<open>Publish\<close>

lemma publish_result:
  assumes r: "ring k e d {} C R queue" and p: "p \<in> C"
  shows "\<exists>queue'. esrb_queue_publish queue (p mod 2 ^ k) = Some queue' \<and>
    ring k e d {} (C - {p}) R queue' \<and>
    depth_max queue' = max (depth_max queue) (of_nat (p + 1 - d)) \<and>
    (\<forall>i. slot_at queue' i = (if i = p mod 2 ^ k
       then (slot_at queue i)\<lparr>sequence := of_nat p + 1\<rparr> else slot_at queue i))"
proof -
  note D = ringD [OF r] and pc = ring_claimed [OF r p]
  let ?i = "p mod 2 ^ k"
  define depth :: size_t where "depth = of_nat (p + 1 - d)"
  let ?q = "queue\<lparr>depth_max := max (depth_max queue) depth\<rparr>"
  let ?q' = "set_slot ?i (\<lambda>s. s\<lparr>sequence := slot_position s + 1\<rparr>) ?q"
  have pos: "slot_position (slot_at queue ?i) = of_nat p"
    using D(14) pc by simp
  have depth: "of_nat p + 1 - of_nat d = depth" using pc by (simp add: depth_def of_nat_diff)
  have load: "publish_step False ?i Pub_Dequeued queue = (Pub_Maximum depth, queue)"
    by (simp only: publish_step.simps pos D(7) depth)
  have max: "publish_step False ?i (Pub_Maximum depth) queue =
      (Pub_Cas depth (depth_max queue), queue)" by simp
  have cas: "publish_step False ?i (Pub_Cas depth (depth_max queue)) queue = (Pub_Store, ?q)"
    by (cases "depth > depth_max queue") (auto simp: max_def)
  have store: "publish_step False ?i Pub_Store ?q = (Pub_Return, ?q')" by simp
  have "esrb_queue_publish queue ?i = Some ?q'"
    unfolding esrb_queue_publish_def
    by (simp add: run_steps_next load max cas store run_steps_done del: publish_step.simps)
  moreover have "ring k e d {} C R ?q" using r by (simp add: ring_def)
  then have "ring k e d {} (C - {p}) R ?q'" using p by (intro ring_publish) auto
  ultimately show ?thesis
    using pos ring_index [OF r] by (auto simp: depth_def)
qed

section \<open>Dequeue\<close>

lemma dequeue_takes:
  assumes r: "ring k e d U C R queue" and "d < e" "d \<notin> C"
  shows "esrb_queue_dequeue queue =
    Some (Some (d mod 2 ^ k), queue\<lparr>dequeue_position := of_nat d + 1\<rparr>)"
proof -
  note D = ringD [OF r] and s = slot_of_ring [OF r]
  have "dequeue_step False Deq_Load queue = (Deq_Check (of_nat d), queue)"
    by (simp add: D(7))
  moreover have "dequeue_step False (Deq_Check (of_nat d)) queue = (Deq_Cas (of_nat d), queue)"
    using check_take_difference [OF r] assms(2,3) by simp
  moreover have "dequeue_step False (Deq_Cas (of_nat d)) queue =
      (Deq_Return (Some (d mod 2 ^ k)), queue\<lparr>dequeue_position := of_nat d + 1\<rparr>)"
    by (simp add: D(7) s)
  ultimately show ?thesis
    unfolding esrb_queue_dequeue_def by (simp add: run_steps_step run_steps_done del: dequeue_step.simps)
qed

text \<open>Nothing to take: the queue is empty, or its oldest position is claimed but not published.\<close>

lemma dequeue_none:
  assumes r: "ring k e d U C R queue" and c: "d = e \<or> d \<in> C"
  shows "esrb_queue_dequeue queue = Some (None, queue)"
proof -
  note D = ringD [OF r] and n = ring_lap_int [OF r]
  have "\<not> (d < e \<and> d \<notin> C)" using c by auto
  then have "intptr_difference (sequence (slot_at queue (slot_of queue (of_nat d)))) (of_nat d + 1) < 0"
    unfolding check_take_difference [OF r] using n by auto
  then have "dequeue_step False (Deq_Check (of_nat d)) queue = (Deq_Return None, queue)"
    by (auto simp: Let_def)
  moreover have "dequeue_step False Deq_Load queue = (Deq_Check (of_nat d), queue)"
    by (simp add: D(7))
  ultimately show ?thesis
    unfolding esrb_queue_dequeue_def by (simp add: run_steps_step run_steps_done del: dequeue_step.simps)
qed

section \<open>Disarm and release\<close>

lemma disarm_result:
  assumes "readers (slot_at queue i) = 0" and "i < length (slots queue)"
  shows "esrb_queue_disarm queue i = Some (set_slot i (\<lambda>s. s\<lparr>occupied := False\<rparr>) queue)"
  using assms unfolding esrb_queue_disarm_def
  by (simp add: run_steps_next run_steps_done)

lemma release_result:
  assumes r: "ring k e d U C R queue" and p: "p < d" "p \<notin> R"
    and readers: "readers (slot_at queue (p mod 2 ^ k)) = 0"
  shows "\<exists>queue'. esrb_queue_release queue (p mod 2 ^ k) = Some queue' \<and>
    ring k e d U C (insert p R) queue' \<and> depth_max queue' = depth_max queue \<and>
    (\<forall>i. slot_at queue' i = (if i = p mod 2 ^ k
       then (slot_at queue i)\<lparr>occupied := False, sequence := of_nat p + 2 ^ k\<rparr>
       else slot_at queue i))"
proof -
  let ?i = "p mod 2 ^ k"
  let ?q = "set_slot ?i (\<lambda>s. s\<lparr>occupied := False\<rparr>) queue"
  let ?q' = "set_slot ?i (\<lambda>s. s\<lparr>sequence := slot_position s + capacity queue\<rparr>) ?q"
  have len: "?i < length (slots queue)" by (rule ring_index [OF r])
  have pos: "slot_position (slot_at queue ?i) = of_nat p"
    using ringD(14) [OF r] ring_taken [OF r p] ringD(9) [OF r] by blast
  have clear: "release_step ?i Rel_Clear queue = (Rel_Wait, ?q)" by simp
  have wait: "release_step ?i Rel_Wait ?q = (Rel_Free, ?q)" using readers len by simp
  have free: "release_step ?i Rel_Free ?q = (Rel_Return, ?q')" by simp
  have "esrb_queue_release queue ?i = Some ?q'"
    unfolding esrb_queue_release_def
    by (simp add: run_steps_next clear wait free run_steps_done del: release_step.simps)
  moreover have "ring k e d U C R ?q" by (rule ring_write [OF r]) simp_all
  then have "ring k e d U C (insert p R) ?q'" using ring_release [OF _ p, of k e U C ?q] by simp
  ultimately show ?thesis using len pos ringD(3) [OF r] by auto
qed

section \<open>The contents of the ring\<close>

definition pending_slots :: "esrb_queue \<Rightarrow> nat list" where
  "pending_slots queue =
     map (\<lambda>i. slot_of queue (dequeue_position queue + of_nat i))
       [0..<unat (esrb_queue_depth queue)]"

lemma depth_ring:
  assumes r: "ring k e d U C R queue"
  shows "unat (esrb_queue_depth queue) = e - d"
proof -
  note D = ringD [OF r] and n = ring_lap [OF r]
  have "esrb_queue_depth queue = of_nat (e - d)"
    using D(8) by (simp add: esrb_queue_depth_def D(6,7) of_nat_diff)
  moreover have "e - d < 2 ^ 64"
    using ring_depth_bound [OF r] n by simp
  ultimately show ?thesis by (simp add: unat_of_nat)
qed

lemma pending_slots_ring:
  assumes r: "ring k e d U C R queue"
  shows "pending_slots queue = map (\<lambda>p. p mod 2 ^ k) [d..<e]"
proof -
  have "pending_slots queue = map (\<lambda>i. (d + i) mod 2 ^ k) [0..<e - d]"
    by (simp add: pending_slots_def depth_ring [OF r] ringD(7) [OF r] slot_of_ring [OF r]
        flip: of_nat_add)
  also have "\<dots> = map (\<lambda>p. p mod 2 ^ k) (map (\<lambda>i. i + d) [0..<e - d])" by (simp add: add.commute)
  also have "map (\<lambda>i. i + d) [0..<e - d] = [d..<e]"
    using ringD(8) [OF r] map_add_upt [of d "e - d"] by (simp add: add.commute)
  finally show ?thesis .
qed

text \<open>A ring with no producer in the middle of an enqueue.\<close>

definition valid_queue :: "esrb_queue \<Rightarrow> bool" where
  "valid_queue queue \<longleftrightarrow> (\<exists>k e d R. ring k e d {} {} R queue)"

interpretation queue_source: source esrb_queue_dequeue valid_queue pending_slots
proof unfold_locales
  fix queue
  assume "valid_queue queue" and none: "pending_slots queue = []"
  then obtain k e d R where r: "ring k e d {} {} R queue" by (auto simp: valid_queue_def)
  then have "d = e" using none ringD(8) [OF r] by (auto simp: pending_slots_ring [OF r])
  then show "esrb_queue_dequeue queue = Some (None, queue)" using dequeue_none [OF r] by simp
next
  fix queue x xs
  assume "valid_queue queue" and cons: "pending_slots queue = x # xs"
  then obtain k e d R where r: "ring k e d {} {} R queue" by (auto simp: valid_queue_def)
  have "d < e" using cons by (cases "d < e") (simp_all add: pending_slots_ring [OF r])
  let ?q = "queue\<lparr>dequeue_position := of_nat d + 1\<rparr>"
  have r': "ring k e (Suc d) {} {} R ?q" using ring_take [OF r \<open>d < e\<close>] by simp
  have "x = d mod 2 ^ k" "xs = pending_slots ?q"
    using cons \<open>d < e\<close> unfolding pending_slots_ring [OF r] pending_slots_ring [OF r']
    by (simp_all add: upt_conv_Cons)
  then show "\<exists>queue'. esrb_queue_dequeue queue = Some (Some x, queue') \<and> valid_queue queue' \<and>
      pending_slots queue' = xs"
    using dequeue_takes [OF r \<open>d < e\<close>] r' by (auto simp: valid_queue_def)
qed

end
