(* ===== verification/Protocol_Safety.thy ===== *)
theory Protocol_Safety
  imports Protocol_Runs Queue_Seq
begin

text \<open>
  What the concurrent system guarantees: properties of every reachable state, each with a witness
  at a state of the concrete run.
\<close>



text \<open>C18. Consumers take the messages in the order in which producers claimed their positions, each
  once and none lost.\<close>

theorem messages_taken_in_claim_order:
  assumes "system_run k s"
  shows "taken s = map Some (take (length (taken s)) (claims s))"
  using conc_invD(7) [OF system_run_inv [OF assms]] by (simp add: slots_ok_def)

theorem messages_taken_in_claim_order_witness:
  "taken held_state = [Some demo_message] \<and>
    taken held_state = map Some (take (length (taken held_state)) (claims held_state))"
  using messages_taken_in_claim_order [OF demo_runs(3)] by (simp add: held_state_def)

text \<open>C1. Whoever races for the answer (producer, holder, releasing holder or watchdog), an AUTH
  message is answered at most once, exactly once by the time its slot is released, and a NOTIFY
  message never.\<close>

theorem auth_answered_exactly_once:
  assumes "system_run k s"
  shows "answer_count s p \<le> (if p < length (claims s) then of_bool (is_auth (claims s ! p)) else 0) \<and>
    (life s p = Released \<longrightarrow> answer_count s p = of_bool (is_auth (claims s ! p)))"
proof -
  note inv = system_run_inv [OF assms]
  note D = conc_invD [OF inv]
  have ok: "answer_ok k s p" using D(9) by (simp add: answers_ok_alt)
  have "life s p = Released \<longrightarrow> answer_count s p = of_bool (is_auth (claims s ! p))"
    using ok by (simp add: answer_ok_def)
  moreover have born: "p < length (claims s) \<longleftrightarrow> life s p \<noteq> Unborn" using life_okD(1) [OF D(3)] by (meson not_le)
  moreover have "answer_count s p \<le> answers_due k s p" by (simp add: answers_due_def)
  moreover have "answers_due k s p \<le> of_bool (is_auth (claims s ! p))" if "life s p \<in> filled_lives"
    using ok that unfolding answer_ok_def
    by (cases "answer_state (slot_at (ring_q s) (p mod 2 ^ k))") simp_all
  ultimately show ?thesis
    using ok by (cases "life s p") (auto simp: answer_ok_def filled_lives_def)
qed

theorem auth_answered_exactly_once_witness:
  "life released_state 0 = Released \<and> answer_count released_state 0 = 1 \<and>
    answer_count held_state 0 \<le> 1"
  using auth_answered_exactly_once [OF demo_runs(3), of 0]
    auth_answered_exactly_once [OF demo_runs(4), of 0]
  by (auto simp: held_state_def released_state_def demo_message_def is_auth_def)



text \<open>C3. When the watchdog is about to respond for an entry, the slot still belongs to the entry's
  position: the native message it reads is the one of that position and has not been released.\<close>

theorem watchdog_answers_live_message:
  assumes "system_run k s" and "watch s = Answering i w Due_Send"
  shows "\<exists>p. w = of_nat p \<and> i = p mod 2 ^ k \<and> life s p \<in> {Armed, Published, Held, Cleared} \<and>
    slot_message (slot_at (ring_q s) i) = Some (claims s ! p)"
proof -
  note inv = system_run_inv [OF assms(1)]
  obtain p where p: "life s p \<in> {Armed, Published, Held, Cleared}" "i = p mod 2 ^ k" "w = of_nat p"
    using watch_pinned [OF inv assms(2)] by auto
  then show ?thesis using pinned_position(2) [OF inv p(1)] by auto
qed

theorem watchdog_answers_live_message_witness:
  "watch due_state = Answering 0 0 Due_Send \<and>
    (\<exists>p. (0 :: size_t) = of_nat p \<and> 0 = p mod 2 \<and> life due_state p \<in> {Armed, Published, Held, Cleared} \<and>
      slot_message (slot_at (ring_q due_state) 0) = Some (claims due_state ! p))"
proof -
  have w: "watch due_state = Answering 0 0 Due_Send" by (simp add: due_state_def)
  show ?thesis using watchdog_answers_live_message [OF demo_runs(2) w] w by simp
qed

text \<open>C4. A thread that is past its disarm loop can release the native message: the watchdog is not
  between its second look at the slot and its answer.\<close>

theorem watchdog_gone_after_disarm:
  assumes "system_run k s" and "works_on (threads s t) = Some i" "life s (pos s t) = Quiet"
    and "watch s = Answering i w pc"
  shows "pc \<notin> {Due_Position, Due_Cas, Due_Send}"
proof
  note inv = system_run_inv [OF assms(1)]
  assume pc: "pc \<in> {Due_Position, Due_Cas, Due_Send}"
  then obtain p where p: "pins (watch s) (2 ^ k) p" "life s p \<in> {Armed, Published, Held, Cleared}"
    using conc_invD(8) [OF inv] assms(4) unfolding watch_ok_def by blast
  have "p mod 2 ^ k = i" using p(1) pc assms(4) by auto
  moreover have "pos s t mod 2 ^ k = i"
    using thread_okD(2) [OF conc_invD(5) [OF inv] assms(2)] by simp
  ultimately have "p = pos s t"
    using unreleased_same_slot [OF inv, of p "pos s t"] p(2) assms(3) by auto
  then show False using p(2) assms(3) by simp
qed

theorem watchdog_gone_after_disarm_witness:
  "life quiet_state 0 = Quiet \<and> watch quiet_state = Answering 0 0 Due_Recheck \<and>
     Due_Recheck \<notin> {Due_Position, Due_Cas, Due_Send}"
  using watchdog_gone_after_disarm [OF demo_runs(5), of 0 0 0 Due_Recheck]
  by (simp add: quiet_state_def)

text \<open>C20. An enqueue gives up (and the event is dropped) only when the position one lap earlier, the
  last occupant of the slot it needs, has been claimed and is not released yet.\<close>

theorem drop_means_slot_unreleased:
  assumes "system_run k s" and "threads s t = Enqueueing m (Enq_Check w)"
    and "enqueue_step spurious (Enq_Check w) (ring_q s) = (Enq_Return None, q)"
  shows "2 ^ k \<le> unat w \<and> life s (unat w - 2 ^ k) \<notin> {Unborn, Released}"
proof -
  note inv = system_run_inv [OF assms(1)]
  note D = conc_invD [OF inv] and n = ring_lap(1) [OF conc_invD(2) [OF inv]]
  let ?e = "length (claims s)"
  have w: "unat w \<le> ?e" using thread_okD(5) [OF conc_invD(5) [OF inv, of t]] assms(2) by simp
  have neg: "intptr_difference (sequence (slot_at (ring_q s) (slot_of (ring_q s) w))) w < 0"
    using assms(3) by (auto simp: Let_def split: if_splits)
  have "unat w = ?e"
  proof (rule ccontr)
    assume "unat w \<noteq> ?e"
    then have "unat w < ?e" using w by simp
    then show False using neg behind_enqueue [OF D(2) D(1), of "unat w"] by simp
  qed
  moreover have "w = of_nat (unat w)" by simp
  ultimately have we: "w = of_nat ?e" by (simp only:)
  have c: "\<not> can_claim k ?e (released_of (life s))"
    using neg check_claim_difference [OF D(2)] unfolding we by (auto split: if_splits)
  then have "2 ^ k \<le> ?e" "life s (?e - 2 ^ k) \<noteq> Released" by (simp_all add: can_claim_def)
  moreover have "?e - 2 ^ k < ?e" using calculation(1) n by linarith
  then have "life s (?e - 2 ^ k) \<noteq> Unborn"
    using life_okD(1) [OF D(3), of "?e - 2 ^ k"] by simp
  ultimately show ?thesis using \<open>unat w = ?e\<close> by simp
qed

theorem drop_means_slot_unreleased_witness:
  "enqueue_step False (Enq_Check 2) (ring_q full_state) = (Enq_Return None, ring_q full_state) \<and>
    life full_state (unat (2 :: size_t) - 2 ^ 1) \<notin> {Unborn, Released}"
proof -
  have t: "threads full_state 2 = Enqueueing demo_message (Enq_Check 2)"
    by (simp add: full_state_def crowd_def)
  have e: "enqueue_step False (Enq_Check 2) (ring_q full_state) = (Enq_Return None, ring_q full_state)"
    by (simp add: full_state_def crowd_def demo_simps)
  show ?thesis using drop_means_slot_unreleased [OF demo_runs(6) t e] e by blast
qed

text \<open>The depth the queue reports is the number of claimed positions not yet taken; it and the
  recorded maximum never exceed the capacity.\<close>

lemma depth_within_capacity:
  assumes "system_run k s"
  shows "unat (esrb_queue_depth (ring_q s)) = length (claims s) - length (taken s) \<and>
    unat (esrb_queue_depth (ring_q s)) \<le> 2 ^ k \<and> depth_max (ring_q s) \<le> capacity (ring_q s)"
proof -
  note D = conc_invD [OF system_run_inv [OF assms]]
  show ?thesis
    using depth_ring [OF D(2)] ring_depth_bound [OF D(2)] D(4) ringD(3) [OF D(2)] by simp
qed

lemma depth_within_capacity_example:
  "unat (esrb_queue_depth (ring_q armed_state)) = 1 \<and>
    depth_max (ring_q armed_state) \<le> capacity (ring_q armed_state)"
  using depth_within_capacity [OF demo_runs(1)] by (simp add: armed_state_def)

end
