(* ===== verification/Watchdog_Heap.thy ===== *)
theory Watchdog_Heap
  imports Queue_Model
begin

text \<open>
  The watchdog's deadline heap (client.h, esrb_watchdog_t; watchdog.c, heap_swap to heap_set): a
  binary heap of entries ordered by \<open>fire_at\<close> in an array, in which every slot keeps the index of
  its entry in \<open>watchdog_index\<close>. Only the watchdog thread touches the heap and these indices. An
  index into the heap is a natural number: the array holds \<open>capacity \<le> 2 ^ 62\<close> entries, so
  \<open>index * 2 + 2\<close> does not wrap. The memory the functions work on is the watchdog and the ring
  whose slots the entries point to.
\<close>

section \<open>The heap\<close>

record esrb_watchdog_request =
  req_sequence :: size_t
  req_slot :: nat
  req_position :: size_t
  req_fire_at :: uint64

record esrb_watchdog_entry =
  entry_slot :: nat
  entry_position :: size_t
  entry_fire_at :: uint64

record esrb_watchdog =
  wd_capacity :: size_t
  wd_mask :: size_t
  requests :: "esrb_watchdog_request list"
  wd_enqueue_position :: size_t
  wd_dequeue_position :: size_t
  heap :: "esrb_watchdog_entry list"
  heap_size :: nat
  mutex_live :: bool
  condition_live :: bool

type_synonym watch_mem = "esrb_watchdog \<times> esrb_queue"

abbreviation size_of :: "watch_mem \<Rightarrow> nat" where
  "size_of m \<equiv> heap_size (fst m)"

definition heap_at :: "watch_mem \<Rightarrow> nat \<Rightarrow> esrb_watchdog_entry" where
  "heap_at m i = heap (fst m) ! i"

definition put_entry :: "nat \<Rightarrow> esrb_watchdog_entry \<Rightarrow> watch_mem \<Rightarrow> watch_mem" where
  "put_entry i e m = ((fst m)\<lparr>heap := (heap (fst m))[i := e]\<rparr>, snd m)"

definition put_size :: "nat \<Rightarrow> watch_mem \<Rightarrow> watch_mem" where
  "put_size n m = ((fst m)\<lparr>heap_size := n\<rparr>, snd m)"

definition put_index :: "nat \<Rightarrow> size_t \<Rightarrow> watch_mem \<Rightarrow> watch_mem" where
  "put_index slot v m = (fst m, set_slot slot (\<lambda>s. s\<lparr>watchdog_index := v\<rparr>) (snd m))"

definition index_at :: "watch_mem \<Rightarrow> nat \<Rightarrow> size_t" where
  "index_at m slot = watchdog_index (slot_at (snd m) slot)"

lemma put_size_of [simp]:
  "size_of (put_entry i e m) = size_of m" "size_of (put_index s v m) = size_of m"
  "size_of (put_size n m) = n"
  by (simp_all add: put_entry_def put_index_def put_size_def)

section \<open>Operations\<close>

definition heap_swap :: "nat \<Rightarrow> nat \<Rightarrow> watch_mem \<Rightarrow> watch_mem" where
  "heap_swap left right m =
     (let temporary = heap_at m left;
          m1 = put_entry left (heap_at m right) m;
          m2 = put_entry right temporary m1;
          m3 = put_index (entry_slot (heap_at m2 left)) (of_nat left) m2
      in put_index (entry_slot (heap_at m3 right)) (of_nat right) m3)"

lemma heap_swap_size [simp]: "size_of (heap_swap l r m) = size_of m"
  by (simp add: heap_swap_def Let_def)

function heap_up :: "nat \<Rightarrow> watch_mem \<Rightarrow> watch_mem" where
  "heap_up index m =
     (if index > 0 then
        let parent = (index - 1) div 2
        in if entry_fire_at (heap_at m parent) \<le> entry_fire_at (heap_at m index) then m
           else heap_up parent (heap_swap parent index m)
      else m)"
  by pat_completeness auto
termination by (relation "measure fst") auto

function heap_down :: "nat \<Rightarrow> watch_mem \<Rightarrow> watch_mem" where
  "heap_down index m =
     (let left = index * 2 + 1
      in if left \<ge> size_of m then m
         else let right = left + 1;
                  smallest = (if right < size_of m \<and>
                      entry_fire_at (heap_at m right) < entry_fire_at (heap_at m left)
                    then right else left)
              in if entry_fire_at (heap_at m index) \<le> entry_fire_at (heap_at m smallest) then m
                 else heap_down smallest (heap_swap index smallest m))"
  by pat_completeness auto
termination
  by (relation "measure (\<lambda>(index, m). size_of m - index)") (auto split: if_splits)

declare heap_up.simps [simp del] heap_down.simps [simp del]

definition heap_remove :: "nat \<Rightarrow> watch_mem \<Rightarrow> watch_mem" where
  "heap_remove index m =
     (let removed = entry_slot (heap_at m index);
          m1 = put_size (size_of m - 1) (put_index removed SIZE_MAX m)
      in if index = size_of m1 then m1
         else let m2 = put_entry index (heap_at m1 (size_of m1)) m1;
                  moved = entry_slot (heap_at m2 index);
                  m3 = put_index moved (of_nat index) m2;
                  m4 = heap_up index m3
              in heap_down (unat (index_at m4 moved)) m4)"

definition heap_set :: "esrb_watchdog_request \<Rightarrow> watch_mem \<Rightarrow> watch_mem" where
  "heap_set request m =
     (let slot = req_slot request;
          entry = \<lparr>entry_slot = slot, entry_position = req_position request,
            entry_fire_at = req_fire_at request\<rparr>;
          index = unat (index_at m slot);
          settle = (\<lambda>index m. let m' = heap_up index (put_entry index entry m)
            in heap_down (unat (index_at m' slot)) m')
      in if index \<ge> size_of m \<or> entry_slot (heap_at m index) \<noteq> slot
         then if size_of m \<ge> unat (wd_capacity (fst m)) then m
              else settle (size_of m)
                (put_index slot (of_nat (size_of m)) (put_size (size_of m + 1) m))
         else settle index m)"

section \<open>Order, up to a hole\<close>

definition heap_order :: "(nat \<Rightarrow> uint64) \<Rightarrow> nat \<Rightarrow> bool" where
  "heap_order f n \<longleftrightarrow> (\<forall>j. 0 < j \<and> j < n \<longrightarrow> f ((j - 1) div 2) \<le> f j)"

text \<open>Ordered if the element at \<open>i\<close> is left out; and ordered but for \<open>i\<close> against its children.\<close>

definition hole_order :: "(nat \<Rightarrow> uint64) \<Rightarrow> nat \<Rightarrow> nat \<Rightarrow> bool" where
  "hole_order f n i \<longleftrightarrow>
     (\<forall>j. 0 < j \<and> j < n \<and> j \<noteq> i \<and> (j - 1) div 2 \<noteq> i \<longrightarrow> f ((j - 1) div 2) \<le> f j) \<and>
     (\<forall>j. 0 < i \<and> 0 < j \<and> j < n \<and> (j - 1) div 2 = i \<longrightarrow> f ((i - 1) div 2) \<le> f j)"

definition down_order :: "(nat \<Rightarrow> uint64) \<Rightarrow> nat \<Rightarrow> nat \<Rightarrow> bool" where
  "down_order f n i \<longleftrightarrow> hole_order f n i \<and> (0 < i \<and> i < n \<longrightarrow> f ((i - 1) div 2) \<le> f i)"

definition swapped :: "nat \<Rightarrow> nat \<Rightarrow> (nat \<Rightarrow> 'a) \<Rightarrow> nat \<Rightarrow> 'a" where
  "swapped a b f = f(a := f b, b := f a)"

lemma heap_order_down: "heap_order f n \<Longrightarrow> i < n \<Longrightarrow> down_order f n i"
  unfolding heap_order_def down_order_def hole_order_def
  by (auto intro: order_trans)

lemma parent_less: "0 < i \<Longrightarrow> (i - 1) div 2 < (i::nat)"
  by presburger

lemma hole_order_up:
  assumes h: "hole_order f n i" and i: "0 < i" "i < n" and p: "p = (i - 1) div 2" and "f i < f p"
  shows "hole_order (swapped p i f) n p"
proof -
  have pi: "p < i" using i p by auto
  have H1: "f ((j - 1) div 2) \<le> f j" if "0 < j" "j < n" "j \<noteq> i" "(j - 1) div 2 \<noteq> i" for j
    using h that by (auto simp: hole_order_def)
  have H2: "f p \<le> f j" if "0 < j" "j < n" "(j - 1) div 2 = i" for j
    using h that i p by (auto simp: hole_order_def)
  have pp: "f ((p - 1) div 2) \<le> f p" if "0 < p"
    using H1 [of p] that pi i by auto
  show ?thesis
    unfolding hole_order_def
  proof (intro conjI allI impI)
    fix j assume j: "0 < j \<and> j < n \<and> j \<noteq> p \<and> (j - 1) div 2 \<noteq> p"
    then have "j \<noteq> i" using p by auto
    then show "swapped p i f ((j - 1) div 2) \<le> swapped p i f j"
      using H1 [of j] H2 [of j] j pi by (cases "(j - 1) div 2 = i") (auto simp: swapped_def)
  next
    fix j assume j: "0 < p \<and> 0 < j \<and> j < n \<and> (j - 1) div 2 = p"
    have "(p - 1) div 2 < p" using j by (intro parent_less) simp
    moreover have "f ((p - 1) div 2) \<le> f j" if "j \<noteq> i"
      using H1 [of j] that j pp pi by (auto intro: order_trans)
    moreover have "j \<noteq> p" using j by auto
    ultimately show "swapped p i f ((p - 1) div 2) \<le> swapped p i f j"
      using pp pi j by (cases "j = i") (auto simp: swapped_def)
  qed
qed

lemma children: "(j - 1) div 2 = i \<Longrightarrow> 0 < j \<Longrightarrow> j = i * 2 + 1 \<or> j = i * 2 + 2" for i j :: nat
  by auto

lemma down_order_step:
  assumes d: "down_order f n i" and c: "c < n" "c = i * 2 + 1 \<or> c = i * 2 + 2" and lt: "f c < f i"
    and least: "\<And>j. j < n \<Longrightarrow> j = i * 2 + 1 \<or> j = i * 2 + 2 \<Longrightarrow> f c \<le> f j"
  shows "down_order (swapped i c f) n c"
proof -
  have ic: "i < c" "(c - 1) div 2 = i" using c by auto
  have H1: "f ((j - 1) div 2) \<le> f j" if "0 < j" "j < n" "(j - 1) div 2 \<noteq> i" for j
    using d that by (cases "j = i") (auto simp: down_order_def hole_order_def)
  have H2: "f ((i - 1) div 2) \<le> f c" if "0 < i"
    using d that ic c by (auto simp: down_order_def hole_order_def)
  have ok: "swapped i c f ((j - 1) div 2) \<le> swapped i c f j"
    if j: "0 < j" "j < n" "(j - 1) div 2 \<noteq> c" for j
  proof -
    consider "j = c" | "j \<noteq> c" "(j - 1) div 2 = i" | "j = i" | "j \<noteq> i" "j \<noteq> c" "(j - 1) div 2 \<noteq> i" by blast
    then show ?thesis
    proof cases
      case 1
      then show ?thesis using ic lt by (simp add: swapped_def)
    next
      case 2
      then have "f c \<le> f j" using least [OF j(2)] children [OF 2(2) j(1)] by blast
      moreover have "j \<noteq> i" using 2 j by auto
      ultimately show ?thesis using 2 ic by (simp add: swapped_def)
    next
      case 3
      then have "(i - 1) div 2 \<noteq> i" "(i - 1) div 2 \<noteq> c" using j ic by auto
      then show ?thesis using 3 H2 j(1) ic by (simp add: swapped_def)
    next
      case 4
      then show ?thesis using H1 [OF j(1,2)] j(3) by (simp add: swapped_def)
    qed
  qed
  have kid: "swapped i c f ((c - 1) div 2) \<le> swapped i c f j"
    if j: "0 < j" "j < n" "(j - 1) div 2 = c" for j
  proof -
    have "j \<noteq> i" "j \<noteq> c" using j ic by auto
    then show ?thesis using H1 [OF j(1,2)] j(3) ic by (simp add: swapped_def)
  qed
  show ?thesis unfolding down_order_def hole_order_def
    using ok kid ic by (auto simp del: One_nat_def)
qed

lemma down_order_stop:
  assumes "down_order f n i" and "\<And>j. j < n \<Longrightarrow> j = i * 2 + 1 \<or> j = i * 2 + 2 \<Longrightarrow> f i \<le> f j"
  shows "heap_order f n"
  unfolding heap_order_def
proof (intro allI impI)
  fix j assume j: "0 < j \<and> j < n"
  show "f ((j - 1) div 2) \<le> f j"
  proof (cases "(j - 1) div 2 = i")
    case True
    then show ?thesis using assms(2) [of j] children [OF True] j by simp
  next
    case False
    then show ?thesis using assms(1) j by (cases "j = i") (auto simp: down_order_def hole_order_def)
  qed
qed


section \<open>The index invariant\<close>

text \<open>Every entry's slot exists and knows the entry's index.\<close>

definition heap_index :: "watch_mem \<Rightarrow> bool" where
  "heap_index m \<longleftrightarrow> size_of m \<le> length (heap (fst m)) \<and> length (heap (fst m)) \<le> 2 ^ 62 \<and>
     (\<forall>i < size_of m. entry_slot (heap_at m i) < length (slots (snd m)) \<and>
        index_at m (entry_slot (heap_at m i)) = of_nat i)"

text \<open>What a heap operation changes outside the heap array and its size: indices only.\<close>

definition only_indices :: "watch_mem \<Rightarrow> watch_mem \<Rightarrow> bool" where
  "only_indices m m' \<longleftrightarrow>
     (fst m')\<lparr>heap := heap (fst m), heap_size := heap_size (fst m)\<rparr> = fst m \<and>
     length (heap (fst m')) = length (heap (fst m)) \<and>
     length (slots (snd m')) = length (slots (snd m)) \<and> (snd m')\<lparr>slots := slots (snd m)\<rparr> = snd m \<and>
     (\<forall>j. (slot_at (snd m') j)\<lparr>watchdog_index := watchdog_index (slot_at (snd m) j)\<rparr> = slot_at (snd m) j)"

lemma only_indices_refl [simp]: "only_indices m m"
  by (simp add: only_indices_def)

lemma only_indices_trans:
  assumes "only_indices m1 m2" "only_indices m2 m3"
  shows "only_indices m1 m3"
proof -
  have "(fst m3)\<lparr>heap := heap (fst m1), heap_size := heap_size (fst m1)\<rparr> =
      ((fst m3)\<lparr>heap := heap (fst m2), heap_size := heap_size (fst m2)\<rparr>)
        \<lparr>heap := heap (fst m1), heap_size := heap_size (fst m1)\<rparr>" by simp
  moreover have "(snd m3)\<lparr>slots := slots (snd m1)\<rparr> =
      ((snd m3)\<lparr>slots := slots (snd m2)\<rparr>)\<lparr>slots := slots (snd m1)\<rparr>" by simp
  moreover have "(slot_at (snd m3) j)\<lparr>watchdog_index := watchdog_index (slot_at (snd m1) j)\<rparr> =
      ((slot_at (snd m3) j)\<lparr>watchdog_index := watchdog_index (slot_at (snd m2) j)\<rparr>)
        \<lparr>watchdog_index := watchdog_index (slot_at (snd m1) j)\<rparr>" for j by simp
  ultimately show ?thesis using assms unfolding only_indices_def by (simp only:) simp
qed

lemma only_indices_put [simp]:
  "only_indices m (put_entry i e m)" "only_indices m (put_size n m)"
  "only_indices m (put_index s v m)"
proof -
  show "only_indices m (put_index s v m)"
    by (cases "s < length (slots (snd m))")
      (auto simp: only_indices_def put_index_def slot_at_def set_slot_def nth_list_update_cases
        list_update_beyond)
qed (simp_all add: only_indices_def put_entry_def put_size_def)

lemma heap_at_put [simp]:
  "heap_at (put_index s v m) i = heap_at m i" "heap_at (put_size n m) i = heap_at m i"
  "i < length (heap (fst m)) \<Longrightarrow> heap_at (put_entry i e m) j = (if i = j then e else heap_at m j)"
  by (simp_all add: heap_at_def put_index_def put_size_def put_entry_def nth_list_update_cases)

lemma index_at_put [simp]:
  "index_at (put_entry i e m) s = index_at m s" "index_at (put_size n m) s = index_at m s"
  "s < length (slots (snd m)) \<Longrightarrow> index_at (put_index s v m) s' = (if s = s' then v else index_at m s')"
  by (simp_all add: index_at_def put_index_def put_size_def put_entry_def)

lemma put_lengths [simp]:
  "length (heap (fst (put_entry i e m))) = length (heap (fst m))"
  "length (heap (fst (put_size n m))) = length (heap (fst m))"
  "length (heap (fst (put_index s v m))) = length (heap (fst m))"
  "length (slots (snd (put_entry i e m))) = length (slots (snd m))"
  "length (slots (snd (put_size n m))) = length (slots (snd m))"
  "length (slots (snd (put_index s v m))) = length (slots (snd m))"
  by (simp_all add: put_entry_def put_size_def put_index_def)

abbreviation fires :: "watch_mem \<Rightarrow> nat \<Rightarrow> uint64" where
  "fires m i \<equiv> entry_fire_at (heap_at m i)"

definition entries :: "watch_mem \<Rightarrow> esrb_watchdog_entry set" where
  "entries m = heap_at m ` {..<size_of m}"

lemma heap_indexD:
  assumes "heap_index m"
  shows "size_of m \<le> length (heap (fst m))" "length (heap (fst m)) \<le> 2 ^ 62"
    "i < size_of m \<Longrightarrow> entry_slot (heap_at m i) < length (slots (snd m))"
    "i < size_of m \<Longrightarrow> index_at m (entry_slot (heap_at m i)) = of_nat i"
    "i < size_of m \<Longrightarrow> unat (of_nat i :: size_t) = i"
  using assms by (auto simp: heap_index_def unat_of_nat)

lemma heap_slots_distinct:
  assumes "heap_index m" and "i < size_of m" "j < size_of m"
    and "entry_slot (heap_at m i) = entry_slot (heap_at m j)"
  shows "i = j"
  using heap_indexD(4,5) [OF assms(1)] assms(2-4) by metis

lemma heap_swap_at:
  assumes "heap_index m" and "l < size_of m" "r < size_of m" "l \<noteq> r"
  shows "heap_at (heap_swap l r m) = swapped l r (heap_at m)"
    and "heap_index (heap_swap l r m)"
    and "only_indices m (heap_swap l r m)"
proof -
  note D = heap_indexD [OF assms(1)]
  have len: "l < length (heap (fst m))" "r < length (heap (fst m))" using D(1) assms(2,3) by auto
  show at: "heap_at (heap_swap l r m) = swapped l r (heap_at m)"
    using len assms(4) by (auto simp: heap_swap_def swapped_def Let_def fun_eq_iff)
  have ix: "index_at (heap_swap l r m) s = (if s = entry_slot (heap_at m l) then of_nat r
      else if s = entry_slot (heap_at m r) then of_nat l else index_at m s)" for s
    using len assms D(3) by (simp add: heap_swap_def Let_def)
  have lens: "length (heap (fst (heap_swap l r m))) = length (heap (fst m))"
    "length (slots (snd (heap_swap l r m))) = length (slots (snd m))"
    by (simp_all add: heap_swap_def Let_def)
  show "heap_index (heap_swap l r m)"
    unfolding heap_index_def
  proof (intro conjI allI impI)
    fix i assume i: "i < size_of (heap_swap l r m)"
    then show "entry_slot (heap_at (heap_swap l r m) i) < length (slots (snd (heap_swap l r m)))"
      using D(3) assms lens by (simp add: at swapped_def)
    show "index_at (heap_swap l r m) (entry_slot (heap_at (heap_swap l r m) i)) = of_nat i"
      using i heap_slots_distinct [OF assms(1)] D(4) assms by (auto simp: at ix swapped_def)
  qed (use D lens in auto)
  show "only_indices m (heap_swap l r m)"
    unfolding heap_swap_def Let_def
    by (rule only_indices_trans [OF only_indices_trans [OF only_indices_trans
          [OF only_indices_put(1) only_indices_put(1)] only_indices_put(3)] only_indices_put(3)])
qed

lemma swapped_image: "a \<in> A \<Longrightarrow> b \<in> A \<Longrightarrow> swapped a b f ` A = f ` A"
  unfolding swapped_def by (auto simp: image_iff)

lemma swapped_comp: "(\<lambda>i. g (swapped a b f i)) = swapped a b (\<lambda>i. g (f i))"
  by (auto simp: swapped_def)

section \<open>Moving an entry to its place\<close>

text \<open>A heap that was rearranged: same entries, indices kept, nothing else touched.\<close>

definition rearranged :: "watch_mem \<Rightarrow> watch_mem \<Rightarrow> bool" where
  "rearranged m m' \<longleftrightarrow> heap_index m' \<and> only_indices m m' \<and> size_of m' = size_of m \<and>
     entries m' = entries m"

lemma rearranged_refl: "heap_index m \<Longrightarrow> rearranged m m"
  by (simp add: rearranged_def)

lemma rearranged_trans: "rearranged m1 m2 \<Longrightarrow> rearranged m2 m3 \<Longrightarrow> rearranged m1 m3"
  by (auto simp: rearranged_def intro: only_indices_trans)

lemma rearranged_swap:
  assumes "heap_index m" and "l < size_of m" "r < size_of m" "l \<noteq> r"
  shows "rearranged m (heap_swap l r m)"
  using heap_swap_at [OF assms] assms(2,3)
  by (simp add: rearranged_def entries_def swapped_image)

lemma fires_swap:
  assumes "heap_index m" and "l < size_of m" "r < size_of m" "l \<noteq> r"
  shows "fires (heap_swap l r m) = swapped l r (fires m)"
  by (simp add: heap_swap_at(1) [OF assms] swapped_comp)

lemma heap_up_eq:
  "heap_up i m = (if 0 < i \<and> fires m i < fires m ((i - 1) div 2)
     then heap_up ((i - 1) div 2) (heap_swap ((i - 1) div 2) i m) else m)"
  unfolding heap_up.simps [of i m] Let_def by (simp only: not_le [symmetric]) simp

definition least_child :: "nat \<Rightarrow> watch_mem \<Rightarrow> nat" where
  "least_child i m = (if i * 2 + 1 + 1 < size_of m \<and> fires m (i * 2 + 1 + 1) < fires m (i * 2 + 1)
     then i * 2 + 1 + 1 else i * 2 + 1)"

lemma heap_down_eq:
  "heap_down i m = (if i * 2 + 1 < size_of m \<and> fires m (least_child i m) < fires m i
     then heap_down (least_child i m) (heap_swap i (least_child i m) m) else m)"
  unfolding heap_down.simps [of i m] Let_def least_child_def [symmetric]
  by (simp only: not_le [symmetric]) simp

lemma least_child:
  assumes "i * 2 + 1 < size_of m"
  shows "least_child i m < size_of m"
    and "least_child i m = i * 2 + 1 \<or> least_child i m = i * 2 + 2"
    and "j < size_of m \<Longrightarrow> j = i * 2 + 1 \<or> j = i * 2 + 2 \<Longrightarrow> fires m (least_child i m) \<le> fires m j"
  using assms by (auto simp: least_child_def)

lemma heap_up_settles:
  assumes "heap_index m" and "i < size_of m" and "hole_order (fires m) (size_of m) i"
  shows "rearranged m (heap_up i m) \<and>
    (\<exists>j < size_of m. heap_at (heap_up i m) j = heap_at m i \<and>
      down_order (fires (heap_up i m)) (size_of m) j)"
  using assms
proof (induction i m rule: heap_up.induct)
  case (1 i m)
  let ?p = "(i - 1) div 2"
  show ?case
  proof (cases "0 < i \<and> fires m i < fires m ?p")
    case False
    then have stop: "heap_up i m = m" by (subst heap_up_eq) (simp only: if_False)
    have "down_order (fires m) (size_of m) i"
      using False "1.prems"(3) by (auto simp: down_order_def)
    then show ?thesis using "1.prems" by (auto simp: stop rearranged_refl)
  next
    case True
    have p: "?p < i" using True by (intro parent_less) simp
    have go: "heap_up i m = heap_up ?p (heap_swap ?p i m)"
      using True by (subst heap_up_eq) (simp only: if_True simp_thms)
    note sw = "1.prems"(1) less_trans [OF p "1.prems"(2)] "1.prems"(2) less_imp_neq [OF p]
    let ?m = "heap_swap ?p i m"
    have h: "hole_order (fires ?m) (size_of ?m) ?p"
      unfolding fires_swap [OF sw] heap_swap_size
      using hole_order_up [OF "1.prems"(3) _ "1.prems"(2) refl] True by blast
    have r: "rearranged m ?m" by (rule rearranged_swap [OF sw])
    have IH: "rearranged ?m (heap_up ?p ?m) \<and> (\<exists>j < size_of ?m.
        heap_at (heap_up ?p ?m) j = heap_at ?m ?p \<and> down_order (fires (heap_up ?p ?m)) (size_of ?m) j)"
      using True p "1.prems"(2) heap_swap_at(2) [OF sw] h by (intro "1.IH" [OF _ refl]) auto
    have "heap_at ?m ?p = heap_at m i"
      unfolding heap_swap_at(1) [OF sw] swapped_def using p by (simp del: One_nat_def)
    then show ?thesis using IH rearranged_trans [OF r] by (auto simp: go)
  qed
qed

lemma heap_down_settles:
  assumes "heap_index m" and "i < size_of m" and "down_order (fires m) (size_of m) i"
  shows "rearranged m (heap_down i m) \<and> heap_order (fires (heap_down i m)) (size_of m)"
  using assms
proof (induction "size_of m - i" arbitrary: i m rule: less_induct)
  case less
  let ?c = "least_child i m"
  show ?case
  proof (cases "i * 2 + 1 < size_of m \<and> fires m ?c < fires m i")
    case False
    then have stop: "heap_down i m = m" by (subst heap_down_eq) (simp only: if_False)
    have "fires m i \<le> fires m j" if "j < size_of m" "j = i * 2 + 1 \<or> j = i * 2 + 2" for j
    proof -
      have "i * 2 + 1 < size_of m" using that by auto
      then show ?thesis using False least_child(3) [OF _ that] by (simp add: not_less order_trans)
    qed
    then have "heap_order (fires m) (size_of m)" by (rule down_order_stop [OF less.prems(3)])
    then show ?thesis using less.prems by (simp add: stop rearranged_refl)
  next
    case True
    note C = least_child [of i m, OF conjunct1 [OF True]]
    have ic: "i < ?c" using C(2) by auto
    have go: "heap_down i m = heap_down ?c (heap_swap i ?c m)"
      using True by (subst heap_down_eq) (simp only: if_True simp_thms)
    note sw = less.prems(1,2) C(1) less_imp_neq [OF ic]
    let ?m = "heap_swap i ?c m"
    have d: "down_order (fires ?m) (size_of ?m) ?c"
      unfolding fires_swap [OF sw] heap_swap_size
      using down_order_step [OF less.prems(3) C(1,2)] True C(3) by blast
    have r: "rearranged m ?m" by (rule rearranged_swap [OF sw])
    have "rearranged ?m (heap_down ?c ?m) \<and> heap_order (fires (heap_down ?c ?m)) (size_of ?m)"
      using ic C(1) heap_swap_at(2) [OF sw] d by (intro less.hyps) auto
    then show ?thesis using rearranged_trans [OF r] unfolding go heap_swap_size by blast
  qed
qed

section \<open>Setting and removing an entry\<close>

definition heap_ok :: "watch_mem \<Rightarrow> bool" where
  "heap_ok m \<longleftrightarrow> heap_index m \<and> heap_order (fires m) (size_of m) \<and>
     length (heap (fst m)) = unat (wd_capacity (fst m))"

definition has_entry :: "watch_mem \<Rightarrow> nat \<Rightarrow> bool" where
  "has_entry m slot \<longleftrightarrow> (\<exists>e \<in> entries m. entry_slot e = slot)"

definition entry_of :: "esrb_watchdog_request \<Rightarrow> esrb_watchdog_entry" where
  "entry_of r = \<lparr>entry_slot = req_slot r, entry_position = req_position r,
     entry_fire_at = req_fire_at r\<rparr>"

definition settle :: "nat \<Rightarrow> nat \<Rightarrow> watch_mem \<Rightarrow> watch_mem" where
  "settle slot i m = heap_down (unat (index_at (heap_up i m) slot)) (heap_up i m)"

lemma settle_ok:
  assumes "heap_index m" and "i < size_of m" and "hole_order (fires m) (size_of m) i"
    and "slot = entry_slot (heap_at m i)"
  shows "rearranged m (settle slot i m) \<and> heap_order (fires (settle slot i m)) (size_of m)"
proof -
  obtain j where r: "rearranged m (heap_up i m)" and j: "j < size_of m"
      "heap_at (heap_up i m) j = heap_at m i" "down_order (fires (heap_up i m)) (size_of m) j"
    using heap_up_settles [OF assms(1-3)] by blast
  have up: "heap_index (heap_up i m)" "size_of (heap_up i m) = size_of m"
    using r by (simp_all add: rearranged_def)
  have "index_at (heap_up i m) slot = of_nat j"
    using heap_indexD(4) [OF up(1), of j] j up(2) assms(4) by simp
  then have "unat (index_at (heap_up i m) slot) = j"
    using heap_indexD(5) [OF up(1), of j] j up(2) by simp
  then show ?thesis
    using heap_down_settles [OF up(1), of j] j rearranged_trans [OF r]
    unfolding settle_def up(2) by blast
qed

lemma hole_order_put:
  assumes "heap_order f n" and "\<And>j. j \<noteq> i \<Longrightarrow> g j = f j"
  shows "hole_order g n i"
  unfolding hole_order_def
proof (intro conjI allI impI)
  fix j assume "0 < j \<and> j < n \<and> j \<noteq> i \<and> (j - 1) div 2 \<noteq> i"
  then show "g ((j - 1) div 2) \<le> g j" using assms by (simp add: heap_order_def)
next
  fix j assume j: "0 < i \<and> 0 < j \<and> j < n \<and> (j - 1) div 2 = i"
  then have "f ((i - 1) div 2) \<le> f i" "f i \<le> f j" using assms(1) by (auto simp: heap_order_def)
  moreover have "(i - 1) div 2 \<noteq> i" "j \<noteq> i" using j by auto
  ultimately show "g ((i - 1) div 2) \<le> g j" using assms(2) by simp
qed

lemma heap_ok_settle:
  assumes m: "heap_ok m0" and o: "only_indices m0 m" and "heap_index m" "i < size_of m"
    and h: "hole_order (fires m) (size_of m) i" and "slot = entry_slot (heap_at m i)"
  shows "heap_ok (settle slot i m) \<and> only_indices m0 (settle slot i m) \<and>
    size_of (settle slot i m) = size_of m \<and> entries (settle slot i m) = entries m"
proof -
  have r: "rearranged m (settle slot i m)" "heap_order (fires (settle slot i m)) (size_of m)"
    using settle_ok assms(3-6) by blast+
  then have o': "only_indices m0 (settle slot i m)"
    using o by (auto simp: rearranged_def intro: only_indices_trans)
  have "wd_capacity (fst (settle slot i m)) = wd_capacity (fst m0)"
    using o' unfolding only_indices_def by (metis esrb_watchdog.select_convs(1) esrb_watchdog.surjective esrb_watchdog.update_convs(6,7))
  then show ?thesis
    using r o' m by (simp add: heap_ok_def rearranged_def) (simp add: only_indices_def)
qed

lemma listed_slot:
  assumes "heap_index m"
  shows "has_entry m slot \<longleftrightarrow> unat (index_at m slot) < size_of m \<and>
    entry_slot (heap_at m (unat (index_at m slot))) = slot"
proof
  assume "has_entry m slot"
  then obtain i where "i < size_of m" "entry_slot (heap_at m i) = slot"
    by (auto simp: has_entry_def entries_def)
  then show "unat (index_at m slot) < size_of m \<and> entry_slot (heap_at m (unat (index_at m slot))) = slot"
    using heap_indexD(4,5) [OF assms, of i] by auto
qed (auto simp: has_entry_def entries_def)

lemma heap_set_fresh:
  assumes ok: "heap_ok m" and s: "req_slot r < length (slots (snd m))"
    and new: "\<not> has_entry m (req_slot r)" and room: "size_of m < unat (wd_capacity (fst m))"
  shows "heap_ok (heap_set r m) \<and> only_indices m (heap_set r m) \<and>
    size_of (heap_set r m) = size_of m + 1 \<and> entries (heap_set r m) = insert (entry_of r) (entries m)"
proof -
  have hi: "heap_index m" and ho: "heap_order (fires m) (size_of m)"
    and len: "length (heap (fst m)) = unat (wd_capacity (fst m))"
    using ok by (auto simp: heap_ok_def)
  note D = heap_indexD [OF hi]
  let ?n = "size_of m"
  let ?m = "put_entry ?n (entry_of r) (put_index (req_slot r) (of_nat ?n) (put_size (?n + 1) m))"
  have eq: "heap_set r m = settle (req_slot r) ?n ?m"
    using new room unfolding listed_slot [OF hi]
    by (auto simp: heap_set_def settle_def Let_def entry_of_def)
  have at: "heap_at ?m j = (if j = ?n then entry_of r else heap_at m j)" for j
    using room len by simp
  have idx: "index_at ?m j = (if j = req_slot r then of_nat ?n else index_at m j)" for j
    using s by simp
  have other: "entry_slot (heap_at m j) \<noteq> req_slot r" if "j < ?n" for j
    using new that by (auto simp: has_entry_def entries_def)
  have "heap_index ?m"
    unfolding heap_index_def at idx
    using D(1-4) room len s other by (auto simp: less_Suc_eq entry_of_def)
  moreover have "hole_order (fires ?m) (size_of ?m) ?n"
  proof -
    have "heap_order (\<lambda>j. if j = ?n then fires m ((?n - 1) div 2) else fires m j) (?n + 1)"
      using ho unfolding heap_order_def
    proof (intro allI impI)
      fix j assume o: "\<forall>j. 0 < j \<and> j < ?n \<longrightarrow> fires m ((j - 1) div 2) \<le> fires m j" and j: "0 < j \<and> j < ?n + 1"
      have "(j - 1) div 2 < j" by (rule parent_less) (simp add: j)
      then show "(if (j - 1) div 2 = ?n then fires m ((?n - 1) div 2) else fires m ((j - 1) div 2))
          \<le> (if j = ?n then fires m ((?n - 1) div 2) else fires m j)"
        using o j by (cases "j = ?n") auto
    qed
    then have "hole_order (fires ?m) (?n + 1) ?n"
      by (rule hole_order_put) (simp only: at if_False)
    then show ?thesis by simp
  qed
  moreover have "only_indices m ?m"
    by (rule only_indices_trans [OF only_indices_trans [OF only_indices_put(2) only_indices_put(3)]
          only_indices_put(1)])
  moreover have "entries ?m = insert (entry_of r) (entries m)"
    unfolding entries_def using at by (auto simp: lessThan_Suc)
  moreover have "req_slot r = entry_slot (heap_at ?m ?n)" unfolding at by (simp add: entry_of_def)
  ultimately show ?thesis
    using heap_ok_settle [OF ok, of ?m ?n "req_slot r"] unfolding eq by simp
qed

lemma heap_set_update:
  assumes ok: "heap_ok m" and old: "has_entry m (req_slot r)"
  shows "heap_ok (heap_set r m) \<and> only_indices m (heap_set r m) \<and>
    size_of (heap_set r m) = size_of m \<and>
    entries (heap_set r m) = insert (entry_of r) {e \<in> entries m. entry_slot e \<noteq> req_slot r}"
proof -
  have hi: "heap_index m" and ho: "heap_order (fires m) (size_of m)" using ok by (auto simp: heap_ok_def)
  note D = heap_indexD [OF hi]
  let ?i = "unat (index_at m (req_slot r))"
  let ?m = "put_entry ?i (entry_of r) m"
  have i: "?i < size_of m" "entry_slot (heap_at m ?i) = req_slot r"
    using old unfolding listed_slot [OF hi] by auto
  have eq: "heap_set r m = settle (req_slot r) ?i ?m"
    using i by (simp add: heap_set_def settle_def Let_def entry_of_def)
  have at: "heap_at ?m j = (if j = ?i then entry_of r else heap_at m j)" for j
    using i(1) D(1) by simp
  have slot: "entry_slot (heap_at ?m j) = entry_slot (heap_at m j)" for j
    unfolding at using i(2) by (simp add: entry_of_def)
  have "heap_index ?m"
    unfolding heap_index_def slot using D(1-4) by simp
  moreover have "hole_order (fires ?m) (size_of m) ?i"
    by (rule hole_order_put [OF ho]) (simp only: at if_False)
  moreover have "entries ?m = insert (entry_of r) {e \<in> entries m. entry_slot e \<noteq> req_slot r}"
  proof -
    have "entry_slot (heap_at m j) \<noteq> req_slot r \<longleftrightarrow> j \<noteq> ?i" if "j < size_of m" for j
      using heap_slots_distinct [OF hi that i(1)] i(2) by auto
    then have "{e \<in> entries m. entry_slot e \<noteq> req_slot r} = heap_at m ` ({..<size_of m} - {?i})"
      unfolding entries_def by auto
    moreover have "entries ?m = insert (heap_at ?m ?i) (heap_at ?m ` ({..<size_of m} - {?i}))"
      unfolding entries_def put_size_of using i(1) by blast
    moreover have "heap_at ?m ` ({..<size_of m} - {?i}) = heap_at m ` ({..<size_of m} - {?i})"
      by (rule image_cong) (simp_all only: at Diff_iff singleton_iff if_False)
    ultimately show ?thesis by (simp only: at) simp
  qed
  moreover have "req_slot r = entry_slot (heap_at ?m ?i)" by (simp only: slot i(2))
  ultimately show ?thesis
    using heap_ok_settle [OF ok only_indices_put(1), of ?i "entry_of r" ?i "req_slot r"] i(1)
    unfolding eq by simp
qed

lemma heap_set_full:
  assumes "heap_index m" and "\<not> has_entry m (req_slot r)" and "unat (wd_capacity (fst m)) \<le> size_of m"
  shows "heap_set r m = m"
  using assms(2,3) unfolding listed_slot [OF assms(1)] by (auto simp: heap_set_def Let_def)

text \<open>Taking off an entry drops its index and shortens the heap; the rest is to put the last entry into the
  hole.\<close>

definition shortened :: "nat \<Rightarrow> watch_mem \<Rightarrow> watch_mem" where
  "shortened i m = put_size (size_of m - 1) (put_index (entry_slot (heap_at m i)) SIZE_MAX m)"

lemma shortened_fields:
  assumes "heap_index m" and i: "i < size_of m"
  shows "only_indices m (shortened i m)" "heap_at (shortened i m) j = heap_at m j"
    "size_of (shortened i m) = size_of m - 1"
    "index_at (shortened i m) s = (if s = entry_slot (heap_at m i) then SIZE_MAX else index_at m s)"
    "length (heap (fst (shortened i m))) = length (heap (fst m))"
    "length (slots (snd (shortened i m))) = length (slots (snd m))"
    "wd_capacity (fst (shortened i m)) = wd_capacity (fst m)"
proof -
  show "only_indices m (shortened i m)" unfolding shortened_def
    by (rule only_indices_trans [OF only_indices_put(3) only_indices_put(2)])
  show "wd_capacity (fst (shortened i m)) = wd_capacity (fst m)"
    by (simp add: shortened_def put_size_def put_index_def)
qed (use heap_indexD(3) [OF assms] in \<open>simp_all add: shortened_def\<close>)

lemma entries_without:
  assumes hi: "heap_index m" and i: "i < size_of m"
  shows "j < size_of m \<Longrightarrow> j \<noteq> i \<Longrightarrow> entry_slot (heap_at m j) \<noteq> entry_slot (heap_at m i)"
    and "entries m - {heap_at m i} = heap_at m ` ({..<size_of m} - {i})"
proof -
  show other: "entry_slot (heap_at m j) \<noteq> entry_slot (heap_at m i)" if "j < size_of m" "j \<noteq> i" for j
    using heap_slots_distinct [OF hi that(1) i] that(2) by blast
  show "entries m - {heap_at m i} = heap_at m ` ({..<size_of m} - {i})"
    using other i unfolding entries_def by auto metis
qed

lemma heap_remove_last:
  assumes ok: "heap_ok m" and i: "i < size_of m" "i = size_of m - 1"
  shows "heap_ok (heap_remove i m) \<and> only_indices m (heap_remove i m) \<and>
    size_of (heap_remove i m) = size_of m - 1 \<and> entries (heap_remove i m) = entries m - {heap_at m i}"
proof -
  have hi: "heap_index m" and ho: "heap_order (fires m) (size_of m)" using ok by (auto simp: heap_ok_def)
  note D = heap_indexD [OF hi] and S = shortened_fields [OF hi i(1)] and E = entries_without [OF hi i(1)]
  have eq: "heap_remove i m = shortened i m" using i(2) by (simp add: heap_remove_def shortened_def Let_def)
  have "heap_index (shortened i m)"
    unfolding heap_index_def S(2-4) using D(1-4) E(1) i(2) S(5,6) by auto
  moreover have "{..<size_of m} - {i} = {..<size_of m - 1}" using i by auto
  moreover have "heap_order (fires m) (size_of m - 1)" using ho by (auto simp: heap_order_def)
  ultimately show ?thesis
    using S(1,5,7) ok E(2) unfolding eq heap_ok_def entries_def S(3) by (simp add: S(2))
qed

lemma heap_remove_inner:
  assumes ok: "heap_ok m" and ilt: "i < size_of m - 1"
  shows "heap_ok (heap_remove i m) \<and> only_indices m (heap_remove i m) \<and>
    size_of (heap_remove i m) = size_of m - 1 \<and> entries (heap_remove i m) = entries m - {heap_at m i}"
proof -
  have hi: "heap_index m" and ho: "heap_order (fires m) (size_of m)" using ok by (auto simp: heap_ok_def)
  let ?n = "size_of m - 1"
  let ?moved = "entry_slot (heap_at m ?n)"
  have i: "i < size_of m" and nlt: "?n < size_of m" "?n \<noteq> i" using ilt by auto
  note D = heap_indexD [OF hi] and S = shortened_fields [OF hi i] and E = entries_without [OF hi i]
  define m3 where "m3 = put_index ?moved (of_nat i) (put_entry i (heap_at m ?n) (shortened i m))"
  have len: "i < length (heap (fst (shortened i m)))" using i D(1) by (simp add: S(5))
  have at3: "heap_at m3 j = (if j = i then heap_at m ?n else heap_at m j)" for j
    using len by (simp add: m3_def S(2))
  have "heap_at (put_entry i (heap_at m ?n) (shortened i m)) i = heap_at m ?n" using len by simp
  then have eq: "heap_remove i m = settle ?moved i m3"
    unfolding heap_remove_def Let_def shortened_def [symmetric] S(2,3) settle_def m3_def
    using nlt(2) by simp
  have idx3: "index_at m3 s = (if s = ?moved then of_nat i else index_at (shortened i m) s)" for s
    using D(3) [OF nlt(1)] by (simp add: m3_def S(6))
  have size3: "size_of m3 = ?n" by (simp add: m3_def S(3))
  have lens: "length (heap (fst m3)) = length (heap (fst m))" "length (slots (snd m3)) = length (slots (snd m))"
    by (simp_all add: m3_def S(5,6))
  have distinct: "entry_slot (heap_at m j) \<noteq> ?moved" if "j < ?n" for j
    using heap_slots_distinct [OF hi _ nlt(1), of j] that by fastforce
  have "heap_index m3"
    unfolding heap_index_def at3 idx3 S(4) size3 lens
    using D(1-4) nlt E(1) distinct by (auto simp: not_less)
  moreover have "hole_order (fires m3) ?n i"
  proof (rule hole_order_put)
    show "heap_order (fires m) ?n" using ho by (auto simp: heap_order_def)
  qed (simp only: at3 if_False)
  moreover have "only_indices m m3" unfolding m3_def
    by (rule only_indices_trans [OF only_indices_trans [OF S(1) only_indices_put(1)] only_indices_put(3)])
  moreover have "entries m3 = entries m - {heap_at m i}"
  proof -
    have "heap_at m3 ` {..<?n} = insert (heap_at m ?n) (heap_at m ` ({..<?n} - {i}))"
      using ilt by (auto simp: at3 image_iff)
    also have "\<dots> = heap_at m ` insert ?n ({..<?n} - {i})" by simp
    also have "insert ?n ({..<?n} - {i}) = {..<size_of m} - {i}" using nlt by auto
    finally show ?thesis unfolding E(2) by (simp add: entries_def size3)
  qed
  moreover have "?moved = entry_slot (heap_at m3 i)" by (simp add: at3)
  ultimately show ?thesis
    using heap_ok_settle [OF ok, of m3 i ?moved] ilt unfolding eq by (simp add: size3)
qed

lemma heap_remove_ok:
  assumes "heap_ok m" and "i < size_of m"
  shows "heap_ok (heap_remove i m) \<and> only_indices m (heap_remove i m) \<and>
    size_of (heap_remove i m) = size_of m - 1 \<and> entries (heap_remove i m) = entries m - {heap_at m i}"
  using heap_remove_last [OF assms] heap_remove_inner [OF assms(1), of i] assms(2) by linarith

lemma heap_root_least:
  assumes "heap_ok m" and "e \<in> entries m"
  shows "fires m 0 \<le> entry_fire_at e"
proof -
  have ho: "heap_order (fires m) (size_of m)" using assms(1) by (simp add: heap_ok_def)
  have "fires m 0 \<le> fires m i" if "i < size_of m" for i
    using that
  proof (induction i rule: less_induct)
    case (less i)
    show ?case
    proof (cases "i = 0")
      case False
      then have "(i - 1) div 2 < i" by (intro parent_less) simp
      then have "fires m 0 \<le> fires m ((i - 1) div 2)" using less by simp
      also have "\<dots> \<le> fires m i" using ho less.prems False by (simp add: heap_order_def)
      finally show ?thesis .
    qed simp
  qed
  then show ?thesis using assms(2) by (auto simp: entries_def)
qed

text \<open>Entries have distinct slots, so a heap as large as the ring has room for a slot it lacks.\<close>

lemma heap_has_room:
  assumes "heap_index m" and "slot < length (slots (snd m))" "\<not> has_entry m slot"
  shows "size_of m < length (slots (snd m))"
proof -
  let ?f = "\<lambda>i. entry_slot (heap_at m i)"
  have "inj_on ?f {..<size_of m}"
    using heap_slots_distinct [OF assms(1)] by (auto intro: inj_onI)
  then have "size_of m = card (?f ` {..<size_of m})" by (simp add: card_image)
  also have "\<dots> \<le> card ({..<length (slots (snd m))} - {slot})"
    using heap_indexD(3) [OF assms(1)] assms(3)
    by (intro card_mono) (auto simp: has_entry_def entries_def)
  also have "\<dots> < length (slots (snd m))" using assms(2) by simp
  finally show ?thesis .
qed

end
