(* ===== verification/Watchdog_Ring.thy ===== *)
theory Watchdog_Ring
  imports Watchdog_Heap Interfaces
begin

text \<open>
  The watchdog's request ring (watchdog.c, esrb_watchdog_init to esrb_watchdog_arm): callbacks
  arm a slot by putting a request in a bounded ring, the watchdog thread pops the requests in order.
  Arming loops over a compare-and-exchange, so it is a step machine as the functions of
  \<open>Queue_Model\<close>; a pop is the watchdog thread's alone. Run alone, the two ends form a \<open>channel\<close> in
  the sense of \<open>Interfaces\<close>.
\<close>

section \<open>Initialisation and disposal\<close>

text \<open>The zeroed cells of \<open>calloc\<close>. Their slot pointer, NULL, is written before it is read.\<close>

definition zero_request :: esrb_watchdog_request where
  "zero_request = \<lparr>req_sequence = 0, req_slot = 0, req_position = 0, req_fire_at = 0\<rparr>"

definition zero_entry :: esrb_watchdog_entry where
  "zero_entry = \<lparr>entry_slot = 0, entry_position = 0, entry_fire_at = 0\<rparr>"

text \<open>
  The two bools \<open>got_requests\<close> and \<open>got_heap\<close> say whether \<open>calloc\<close> returned memory, the next two
  whether \<open>pthread_mutex_init\<close> and \<open>pthread_cond_init\<close> returned 0. A NULL array is \<open>[]\<close>.
\<close>

definition esrb_watchdog_init ::
    "bool \<Rightarrow> bool \<Rightarrow> bool \<Rightarrow> bool \<Rightarrow> esrb_watchdog \<Rightarrow> size_t \<Rightarrow> bool \<times> esrb_watchdog" where
  "esrb_watchdog_init got_requests got_heap mutex_ok condition_ok watchdog n =
     (let watchdog = watchdog\<lparr>wd_capacity := n, wd_mask := n - 1, heap_size := 0,
            requests := (if got_requests then replicate (unat n) zero_request else []),
            heap := (if got_heap then replicate (unat n) zero_entry else [])\<rparr>
      in if \<not> got_requests \<or> \<not> got_heap then (False, watchdog\<lparr>requests := [], heap := []\<rparr>)
         else let watchdog = watchdog\<lparr>wd_enqueue_position := 0, wd_dequeue_position := 0,
                requests := map (\<lambda>(index, r). r\<lparr>req_sequence := of_nat index\<rparr>)
                  (enumerate 0 (requests watchdog))\<rparr>
         in if \<not> mutex_ok then (False, watchdog\<lparr>requests := [], heap := []\<rparr>)
            else let watchdog = watchdog\<lparr>mutex_live := True\<rparr>
            in if \<not> condition_ok
               then (False, watchdog\<lparr>mutex_live := False, requests := [], heap := []\<rparr>)
               else (True, watchdog\<lparr>condition_live := True\<rparr>))"

definition esrb_watchdog_destroy :: "esrb_watchdog \<Rightarrow> esrb_watchdog" where
  "esrb_watchdog_destroy watchdog =
     (if requests watchdog = [] then watchdog
      else watchdog\<lparr>condition_live := False, mutex_live := False, requests := [], heap := []\<rparr>)"

definition esrb_watchdog_abandon :: "esrb_watchdog \<Rightarrow> esrb_watchdog" where
  "esrb_watchdog_abandon watchdog = watchdog\<lparr>requests := [], heap := []\<rparr>"

section \<open>Arming\<close>

definition request_of :: "esrb_watchdog \<Rightarrow> size_t \<Rightarrow> nat" where
  "request_of watchdog position = unat (position AND wd_mask watchdog)"

definition request_at :: "esrb_watchdog \<Rightarrow> nat \<Rightarrow> esrb_watchdog_request" where
  "request_at watchdog i = requests watchdog ! i"

definition set_request ::
    "nat \<Rightarrow> (esrb_watchdog_request \<Rightarrow> esrb_watchdog_request) \<Rightarrow> esrb_watchdog \<Rightarrow> esrb_watchdog" where
  "set_request i f watchdog =
     watchdog\<lparr>requests := (requests watchdog)[i := f (requests watchdog ! i)]\<rparr>"

datatype arm_pc =
    Arm_Load
  | Arm_Check size_t
  | Arm_Cas size_t
  | Arm_Write size_t
  | Arm_Publish size_t
  | Arm_Return bool

text \<open>
  \<open>slot\<close> is the slot pointer and \<open>s\<close> the slot it points to, which the arming callback owns.
  \<open>Arm_Write\<close> is the three plain stores into the claimed request.
\<close>

fun arm_step :: "bool \<Rightarrow> nat \<Rightarrow> esrb_slot \<Rightarrow> arm_pc \<Rightarrow> esrb_watchdog \<Rightarrow> arm_pc \<times> esrb_watchdog" where
  "arm_step spurious slot s Arm_Load watchdog = (Arm_Check (wd_enqueue_position watchdog), watchdog)"
| "arm_step spurious slot s (Arm_Check position) watchdog =
     (let difference =
            intptr_difference (req_sequence (request_at watchdog (request_of watchdog position))) position
      in if difference = 0 then (Arm_Cas position, watchdog)
         else if difference < 0 then (Arm_Return False, watchdog)
         else (Arm_Load, watchdog))"
| "arm_step spurious slot s (Arm_Cas position) watchdog =
     (if \<not> spurious \<and> wd_enqueue_position watchdog = position
      then (Arm_Write position, watchdog\<lparr>wd_enqueue_position := position + 1\<rparr>)
      else (Arm_Check (wd_enqueue_position watchdog), watchdog))"
| "arm_step spurious slot s (Arm_Write position) watchdog =
     (Arm_Publish position, set_request (request_of watchdog position)
        (\<lambda>r. r\<lparr>req_slot := slot, req_position := slot_position s, req_fire_at := slot_fire_at s\<rparr>) watchdog)"
| "arm_step spurious slot s (Arm_Publish position) watchdog =
     (Arm_Return True, set_request (request_of watchdog position)
        (\<lambda>r. r\<lparr>req_sequence := position + 1\<rparr>) watchdog)"
| "arm_step spurious slot s (Arm_Return r) watchdog = (Arm_Return r, watchdog)"

fun arm_done :: "arm_pc \<Rightarrow> bool option" where
  "arm_done (Arm_Return r) = Some r"
| "arm_done _ = None"

definition esrb_watchdog_arm ::
    "esrb_watchdog \<Rightarrow> nat \<Rightarrow> esrb_slot \<Rightarrow> (bool \<times> esrb_watchdog) option" where
  "esrb_watchdog_arm watchdog slot s = run_steps (arm_step False slot s) arm_done Arm_Load watchdog"

section \<open>Popping\<close>

text \<open>\<open>request_pop\<close>: \<open>None\<close> is false. The request returned is the caller's local with three fields
  copied; its \<open>sequence\<close>, which nobody reads, is 0 here.\<close>

definition request_pop :: "esrb_watchdog \<Rightarrow> esrb_watchdog_request option \<times> esrb_watchdog" where
  "request_pop watchdog =
     (let position = wd_dequeue_position watchdog;
          i = request_of watchdog position;
          request = request_at watchdog i
      in if req_sequence request \<noteq> position + 1 then (None, watchdog)
         else (Some (zero_request\<lparr>req_slot := req_slot request, req_position := req_position request,
                 req_fire_at := req_fire_at request\<rparr>),
               set_request i (\<lambda>r. r\<lparr>req_sequence := position + wd_capacity watchdog\<rparr>)
                 (watchdog\<lparr>wd_dequeue_position := position + 1\<rparr>)))"

section \<open>The ring of requests\<close>

lemma request_at_set [simp]:
  "i < length (requests w) \<Longrightarrow>
    request_at (set_request i f w) j = (if i = j then f (request_at w i) else request_at w j)"
  by (simp add: request_at_def set_request_def nth_list_update_cases)

lemma set_request_fields [simp]:
  "wd_capacity (set_request i f w) = wd_capacity w" "wd_mask (set_request i f w) = wd_mask w"
  "wd_enqueue_position (set_request i f w) = wd_enqueue_position w"
  "wd_dequeue_position (set_request i f w) = wd_dequeue_position w"
  "heap (set_request i f w) = heap w" "heap_size (set_request i f w) = heap_size w"
  "mutex_live (set_request i f w) = mutex_live w" "condition_live (set_request i f w) = condition_live w"
  "length (requests (set_request i f w)) = length (requests w)"
  by (simp_all add: set_request_def)

text \<open>\<open>e\<close> requests have been put and \<open>d\<close> popped; no arming is under way.\<close>

definition request_ring :: "nat \<Rightarrow> nat \<Rightarrow> nat \<Rightarrow> esrb_watchdog \<Rightarrow> bool" where
  "request_ring k e d w \<longleftrightarrow>
     1 \<le> k \<and> k \<le> 62 \<and> wd_capacity w = 2 ^ k \<and> wd_mask w = 2 ^ k - 1 \<and> length (requests w) = 2 ^ k \<and>
     wd_enqueue_position w = of_nat e \<and> wd_dequeue_position w = of_nat d \<and> d \<le> e \<and> e \<le> d + 2 ^ k \<and>
     (\<forall>p. d \<le> p \<and> p < d + 2 ^ k \<longrightarrow> req_sequence (request_at w (p mod 2 ^ k)) =
        (if p < e then of_nat p + 1 else of_nat p))"

lemma request_ringD:
  assumes "request_ring k e d w"
  shows "1 \<le> k" "k \<le> 62" "wd_capacity w = 2 ^ k" "wd_mask w = 2 ^ k - 1" "length (requests w) = 2 ^ k"
    and "wd_enqueue_position w = of_nat e" "wd_dequeue_position w = of_nat d" "d \<le> e" "e \<le> d + 2 ^ k"
    and "d \<le> p \<Longrightarrow> p < d + 2 ^ k \<Longrightarrow> req_sequence (request_at w (p mod 2 ^ k)) =
        (if p < e then of_nat p + 1 else of_nat p)"
    and "2 \<le> (2::nat) ^ k" "(2::nat) ^ k < 2 ^ 63"
    and "request_of w (of_nat p) = p mod 2 ^ k" "p mod 2 ^ k < length (requests w)"
proof -
  have "(2::nat) ^ 1 \<le> 2 ^ k" if "1 \<le> k" using that by (intro power_increasing) auto
  moreover have "(2::nat) ^ k < 2 ^ 63" if "k \<le> 62" using that by (intro power_strict_increasing) auto
  ultimately show "1 \<le> k" "k \<le> 62" "wd_capacity w = 2 ^ k" "wd_mask w = 2 ^ k - 1" "length (requests w) = 2 ^ k"
    "wd_enqueue_position w = of_nat e" "wd_dequeue_position w = of_nat d" "d \<le> e" "e \<le> d + 2 ^ k"
    "d \<le> p \<Longrightarrow> p < d + 2 ^ k \<Longrightarrow> req_sequence (request_at w (p mod 2 ^ k)) =
        (if p < e then of_nat p + 1 else of_nat p)"
    "2 \<le> (2::nat) ^ k" "(2::nat) ^ k < 2 ^ 63"
    "request_of w (of_nat p) = p mod 2 ^ k" "p mod 2 ^ k < length (requests w)"
    using assms by (auto simp: request_ring_def request_of_def slot_of_nat)
qed

definition request_entry :: "esrb_watchdog_request \<Rightarrow> esrb_watchdog_entry" where
  "request_entry r = \<lparr>entry_slot = req_slot r, entry_position = req_position r,
     entry_fire_at = req_fire_at r\<rparr>"

definition pending_requests :: "esrb_watchdog \<Rightarrow> esrb_watchdog_entry list" where
  "pending_requests w = map (\<lambda>i. request_entry
       (request_at w (request_of w (wd_dequeue_position w + of_nat i))))
     [0..<unat (wd_enqueue_position w - wd_dequeue_position w)]"

lemma pending_requests_ring:
  assumes r: "request_ring k e d w"
  shows "pending_requests w = map (\<lambda>p. request_entry (request_at w (p mod 2 ^ k))) [d..<e]"
proof -
  note D = request_ringD [OF r]
  have "wd_enqueue_position w - wd_dequeue_position w = of_nat (e - d)"
    using D(8) by (simp add: D(6,7) of_nat_diff)
  moreover have "e - d < 2 ^ 64" using D(9,12) by simp
  ultimately have "unat (wd_enqueue_position w - wd_dequeue_position w) = e - d"
    by (simp add: unat_of_nat)
  then have "pending_requests w =
      map (\<lambda>i. request_entry (request_at w ((d + i) mod 2 ^ k))) [0..<e - d]"
    by (simp add: pending_requests_def D(7,13) flip: of_nat_add)
  also have "\<dots> = map (\<lambda>p. request_entry (request_at w (p mod 2 ^ k))) (map (\<lambda>i. i + d) [0..<e - d])"
    by (simp add: add.commute)
  also have "map (\<lambda>i. i + d) [0..<e - d] = [d..<e]"
    using D(8) map_add_upt [of d "e - d"] by (simp add: add.commute)
  finally show ?thesis .
qed

section \<open>The ring as a channel\<close>

lemma arm_room:
  assumes r: "request_ring k e d w" and room: "e < d + 2 ^ k"
  shows "\<exists>w'. esrb_watchdog_arm w slot s = Some (True, w') \<and> request_ring k (Suc e) d w' \<and>
    pending_requests w' = pending_requests w @
      [\<lparr>entry_slot = slot, entry_position = slot_position s, entry_fire_at = slot_fire_at s\<rparr>] \<and>
    heap w' = heap w \<and> heap_size w' = heap_size w \<and> wd_capacity w' = wd_capacity w"
proof -
  note D = request_ringD [OF r]
  let ?i = "e mod 2 ^ k"
  let ?f = "\<lambda>r. r\<lparr>req_slot := slot, req_position := slot_position s, req_fire_at := slot_fire_at s\<rparr>"
  let ?w1 = "w\<lparr>wd_enqueue_position := of_nat e + 1\<rparr>"
  let ?w' = "set_request ?i (\<lambda>r. r\<lparr>req_sequence := of_nat e + 1\<rparr>) (set_request ?i ?f ?w1)"
  have seq: "req_sequence (request_at w ?i) = of_nat e" using D(10) [of e] D(8) room by simp
  have i: "request_of w' (of_nat e) = ?i" if "wd_mask w' = wd_mask w" for w'
    using D(13) [of e] that by (simp add: request_of_def)
  have len: "?i < length (requests w)" by (rule D(14))
  have "arm_step False slot s Arm_Load w = (Arm_Check (of_nat e), w)" by (simp add: D(6))
  moreover have "arm_step False slot s (Arm_Check (of_nat e)) w = (Arm_Cas (of_nat e), w)"
    by (simp add: i seq)
  moreover have "arm_step False slot s (Arm_Cas (of_nat e)) w = (Arm_Write (of_nat e), ?w1)"
    by (simp add: D(6))
  moreover have "arm_step False slot s (Arm_Write (of_nat e)) ?w1 =
      (Arm_Publish (of_nat e), set_request ?i ?f ?w1)" by (simp add: i)
  moreover have "arm_step False slot s (Arm_Publish (of_nat e)) (set_request ?i ?f ?w1) =
      (Arm_Return True, ?w')" by (simp add: i)
  ultimately have run: "esrb_watchdog_arm w slot s = Some (True, ?w')"
    unfolding esrb_watchdog_arm_def by (simp add: run_steps_step run_steps_done del: arm_step.simps)
  have at: "request_at ?w' j = (if j = ?i then (?f (request_at w ?i))\<lparr>req_sequence := of_nat e + 1\<rparr>
      else request_at w j)" for j
    using len by (simp add: request_at_def set_request_def nth_list_update_cases)
  have other: "p mod 2 ^ k \<noteq> ?i" if "d \<le> p" "p < d + 2 ^ k" "p \<noteq> e" for p
    using window_inj [of d p "2 ^ k" e] that D(8) room by auto
  have r': "request_ring k (Suc e) d ?w'"
    unfolding request_ring_def
  proof (intro conjI allI impI)
    fix p assume p: "d \<le> p \<and> p < d + 2 ^ k"
    show "req_sequence (request_at ?w' (p mod 2 ^ k)) = (if p < Suc e then of_nat p + 1 else of_nat p)"
      using D(10) [of p] p other [of p] by (cases "p = e") (simp_all add: at)
  qed (use D room in \<open>simp_all add: of_nat_Suc\<close>)
  have "request_at ?w' (p mod 2 ^ k) = request_at w (p mod 2 ^ k)" if "d \<le> p" "p < e" for p
    using other [of p] that D(9) by (simp add: at)
  then have "pending_requests ?w' = pending_requests w @
      [\<lparr>entry_slot = slot, entry_position = slot_position s, entry_fire_at = slot_fire_at s\<rparr>]"
    using D(8) by (simp add: pending_requests_ring [OF r] pending_requests_ring [OF r'] at request_entry_def)
  then show ?thesis using run r' by (intro exI [of _ ?w']) simp
qed

lemma arm_full:
  assumes r: "request_ring k e d w" and full: "e = d + 2 ^ k"
  shows "esrb_watchdog_arm w slot s = Some (False, w)"
proof -
  note D = request_ringD [OF r]
  have "req_sequence (request_at w (e mod 2 ^ k)) = of_nat (Suc d)"
    using D(10) [of d] D(11) full by simp
  moreover have "intptr_difference (of_nat (Suc d)) (of_nat e) = int (Suc d) - int e"
    using full D(11,12) by (intro intptr_difference_of_nat) simp_all
  moreover have "Suc d < e" using full D(11) by linarith
  then have "int (Suc d) - int e < 0" by simp
  ultimately have "arm_step False slot s (Arm_Check (of_nat e)) w = (Arm_Return False, w)"
    by (simp add: D(13) Let_def)
  moreover have "arm_step False slot s Arm_Load w = (Arm_Check (of_nat e), w)" by (simp add: D(6))
  ultimately show ?thesis
    unfolding esrb_watchdog_arm_def by (simp add: run_steps_step run_steps_done del: arm_step.simps)
qed

lemma pop_none:
  assumes r: "request_ring k e e w"
  shows "request_pop w = (None, w)"
proof -
  note D = request_ringD [OF r]
  have "req_sequence (request_at w (e mod 2 ^ k)) = of_nat e" using D(10) [of e] by simp
  then show ?thesis by (simp add: request_pop_def Let_def D(7,13))
qed

lemma pop_some:
  assumes r: "request_ring k e d w" and some: "d < e"
  shows "\<exists>r w'. request_pop w = (Some r, w') \<and> request_ring k e (Suc d) w' \<and>
    pending_requests w = request_entry r # pending_requests w' \<and>
    heap w' = heap w \<and> heap_size w' = heap_size w"
proof -
  note D = request_ringD [OF r]
  let ?i = "d mod 2 ^ k"
  let ?r = "zero_request\<lparr>req_slot := req_slot (request_at w ?i),
    req_position := req_position (request_at w ?i), req_fire_at := req_fire_at (request_at w ?i)\<rparr>"
  let ?w' = "set_request ?i (\<lambda>r. r\<lparr>req_sequence := of_nat d + 2 ^ k\<rparr>)
    (w\<lparr>wd_dequeue_position := of_nat d + 1\<rparr>)"
  have len: "?i < length (requests w)" by (rule D(14))
  have "req_sequence (request_at w ?i) = of_nat d + 1" using D(10) [of d] some by simp
  then have pop: "request_pop w = (Some ?r, ?w')"
    by (simp add: request_pop_def Let_def D(7,13,3))
  have at: "request_at ?w' j = (if j = ?i then (request_at w ?i)\<lparr>req_sequence := of_nat d + 2 ^ k\<rparr>
      else request_at w j)" for j
    using len by (simp add: request_at_def set_request_def nth_list_update_cases)
  have other: "p mod 2 ^ k \<noteq> ?i" if "Suc d \<le> p" "p < d + 2 ^ k" for p
    using window_inj [of d p "2 ^ k" d] that by auto
  have r': "request_ring k e (Suc d) ?w'"
    unfolding request_ring_def
  proof (intro conjI allI impI)
    fix p assume p: "Suc d \<le> p \<and> p < Suc d + 2 ^ k"
    show "req_sequence (request_at ?w' (p mod 2 ^ k)) = (if p < e then of_nat p + 1 else of_nat p)"
    proof (cases "p = d + 2 ^ k")
      case True
      then show ?thesis using D(9) by (simp add: at)
    next
      case False
      then show ?thesis using D(10) [of p] other [of p] p by (simp add: at)
    qed
  qed (use D some in \<open>simp_all add: of_nat_Suc\<close>)
  have "request_entry (request_at ?w' (p mod 2 ^ k)) = request_entry (request_at w (p mod 2 ^ k))" for p
    by (simp add: at request_entry_def)
  moreover have "request_entry ?r = request_entry (request_at w ?i)" by (simp add: request_entry_def)
  ultimately have "pending_requests w = request_entry ?r # pending_requests ?w'"
    using some by (simp add: pending_requests_ring [OF r] pending_requests_ring [OF r'] upt_conv_Cons)
  then show ?thesis using pop r' by (intro exI [of _ ?r] exI [of _ ?w']) simp
qed

definition valid_requests :: "esrb_watchdog \<Rightarrow> bool" where
  "valid_requests w \<longleftrightarrow> (\<exists>k e d. request_ring k e d w)"

lemma valid_requestsI: "request_ring k e d w \<Longrightarrow> valid_requests w"
  unfolding valid_requests_def by blast

text \<open>The two ends with the entry they carry, as the channel interface has them.\<close>

definition take_request :: "esrb_watchdog \<Rightarrow> (esrb_watchdog_entry option \<times> esrb_watchdog) option" where
  "take_request w = Some (map_option request_entry (fst (request_pop w)), snd (request_pop w))"

definition put_request :: "esrb_watchdog_entry \<Rightarrow> esrb_watchdog \<Rightarrow> (bool \<times> esrb_watchdog) option" where
  "put_request x w = esrb_watchdog_arm w (entry_slot x)
     (calloc_slot\<lparr>slot_position := entry_position x, slot_fire_at := entry_fire_at x\<rparr>)"

lemma pending_length:
  assumes "request_ring k e d w"
  shows "length (pending_requests w) = e - d" and "unat (wd_capacity w) = 2 ^ k"
  using request_ringD(2,3) [OF assms] unat_pow2 [of k] by (simp_all add: pending_requests_ring [OF assms])

interpretation request_channel: channel take_request valid_requests pending_requests put_request
  "\<lambda>w. unat (wd_capacity w)"
proof unfold_locales
  fix w assume "valid_requests w" and none: "pending_requests w = []"
  then obtain k e d where r: "request_ring k e d w" by (auto simp: valid_requests_def)
  then have "d = e" using none request_ringD(8) [OF r] by (auto simp: pending_requests_ring [OF r])
  then show "take_request w = Some (None, w)" using pop_none r by (simp add: take_request_def)
next
  fix w x xs assume "valid_requests w" and cons: "pending_requests w = x # xs"
  then obtain k e d where r: "request_ring k e d w" by (auto simp: valid_requests_def)
  have "d < e" using cons by (cases "d < e") (simp_all add: pending_requests_ring [OF r])
  then show "\<exists>w'. take_request w = Some (Some x, w') \<and> valid_requests w' \<and> pending_requests w' = xs"
    using pop_some [OF r] cons by (auto simp: take_request_def intro: valid_requestsI)
next
  fix w x assume "valid_requests w" and room: "length (pending_requests w) < unat (wd_capacity w)"
  then obtain k e d where r: "request_ring k e d w" by (auto simp: valid_requests_def)
  obtain w' where w': "put_request x w = Some (True, w')" "request_ring k (Suc e) d w'"
      "pending_requests w' = pending_requests w @ [x]"
    using arm_room [OF r, of "entry_slot x"] room pending_length [OF r]
    unfolding put_request_def by (fastforce simp: calloc_slot_def)
  then show "\<exists>w'. put_request x w = Some (True, w') \<and> valid_requests w' \<and>
      pending_requests w' = pending_requests w @ [x] \<and> unat (wd_capacity w') = unat (wd_capacity w)"
    using pending_length(2) [OF r] pending_length(2) [OF w'(2)] by (auto simp: valid_requests_def)
next
  fix w x assume "valid_requests w" and full: "unat (wd_capacity w) \<le> length (pending_requests w)"
  then obtain k e d where r: "request_ring k e d w" by (auto simp: valid_requests_def)
  have "e = d + 2 ^ k" using full pending_length [OF r] request_ringD(8,9) [OF r] by simp
  then show "put_request x w = Some (False, w)" using arm_full [OF r] by (simp add: put_request_def)
next
  fix w r w' assume "valid_requests w" "take_request w = Some (r, w')"
  then show "unat (wd_capacity w') = unat (wd_capacity w)"
    by (auto simp: take_request_def request_pop_def Let_def)
qed

end
