(* ===== verification/Ruby_Values.thy ===== *)
theory Ruby_Values
  imports Complex_Main Es_Prelude
begin

text \<open>
  The part of Ruby's C API the extension uses on values: a datatype of the values it builds or takes
  apart, exceptions as values of a sum type, and the numeric conversions with their range checks on a
  platform with 64-bit \<open>long\<close> (\<open>rb_num2int\<close>, \<open>rb_num2uint\<close>, \<open>rb_num2long\<close>, \<open>rb_num2ulong\<close>: the
  unsigned ones accept negative integers and wrap them).
\<close>

section \<open>Values and exceptions\<close>

text \<open>A C double: a finite one is a real number.\<close>

datatype c_double = Finite real | Infinite bool | Not_a_number

datatype ruby_value =
    Qnil
  | Qtrue
  | Qfalse
  | RInt int
  | RFloat c_double
  | RSym string
  | RStr string
  | RArr "ruby_value list"
  | RHash "(string \<times> ruby_value) list"
  | RObject string "ruby_value list"

text \<open>Numbers in the texts of exceptions: \<open>%u\<close> and \<open>%d\<close> of printf.\<close>

fun decimal :: "nat \<Rightarrow> string" where
  "decimal n = (if n < 10 then [char_of (48 + n)] else decimal (n div 10) @ [char_of (48 + n mod 10)])"

declare decimal.simps [simp del]

definition signed_decimal :: "int \<Rightarrow> string" where
  "signed_decimal n = (if n < 0 then ''-'' @ decimal (nat (- n)) else decimal (nat n))"

text \<open>The exception class and its message.\<close>

datatype ruby_error = Raise string string

type_synonym 'a ruby = "ruby_error + 'a"

definition rtest :: "ruby_value \<Rightarrow> bool" where
  "rtest v \<longleftrightarrow> v \<noteq> Qnil \<and> v \<noteq> Qfalse"

definition ruby_bool :: "bool \<Rightarrow> ruby_value" where
  "ruby_bool b = (if b then Qtrue else Qfalse)"

fun bind_ruby :: "'a ruby \<Rightarrow> ('a \<Rightarrow> 'b ruby) \<Rightarrow> 'b ruby" where
  "bind_ruby (Inl e) f = Inl e"
| "bind_ruby (Inr x) f = f x"

lemma bind_ruby_Inr_iff: "bind_ruby r f = Inr y \<longleftrightarrow> (\<exists>x. r = Inr x \<and> f x = Inr y)"
  by (cases r) auto

fun map_ruby :: "('a \<Rightarrow> 'b ruby) \<Rightarrow> 'a list \<Rightarrow> 'b list ruby" where
  "map_ruby f [] = Inr []"
| "map_ruby f (x # xs) = bind_ruby (f x) (\<lambda>y. bind_ruby (map_ruby f xs) (\<lambda>ys. Inr (y # ys)))"

lemma map_ruby_total: "(\<And>x. x \<in> set xs \<Longrightarrow> f x = Inr (g x)) \<Longrightarrow> map_ruby f xs = Inr (map g xs)"
  by (induction xs) simp_all

lemma map_ruby_length: "map_ruby f xs = Inr ys \<Longrightarrow> length ys = length xs"
  by (induction xs arbitrary: ys) (auto simp: bind_ruby_Inr_iff)

section \<open>Hashes with symbol keys\<close>

definition hash_aref :: "(string \<times> ruby_value) list \<Rightarrow> string \<Rightarrow> ruby_value" where
  "hash_aref h k = (case map_of h k of None \<Rightarrow> Qnil | Some v \<Rightarrow> v)"

definition hash_fetch :: "(string \<times> ruby_value) list \<Rightarrow> string \<Rightarrow> ruby_value ruby" where
  "hash_fetch h k = (case map_of h k of None \<Rightarrow> Inl (Raise ''KeyError'' k) | Some v \<Rightarrow> Inr v)"

section \<open>Numeric conversions\<close>

definition in_range :: "int \<Rightarrow> int \<Rightarrow> int \<Rightarrow> int ruby" where
  "in_range lo hi n = (if lo \<le> n \<and> n \<le> hi then Inr n else Inl (Raise ''RangeError'' ''out of range''))"

fun num2 :: "int \<Rightarrow> int \<Rightarrow> ruby_value \<Rightarrow> int ruby" where
  "num2 lo hi (RInt n) = in_range lo hi n"
| "num2 lo hi (RFloat (Finite r)) = in_range lo hi (if r < 0 then \<lceil>r\<rceil> else \<lfloor>r\<rfloor>)"
| "num2 lo hi (RFloat d) = Inl (Raise ''FloatDomainError'' '''')"
| "num2 lo hi v = Inl (Raise ''TypeError'' ''no implicit conversion to integer'')"

definition num2int :: "ruby_value \<Rightarrow> int ruby" where
  "num2int = num2 (- (2 ^ 31)) (2 ^ 31 - 1)"

definition num2long :: "ruby_value \<Rightarrow> int ruby" where
  "num2long = num2 (- (2 ^ 63)) (2 ^ 63 - 1)"

definition num2uint :: "ruby_value \<Rightarrow> uint32 ruby" where
  "num2uint v = bind_ruby (num2 (- (2 ^ 31)) (2 ^ 32 - 1) v) (\<lambda>n. Inr (word_of_int n))"

definition num2ulong :: "ruby_value \<Rightarrow> uint64 ruby" where
  "num2ulong v = bind_ruby (num2 (- (2 ^ 63)) (2 ^ 64 - 1) v) (\<lambda>n. Inr (word_of_int n))"

fun num2dbl :: "ruby_value \<Rightarrow> c_double ruby" where
  "num2dbl (RFloat d) = Inr d"
| "num2dbl (RInt n) = Inr (Finite (of_int n))"
| "num2dbl v = Inl (Raise ''TypeError'' ''no implicit conversion to float'')"

text \<open>\<open>UINT2NUM\<close> and \<open>ULL2NUM\<close>.\<close>

definition uint2num :: "uint32 \<Rightarrow> ruby_value" where
  "uint2num w = RInt (uint w)"

definition ull2num :: "uint64 \<Rightarrow> ruby_value" where
  "ull2num w = RInt (uint w)"

lemma num2uint_uint2num [simp]: "num2uint (uint2num w) = Inr w"
proof -
  have "0 \<le> uint w" "uint w < 2 ^ 32" using unsigned_greater_eq [of w] unsigned_less [of w, where ?'a = int] by simp_all
  then have "- (2 ^ 31) \<le> uint w" using order_trans [of "- (2 ^ 31)" 0 "uint w"] by simp
  with \<open>uint w < 2 ^ 32\<close> show ?thesis by (simp add: num2uint_def uint2num_def in_range_def)
qed

lemma num2ulong_ull2num [simp]: "num2ulong (ull2num w) = Inr w"
proof -
  have "0 \<le> uint w" "uint w < 2 ^ 64" using unsigned_greater_eq [of w] unsigned_less [of w, where ?'a = int] by simp_all
  then have "- (2 ^ 63) \<le> uint w" using order_trans [of "- (2 ^ 63)" 0 "uint w"] by simp
  with \<open>uint w < 2 ^ 64\<close> show ?thesis by (simp add: num2ulong_def ull2num_def in_range_def)
qed

end
