(* ===== verification/Client_State.thy ===== *)
theory Client_State
  imports Watchdog_Ring Answer_Model Ruby_Values
begin

text \<open>
  The client (client.h) and what every thread does with it: sending a response and waking the Ruby
  side (client.c, esrb_send_response, esrb_notify, client_answer_slot). Calls into the Endpoint
  Security framework and the clock are not under src/: their results are a parameter, the \<open>es_host\<close>,
  which may answer a call as it likes from the whole history of calls. The history itself is the
  field \<open>trace\<close> of the client; no code reads it. The pipe is the number of bytes in it.
\<close>

section \<open>The host\<close>

abbreviation (input) "ES_RESPOND_RESULT_SUCCESS \<equiv> (0 :: int)"
abbreviation (input) "ES_NEW_CLIENT_RESULT_SUCCESS \<equiv> (0 :: int)"
abbreviation (input) "ES_NEW_CLIENT_RESULT_ERR_INTERNAL \<equiv> (2 :: int)"
abbreviation (input) "ES_RETURN_SUCCESS \<equiv> (0 :: int)"
abbreviation (input) "ES_EVENT_TYPE_AUTH_OPEN \<equiv> (1 :: int)"
abbreviation (input) "ES_EVENT_TYPE_LAST \<equiv> (157 :: nat)"

text \<open>The calls the extension makes, with the arguments it passes. \<open>Es_other\<close> is a control call of
  mute.c, by its name and arguments.\<close>

datatype es_call =
    Es_new_client
  | Es_delete_client native_client
  | Es_respond_auth_result native_client es_message es_auth_result bool
  | Es_respond_flags_result native_client es_message uint32 bool
  | Es_retain_message es_message
  | Es_release_message es_message
  | Es_subscribe native_client "int list"
  | Es_unsubscribe native_client "int list"
  | Es_unsubscribe_all native_client
  | Es_subscriptions native_client
  | Es_other native_client string "ruby_value list"
  | Mach_absolute_time

record es_host =
  host_result :: "es_call list \<Rightarrow> es_call \<Rightarrow> int"
  host_native :: "es_call list \<Rightarrow> native_client"
  host_subscriptions :: "es_call list \<Rightarrow> int list"
  host_time :: "es_call list \<Rightarrow> uint64"
  host_scale :: "uint64 \<Rightarrow> c_double \<Rightarrow> uint64"
  host_timebase :: "uint32 \<times> uint32"
  pipe_capacity :: nat

section \<open>The client\<close>

record esrb_client =
  native :: native_client
  queue :: esrb_queue
  wakeup_fd :: "int \<times> int"
  watchdog :: esrb_watchdog
  watchdog_thread_started :: bool
  watchdog_running :: bool
  watchdog_stopped :: bool
  delete_ready :: bool
  client_ready :: bool
  creation_result :: int
  notified :: bool
  closed :: bool
  active_callbacks :: uint32
  dropped :: uint64
  delivered :: uint64
  timeouts :: uint64
  response_errors :: uint64
  delete_errors :: uint64
  errors :: uint64
  seq_gaps :: uint64
  leaked_messages :: uint64
  last_global_seq :: uint64
  seen_global_seq :: bool
  last_event_seq :: "uint64 list"
  seen_event_seq :: "bool list"
  default_auth :: es_auth_result
  default_cache :: bool
  strict_cache :: bool
  strict_version :: bool
  warn_on_truncated_path :: bool
  deadline_margin :: c_double
  min_margin_ticks :: uint64
  owner_pid :: int
  pipe_bytes :: nat
  trace :: "es_call list"

text \<open>The two embedded structs as \<open>TypedData_Make_Struct\<close> leaves them, zeroed.\<close>

definition zero_queue :: esrb_queue where
  "zero_queue = \<lparr>capacity = 0, queue_mask = 0, slots = [], enqueue_position = 0,
     dequeue_position = 0, depth_max = 0\<rparr>"

definition zero_watchdog :: esrb_watchdog where
  "zero_watchdog = \<lparr>wd_capacity = 0, wd_mask = 0, requests = [], wd_enqueue_position = 0,
     wd_dequeue_position = 0, heap = [], heap_size = 0, mutex_live = False, condition_live = False\<rparr>"

definition call :: "es_call \<Rightarrow> esrb_client \<Rightarrow> esrb_client" where
  "call c s = s\<lparr>trace := trace s @ [c]\<rparr>"

definition clock :: "es_host \<Rightarrow> esrb_client \<Rightarrow> uint64 \<times> esrb_client" where
  "clock h s = (host_time h (trace s), call Mach_absolute_time s)"

section \<open>Responding and waking\<close>

definition esrb_send_response ::
    "es_host \<Rightarrow> native_client \<Rightarrow> es_message \<Rightarrow> es_auth_result \<Rightarrow> uint32 \<Rightarrow> bool \<Rightarrow> esrb_client \<Rightarrow>
      int \<times> esrb_client" where
  "esrb_send_response h native_client message result flags cache s =
     (let c = (if msg_event_type message = ES_EVENT_TYPE_AUTH_OPEN
            then Es_respond_flags_result native_client message flags cache
            else Es_respond_auth_result native_client message result cache);
          response = host_result h (trace s) c;
          s = call c s
      in (response, if response \<noteq> ES_RESPOND_RESULT_SUCCESS
           then s\<lparr>response_errors := response_errors s + 1\<rparr> else s))"

text \<open>The response with the client's defaults, as five places of the code spell it.\<close>

definition default_flags :: "esrb_client \<Rightarrow> uint32" where
  "default_flags s = (if default_auth s = ES_AUTH_RESULT_ALLOW then UINT32_MAX else 0)"

definition send_default :: "es_host \<Rightarrow> native_client \<Rightarrow> es_message \<Rightarrow> esrb_client \<Rightarrow> esrb_client" where
  "send_default h native_client message s =
     snd (esrb_send_response h native_client message (default_auth s) (default_flags s)
       (default_cache s) s)"

text \<open>The write of one byte to a non-blocking pipe, whose result the code ignores.\<close>

definition esrb_notify :: "es_host \<Rightarrow> esrb_client \<Rightarrow> esrb_client" where
  "esrb_notify h s =
     (if notified s then s
      else s\<lparr>notified := True, pipe_bytes :=
        (if 0 \<le> snd (wakeup_fd s) \<and> pipe_bytes s < pipe_capacity h then pipe_bytes s + 1
         else pipe_bytes s)\<rparr>)"

text \<open>The message a slot points to. Reading through a NULL pointer is undefined in C, and
  unspecified here.\<close>

definition message_in :: "esrb_client \<Rightarrow> nat \<Rightarrow> es_message" where
  "message_in s slot = the (slot_message (slot_at (queue s) slot))"

definition client_answer_slot :: "es_host \<Rightarrow> nat \<Rightarrow> esrb_client \<Rightarrow> esrb_client" where
  "client_answer_slot h slot s =
     (case cas_answer slot (queue s) of (won, q) \<Rightarrow>
        if \<not> won then s
        else let s = s\<lparr>queue := q\<rparr>
          in send_default h (slot_client (slot_at (queue s) slot)) (message_in s slot) s)"

section \<open>What a trace says\<close>

text \<open>The responses in a trace, and the balance of retains and releases of a message.\<close>

fun response_to :: "es_call \<Rightarrow> es_message option" where
  "response_to (Es_respond_auth_result c m r b) = Some m"
| "response_to (Es_respond_flags_result c m f b) = Some m"
| "response_to _ = None"

definition responses_in :: "es_call list \<Rightarrow> es_message list" where
  "responses_in t = List.map_filter response_to t"

definition retain_count :: "es_message \<Rightarrow> es_call list \<Rightarrow> int" where
  "retain_count m t = int (count_list t (Es_retain_message m)) - int (count_list t (Es_release_message m))"

lemma responses_in_simps [simp]:
  "responses_in [] = []"
  "responses_in (c # t) = (case response_to c of None \<Rightarrow> [] | Some m \<Rightarrow> [m]) @ responses_in t"
  "responses_in (t @ u) = responses_in t @ responses_in u"
  by (simp_all add: responses_in_def map_filter_def split: option.splits)

lemma retain_count_simps [simp]:
  "retain_count m [] = 0"
  "retain_count m (c # t) = (if c = Es_retain_message m then 1 else if c = Es_release_message m then - 1
     else 0) + retain_count m t"
  "retain_count m (t @ u) = retain_count m t + retain_count m u"
  by (auto simp: retain_count_def)

lemma call_fields [simp]:
  "native (call c s) = native s" "queue (call c s) = queue s" "wakeup_fd (call c s) = wakeup_fd s"
  "watchdog (call c s) = watchdog s" "notified (call c s) = notified s" "closed (call c s) = closed s"
  "active_callbacks (call c s) = active_callbacks s" "dropped (call c s) = dropped s"
  "delivered (call c s) = delivered s" "timeouts (call c s) = timeouts s"
  "response_errors (call c s) = response_errors s" "default_auth (call c s) = default_auth s"
  "default_cache (call c s) = default_cache s" "pipe_bytes (call c s) = pipe_bytes s"
  "trace (call c s) = trace s @ [c]" "owner_pid (call c s) = owner_pid s"
  "seq_gaps (call c s) = seq_gaps s" "leaked_messages (call c s) = leaked_messages s"
  "default_flags (call c s) = default_flags s" "min_margin_ticks (call c s) = min_margin_ticks s"
  "deadline_margin (call c s) = deadline_margin s"
  by (simp_all add: call_def default_flags_def)

text \<open>What sending a response changes: the trace, by one response, and the error count.\<close>

lemma send_response_effect:
  "\<exists>c. response_to c = Some m \<and>
     snd (esrb_send_response h n m r f b s) = s\<lparr>trace := trace s @ [c], response_errors := response_errors s +
       (if fst (esrb_send_response h n m r f b s) = ES_RESPOND_RESULT_SUCCESS then 0 else 1)\<rparr>"
  by (rule exI [of _ "if msg_event_type m = ES_EVENT_TYPE_AUTH_OPEN
      then Es_respond_flags_result n m f b else Es_respond_auth_result n m r b"])
    (simp add: esrb_send_response_def call_def Let_def)

lemma send_default_effect:
  obtains c d where "response_to c = Some m"
    and "send_default h n m s = s\<lparr>trace := trace s @ [c], response_errors := response_errors s + d\<rparr>"
  using send_response_effect [of m h n "default_auth s" "default_flags s" "default_cache s" s]
  unfolding send_default_def by blast

lemma notify_effect:
  "esrb_notify h s = s\<lparr>notified := True, pipe_bytes := pipe_bytes (esrb_notify h s)\<rparr>"
  by (simp add: esrb_notify_def)

text \<open>The wakeup protocol: whoever finds \<open>notified\<close> set relies on a byte being in the pipe.\<close>

definition wake_ok :: "esrb_client \<Rightarrow> bool" where
  "wake_ok s \<longleftrightarrow> (notified s \<longrightarrow> 0 < pipe_bytes s)"

lemma notify_wakes:
  assumes "wake_ok s" and "0 \<le> snd (wakeup_fd s)" "0 < pipe_capacity h"
  shows "notified (esrb_notify h s) \<and> 0 < pipe_bytes (esrb_notify h s)"
  using assms by (auto simp: esrb_notify_def wake_ok_def)

end
