(* ===== verification/Queue_Fifo.thy ===== *)
theory Queue_Fifo
  imports Queue_Seq
begin

text \<open>
  The message ring as an abstract FIFO, over the functions of queue.c called with no interference.
\<close>

definition sample_queue :: esrb_queue where
  "sample_queue = \<lparr>capacity = 2, queue_mask = 1, slots = [init_slot 0, init_slot 1],
     enqueue_position = 0, dequeue_position = 0, depth_max = 0\<rparr>"

lemma sample_queue_ring: "ring 1 0 0 {} {} {} sample_queue"
proof -
  have "esrb_queue_init True sample_queue (2 ^ 1) = (True, sample_queue)"
    by (simp add: esrb_queue_init_def sample_queue_def upt_rec)
  then show ?thesis by (rule esrb_queue_init_ring) simp
qed

lemma sample_queue_valid: "valid_queue sample_queue"
  unfolding valid_queue_def using sample_queue_ring by blast

lemma queue_init_accepts:
  "fst (esrb_queue_init allocated queue0 n) \<longleftrightarrow> allocated \<and> (\<exists>k. 1 \<le> k \<and> k < 64 \<and> n = 2 ^ k)"
proof -
  have pow: "(\<not> n < 2 \<and> n AND (n - 1) = 0) \<longleftrightarrow> (\<exists>k. 1 \<le> k \<and> k < 64 \<and> n = 2 ^ k)"
  proof (cases "n < 2")
    case True
    have "\<not> (2::size_t) ^ k < 2" if "1 \<le> k" "k < 64" for k
      using that unat_pow2 [of k] power_increasing [of 1 k "2::nat"]
      by (simp add: word_less_nat_alt)
    then show ?thesis using True by auto
  next
    case False
    then have "0 < n" by (auto simp: word_less_nat_alt) 
    then have "n AND (n - 1) = 0 \<longleftrightarrow> (\<exists>k < 64. n = 2 ^ k)" by (rule and_pred_zero_iff)
    moreover have "k \<noteq> 0" if "n = 2 ^ k" for k using that False by (cases k) auto
    ultimately show ?thesis using False by (metis less_one linorder_not_less)
  qed
  show ?thesis unfolding pow [symmetric] by (auto simp: esrb_queue_init_def)
qed

text \<open>esrb_queue_init accepts exactly the powers of two from 2 on for which memory is available,
  and then leaves an empty ring of that capacity in which nothing is occupied.\<close>

lemma queue_init_correct:
  shows "(fst (esrb_queue_init allocated queue0 n) \<longleftrightarrow> allocated \<and> (\<exists>k. 1 \<le> k \<and> k < 64 \<and> n = 2 ^ k)) \<and>
    (fst (esrb_queue_init allocated queue0 n) \<longrightarrow> n \<le> 2 ^ 62 \<longrightarrow>
       valid_queue (snd (esrb_queue_init allocated queue0 n)) \<and>
       pending_slots (snd (esrb_queue_init allocated queue0 n)) = [] \<and>
       capacity (snd (esrb_queue_init allocated queue0 n)) = n \<and>
       (\<forall>x \<in> set (slots (snd (esrb_queue_init allocated queue0 n))). \<not> occupied x))"
proof -
  note first = queue_init_accepts [of allocated queue0 n]
  show ?thesis
  proof (intro conjI impI)
    assume f: "fst (esrb_queue_init allocated queue0 n)" and n: "n \<le> 2 ^ 62"
    let ?q = "snd (esrb_queue_init allocated queue0 n)"
    obtain k where k: "1 \<le> k" "k < 64" "n = 2 ^ k" using f first by blast
    have "(2::nat) ^ k \<le> 2 ^ 62" using n k unat_pow2 [of k] unat_pow2 [of 62] by (simp add: word_le_nat_alt)
    then have "k \<le> 62" by (rule power_le_imp_le_exp [rotated]) simp
    moreover have "esrb_queue_init allocated queue0 (2 ^ k) = (True, ?q)"
      using f unfolding k(3) by (metis (full_types) prod.collapse)
    ultimately have r: "ring k 0 0 {} {} {} ?q" using esrb_queue_init_ring by blast
    show "valid_queue ?q" unfolding valid_queue_def using r by blast
    show "pending_slots ?q = []" by (simp add: pending_slots_ring [OF r])
    show "capacity ?q = n" using ringD(3) [OF r] k by simp
    show "\<forall>x \<in> set (slots ?q). \<not> occupied x"
      using f by (auto simp: esrb_queue_init_def init_slot_def split: if_splits)
  qed (rule first)
qed

lemma queue_init_correct_example:
  "fst (esrb_queue_init True sample_queue 2) \<and> valid_queue (snd (esrb_queue_init True sample_queue 2))"
proof -
  have f: "fst (esrb_queue_init True sample_queue 2)"
    by (simp add: esrb_queue_init_def)
  then show ?thesis using queue_init_correct [of True sample_queue 2] by simp
qed

text \<open>C31. The ring refines a bounded FIFO. With nothing in between, enqueue and publish either append
  one slot, that no other entry occupies, to the contents, or report the ring full and change nothing;
  they always return.\<close>

theorem enqueue_publish_appends:
  assumes "valid_queue queue"
  shows "esrb_queue_enqueue queue = Some (None, queue) \<or>
    (\<exists>slot queue1 queue2. esrb_queue_enqueue queue = Some (Some slot, queue1) \<and>
       esrb_queue_publish queue1 slot = Some queue2 \<and> valid_queue queue2 \<and>
       pending_slots queue2 = pending_slots queue @ [slot] \<and> slot \<notin> set (pending_slots queue))"
proof -
  obtain k e d R where r: "ring k e d {} {} R queue" using assms by (auto simp: valid_queue_def)
  show ?thesis
  proof (cases "can_claim k e R")
    case False
    then show ?thesis using enqueue_full [OF r] by blast
  next
    case c: True
    have r1: "ring k (Suc e) d {} {e} R (claimed_slot k e queue)" using ring_claimed_slot [OF r c] by simp
    obtain queue2 where q2: "esrb_queue_publish (claimed_slot k e queue) (e mod 2 ^ k) = Some queue2"
        "ring k (Suc e) d {} ({e} - {e}) R queue2"
      using publish_result [OF r1, of e] by auto
    have r2: "ring k (Suc e) d {} {} R queue2" using q2(2) by simp
    have "pending_slots queue2 = pending_slots queue @ [e mod 2 ^ k]"
      using ringD(8) [OF r] by (simp add: pending_slots_ring [OF r] pending_slots_ring [OF r2])
    moreover have "e mod 2 ^ k \<notin> set (pending_slots queue)"
    proof
      assume "e mod 2 ^ k \<in> set (pending_slots queue)"
      then obtain p where p: "d \<le> p" "p < e" "e mod 2 ^ k = p mod 2 ^ k"
        by (auto simp: pending_slots_ring [OF r])
      then have "p + 2 ^ k \<le> e" using lap_apart [of p e "2 ^ k"] by simp
      then have "p \<in> R" using c ringD(12) [OF r, of p] by (cases "p + 2 ^ k = e") (auto simp: can_claim_def)
      then show False using ringD(11) [OF r] p(1) by auto
    qed
    moreover have "valid_queue queue2" unfolding valid_queue_def using r2 by blast
    ultimately show ?thesis using enqueue_claims [OF r c] q2(1) by blast
  qed
qed

theorem enqueue_publish_appends_witness:
  "\<exists>slot queue1 queue2. esrb_queue_enqueue sample_queue = Some (Some slot, queue1) \<and>
     esrb_queue_publish queue1 slot = Some queue2 \<and>
     pending_slots queue2 = pending_slots sample_queue @ [slot]"
proof -
  have "esrb_queue_enqueue sample_queue = Some (Some (0 mod 2 ^ 1), claimed_slot 1 0 sample_queue)"
    by (rule enqueue_claims [OF sample_queue_ring]) (simp add: can_claim_def)
  then show ?thesis using enqueue_publish_appends [OF sample_queue_valid] by auto
qed

text \<open>Dequeue returns, and takes the oldest entry of the contents, or nothing when there is none.\<close>

lemma dequeue_takes_oldest:
  assumes "valid_queue queue"
  shows "\<exists>queue'. esrb_queue_dequeue queue =
      Some (case pending_slots queue of [] \<Rightarrow> None | slot # rest \<Rightarrow> Some slot, queue') \<and>
    pending_slots queue' = tl (pending_slots queue) \<and> valid_queue queue'"
proof -
  obtain r queue' where d: "esrb_queue_dequeue queue = Some (r, queue')"
    using queue_source.get_returns [OF assms] by blast
  show ?thesis using queue_source.get_Some_iff [OF assms d] d by auto
qed

lemma dequeue_takes_oldest_example:
  "\<exists>queue'. esrb_queue_dequeue sample_queue = Some (None, queue')"
  using dequeue_takes_oldest [OF sample_queue_valid] pending_slots_ring [OF sample_queue_ring] by auto

text \<open>C32. A message that is taken and not released holds up the ring, however little is queued: when
  the position one lap back is unreleased, enqueue fails even if the reported depth is zero.\<close>

theorem unreleased_slot_blocks_ring:
  assumes "ring k e d {} {} R queue" and "p + 2 ^ k = e" "p \<notin> R"
  shows "esrb_queue_enqueue queue = Some (None, queue) \<and> (e = d \<longrightarrow> esrb_queue_depth queue = 0)"
proof -
  have "\<not> can_claim k e R" using assms(2,3) by (auto simp: can_claim_def)
  moreover have "unat (esrb_queue_depth queue) = e - d" by (rule depth_ring [OF assms(1)])
  ultimately show ?thesis using enqueue_full [OF assms(1)] by (auto simp: unsigned_eq_0_iff)
qed

text \<open>Position 0 was taken and is still held; position 1 was taken and released.\<close>

definition retaining_queue :: esrb_queue where
  "retaining_queue = \<lparr>capacity = 2, queue_mask = 1,
     slots = [(init_slot 0)\<lparr>sequence := 1\<rparr>, (init_slot 1)\<lparr>sequence := 3, slot_position := 1\<rparr>],
     enqueue_position = 2, dequeue_position = 2, depth_max = 1\<rparr>"

lemma retaining_queue_ring: "ring 1 2 2 {} {} {1} retaining_queue"
proof -
  have w: "2 \<le> m \<and> m < 2 + 2 ^ 1 \<longleftrightarrow> m = 2 \<or> m = 3"
    "m < 2 \<and> 2 \<le> m + 2 ^ 1 \<and> m \<notin> {} \<longleftrightarrow> m = 0 \<or> m = 1" for m :: nat by auto
  show ?thesis
    unfolding ring_def w by (auto simp: retaining_queue_def next_sequence_def slot_at_def
        init_slot_def calloc_slot_def)
qed

theorem unreleased_slot_blocks_ring_witness:
  "esrb_queue_enqueue retaining_queue = Some (None, retaining_queue) \<and>
    esrb_queue_depth retaining_queue = 0"
  using unreleased_slot_blocks_ring [OF retaining_queue_ring, of 0] by simp

end
