(* ===== verification/Client_Callback.thy ===== *)
theory Client_Callback
  imports Client_State Queue_Fifo
begin

text \<open>
  The Endpoint Security callback (client.c, deadline_fire_time, record_sequence_gaps, handle_message):
  what one call does, on every branch, when no other thread interferes. The interleavings are the
  business of \<open>Protocol\<close>, whose callback threads take the same path.
\<close>

section \<open>The code\<close>

text \<open>\<open>host_scale\<close> stands for \<open>(uint64_t)((double)remaining * margin)\<close>, whose floating-point rounding
  nothing below depends on.\<close>

definition deadline_fire_time :: "es_host \<Rightarrow> uint64 \<Rightarrow> esrb_client \<Rightarrow> uint64 \<times> esrb_client" where
  "deadline_fire_time h deadline s =
     (case clock h s of (now, s) \<Rightarrow>
        if deadline \<le> now then (now, s)
        else let remaining = deadline - now;
                 advance = (if deadline_margin s = Finite 1 then remaining
                   else host_scale h remaining (deadline_margin s));
                 advance = (if advance < min_margin_ticks s then min_margin_ticks s else advance)
          in (if advance \<ge> remaining then now else deadline - advance, s))"

definition record_sequence_gaps :: "es_message \<Rightarrow> esrb_client \<Rightarrow> esrb_client" where
  "record_sequence_gaps message s =
     (if msg_version message \<ge> 4 then
        let previous = last_global_seq s; seen = seen_global_seq s;
            s = s\<lparr>last_global_seq := msg_global_seq_num message, seen_global_seq := True\<rparr>
        in if seen \<and> msg_global_seq_num message > previous + 1
           then s\<lparr>seq_gaps := seq_gaps s + (msg_global_seq_num message - previous - 1)\<rparr> else s
      else if msg_version message \<ge> 2 \<and> msg_event_type message \<ge> 0 \<and>
          msg_event_type message < int ES_EVENT_TYPE_LAST then
        let index = nat (msg_event_type message);
            previous = last_event_seq s ! index; seen = seen_event_seq s ! index;
            s = s\<lparr>last_event_seq := (last_event_seq s)[index := msg_seq_num message],
              seen_event_seq := (seen_event_seq s)[index := True]\<rparr>
        in if seen \<and> msg_seq_num message > previous + 1
           then s\<lparr>seq_gaps := seq_gaps s + (msg_seq_num message - previous - 1)\<rparr> else s
      else s)"

text \<open>The middle of the callback: filling the claimed slot, arming the watchdog for it, and the way
  out when the ring is full. \<open>None\<close> is a call that does not return.\<close>

definition fill_message ::
    "es_host \<Rightarrow> native_client \<Rightarrow> es_message \<Rightarrow> nat \<Rightarrow> esrb_client \<Rightarrow> esrb_client" where
  "fill_message h native_client message slot s =
     (let (fire_at, s) = (if is_auth message then deadline_fire_time h (msg_deadline message) s
            else (UINT64_MAX, s));
          s = s\<lparr>queue := set_slot slot (fill_slot message native_client fire_at) (queue s)\<rparr>
      in s\<lparr>queue := set_slot slot (\<lambda>x. x\<lparr>occupied := True\<rparr>) (queue s)\<rparr>)"

definition arm_message :: "es_host \<Rightarrow> es_message \<Rightarrow> nat \<Rightarrow> esrb_client \<Rightarrow> esrb_client option" where
  "arm_message h message slot s =
     (if is_auth message
      then Option.bind (esrb_watchdog_arm (watchdog s) slot (slot_at (queue s) slot)) (\<lambda>(armed, w).
        let s = s\<lparr>watchdog := w\<rparr> in Some (if \<not> armed then client_answer_slot h slot s else s))
      else Some s)"

definition reject_message :: "es_host \<Rightarrow> native_client \<Rightarrow> es_message \<Rightarrow> esrb_client \<Rightarrow> esrb_client" where
  "reject_message h native_client message s =
     (let s = (if is_auth message then send_default h native_client message s else s)
      in call (Es_release_message message) (s\<lparr>dropped := dropped s + 1\<rparr>))"

definition leave_callback :: "esrb_client \<Rightarrow> esrb_client" where
  "leave_callback s = s\<lparr>active_callbacks := active_callbacks s - 1\<rparr>"

definition handle_message :: "es_host \<Rightarrow> native_client \<Rightarrow> es_message \<Rightarrow> esrb_client \<Rightarrow> esrb_client option" where
  "handle_message h native_client message s =
     (let s = s\<lparr>active_callbacks := active_callbacks s + 1\<rparr>
      in if closed s
         then Some (leave_callback (if is_auth message then send_default h native_client message s else s))
         else let s = call (Es_retain_message message) (record_sequence_gaps message s)
         in Option.bind (esrb_queue_enqueue (queue s)) (\<lambda>(found, q).
           let s = s\<lparr>queue := q\<rparr>
           in case found of
             None \<Rightarrow> Some (leave_callback (reject_message h native_client message s))
           | Some slot \<Rightarrow>
               Option.bind (arm_message h message slot (fill_message h native_client message slot s)) (\<lambda>s.
               Option.bind (esrb_queue_publish (queue s) slot) (\<lambda>q.
               Some (leave_callback (esrb_notify h (s\<lparr>queue := q\<rparr>)))))))"

section \<open>The deadline\<close>

lemma deadline_fire_time_cases:
  "snd (deadline_fire_time h deadline s) = call Mach_absolute_time s"
  by (simp add: deadline_fire_time_def clock_def Let_def)

definition sample_host :: es_host where
  "sample_host = \<lparr>host_result = (\<lambda>t c. 0), host_native = (\<lambda>t. Some 7), host_subscriptions = (\<lambda>t. []),
     host_time = (\<lambda>t. 100 + of_nat (length t)), host_scale = (\<lambda>r m. r div 5), host_timebase = (1, 1),
     pipe_capacity = 65536\<rparr>"

definition sample_message :: es_message where
  "sample_message = \<lparr>msg_address = 4096, msg_version = 8, msg_event_type = 0,
     msg_action_type = ES_ACTION_TYPE_AUTH, msg_deadline = 1000, msg_mach_time = 100,
     msg_seq_num = 5, msg_global_seq_num = 9, msg_notify_result = ES_RESULT_TYPE_FLAGS 0,
     msg_time = (0, 0), msg_process = 8192, msg_thread = 0\<rparr>"

definition sample_watchdog :: esrb_watchdog where
  "sample_watchdog = \<lparr>wd_capacity = 2, wd_mask = 1,
     requests = [zero_request, zero_request\<lparr>req_sequence := 1\<rparr>],
     wd_enqueue_position = 0, wd_dequeue_position = 0, heap = [zero_entry, zero_entry],
     heap_size = 0, mutex_live = True, condition_live = True\<rparr>"

definition sample_client :: esrb_client where
  "sample_client = \<lparr>native = Some 7, queue = sample_queue, wakeup_fd = (3, 4),
     watchdog = sample_watchdog, watchdog_thread_started = True, watchdog_running = True,
     watchdog_stopped = False, delete_ready = False, client_ready = True, creation_result = 0,
     notified = False, closed = False, active_callbacks = 0, dropped = 0, delivered = 0, timeouts = 0,
     response_errors = 0, delete_errors = 0, errors = 0, seq_gaps = 0, leaked_messages = 0,
     last_global_seq = 3, seen_global_seq = True, last_event_seq = replicate ES_EVENT_TYPE_LAST 0,
     seen_event_seq = replicate ES_EVENT_TYPE_LAST False, default_auth = ES_AUTH_RESULT_ALLOW,
     default_cache = False, strict_cache = False, strict_version = False,
     warn_on_truncated_path = False, deadline_margin = Finite (1 / 5), min_margin_ticks = 50,
     owner_pid = 42, pipe_bytes = 0, trace = []\<rparr>"

lemma sample_watchdog_ring: "request_ring 1 0 0 sample_watchdog"
proof -
  have "0 \<le> p \<and> p < 0 + 2 ^ 1 \<longleftrightarrow> p = 0 \<or> p = 1" for p :: nat by auto
  then show ?thesis
    unfolding request_ring_def by (auto simp: sample_watchdog_def zero_request_def request_at_def)
qed

text \<open>C33. The watchdog fires no earlier than now and no later than the deadline, and unless it fires
  at once, at least the minimum margin before the deadline, whatever the floating-point product is.\<close>

theorem fire_time_within_deadline:
  "(if deadline \<le> host_time h (trace s) then fst (deadline_fire_time h deadline s) = host_time h (trace s)
    else host_time h (trace s) \<le> fst (deadline_fire_time h deadline s) \<and>
      fst (deadline_fire_time h deadline s) \<le> deadline \<and>
      (fst (deadline_fire_time h deadline s) = host_time h (trace s) \<or>
       min_margin_ticks s \<le> deadline - fst (deadline_fire_time h deadline s)))"
proof -
  define now where "now = host_time h (trace s)"
  define remaining where "remaining = deadline - now"
  define scaled where "scaled = (if deadline_margin s = Finite 1 then remaining
    else host_scale h remaining (deadline_margin s))"
  define advance where "advance = (if scaled < min_margin_ticks s then min_margin_ticks s else scaled)"
  have fire: "fst (deadline_fire_time h deadline s) = (if deadline \<le> now then now
      else if advance \<ge> remaining then now else deadline - advance)"
    by (simp add: deadline_fire_time_def clock_def Let_def now_def remaining_def scaled_def advance_def)
  have margin: "min_margin_ticks s \<le> advance" by (auto simp: advance_def)
  show ?thesis
  proof (cases "deadline \<le> now")
    case True
    then show ?thesis by (simp add: fire flip: now_def)
  next
    case late: False
    show ?thesis
    proof (cases "advance \<ge> remaining")
      case True
      then show ?thesis using late by (simp add: fire flip: now_def)
    next
      case False
      then have lt: "unat advance < unat remaining" by (simp add: word_less_nat_alt not_le)
      have rem: "unat remaining = unat deadline - unat now"
        using late by (simp add: remaining_def unat_sub word_le_nat_alt)
      have adv: "advance \<le> deadline" using lt rem by (simp add: word_le_nat_alt)
      then have at: "unat (deadline - advance) = unat deadline - unat advance"
        by (simp add: unat_sub)
      have "now \<le> deadline - advance" "deadline - advance \<le> deadline"
        using lt rem by (simp_all add: word_le_nat_alt at)
      moreover have "deadline - (deadline - advance) = advance" by simp
      ultimately show ?thesis using late False margin by (simp add: fire flip: now_def)
    qed
  qed
qed

section \<open>Gaps in the sequence numbers\<close>


lemma record_gaps_fields [simp]:
  "queue (record_sequence_gaps m s) = queue s" "watchdog (record_sequence_gaps m s) = watchdog s"
  "closed (record_sequence_gaps m s) = closed s" "trace (record_sequence_gaps m s) = trace s"
  "active_callbacks (record_sequence_gaps m s) = active_callbacks s"
  "dropped (record_sequence_gaps m s) = dropped s"
  "notified (record_sequence_gaps m s) = notified s" "pipe_bytes (record_sequence_gaps m s) = pipe_bytes s"
  "wakeup_fd (record_sequence_gaps m s) = wakeup_fd s"
  by (simp_all add: record_sequence_gaps_def Let_def)

text \<open>Over messages of version 4 or later whose global sequence numbers increase, the counter
  grows by exactly the number of missing sequence numbers.\<close>

lemma gaps_count_missing:
  assumes "\<forall>m \<in> set ms. msg_version m \<ge> 4" and "ms \<noteq> []"
    and "sorted_wrt (<) (last_global_seq s # map msg_global_seq_num ms)" and "seen_global_seq s"
  shows "seq_gaps (fold record_sequence_gaps ms s) =
    seq_gaps s + (msg_global_seq_num (last ms) - last_global_seq s - of_nat (length ms))"
  using assms
proof (induction ms arbitrary: s)
  case (Cons m ms)
  let ?g = "msg_global_seq_num m" and ?l = "last_global_seq s"
  let ?s = "record_sequence_gaps m s"
  have lt: "?l < ?g" using Cons.prems(3) by simp
  have s: "seq_gaps ?s = seq_gaps s + (?g - ?l - 1)" "last_global_seq ?s = ?g" "seen_global_seq ?s"
  proof -
    have "?g = ?l + 1" if "\<not> ?l + 1 < ?g" using that lt by (meson inc_le linorder_less_linear not_le order_antisym)
    then show "seq_gaps ?s = seq_gaps s + (?g - ?l - 1)" "last_global_seq ?s = ?g" "seen_global_seq ?s"
      using Cons.prems(1,4) by (auto simp: record_sequence_gaps_def Let_def)
  qed
  show ?case
  proof (cases "ms = []")
    case True
    then show ?thesis by (simp add: s)
  next
    case False
    have "seq_gaps (fold record_sequence_gaps ms ?s) =
        seq_gaps ?s + (msg_global_seq_num (last ms) - last_global_seq ?s - of_nat (length ms))"
      using Cons.prems False by (intro Cons.IH) (auto simp: s)
    then show ?thesis using False by (simp add: s)
  qed
qed simp

lemma gaps_count_missing_example:
  "seq_gaps (fold record_sequence_gaps [sample_message, sample_message\<lparr>msg_global_seq_num := 12\<rparr>]
     sample_client) = 7"
  using gaps_count_missing [of "[sample_message, sample_message\<lparr>msg_global_seq_num := 12\<rparr>]" sample_client]
  by (simp add: sample_message_def sample_client_def)

section \<open>The callback\<close>

lemma send_default_fields [simp]:
  "queue (send_default h n m s) = queue s" "watchdog (send_default h n m s) = watchdog s"
  "active_callbacks (send_default h n m s) = active_callbacks s" "dropped (send_default h n m s) = dropped s"
  "notified (send_default h n m s) = notified s" "pipe_bytes (send_default h n m s) = pipe_bytes s"
  "wakeup_fd (send_default h n m s) = wakeup_fd s" "closed (send_default h n m s) = closed s"
  "default_auth (send_default h n m s) = default_auth s" "default_cache (send_default h n m s) = default_cache s"
  "responses_in (trace (send_default h n m s)) = responses_in (trace s) @ [m]"
  "retain_count m' (trace (send_default h n m s)) = retain_count m' (trace s)"
proof -
  obtain c d where c: "response_to c = Some m"
    and e: "send_default h n m s = s\<lparr>trace := trace s @ [c], response_errors := response_errors s + d\<rparr>"
    by (rule send_default_effect)
  have "c \<noteq> Es_retain_message m'" "c \<noteq> Es_release_message m'" using c by auto
  then show "queue (send_default h n m s) = queue s" "watchdog (send_default h n m s) = watchdog s"
    "active_callbacks (send_default h n m s) = active_callbacks s" "dropped (send_default h n m s) = dropped s"
    "notified (send_default h n m s) = notified s" "pipe_bytes (send_default h n m s) = pipe_bytes s"
    "wakeup_fd (send_default h n m s) = wakeup_fd s" "closed (send_default h n m s) = closed s"
    "default_auth (send_default h n m s) = default_auth s" "default_cache (send_default h n m s) = default_cache s"
    "responses_in (trace (send_default h n m s)) = responses_in (trace s) @ [m]"
    "retain_count m' (trace (send_default h n m s)) = retain_count m' (trace s)"
    using c by (auto simp: e retain_count_def)
qed

lemma notify_fields [simp]:
  "queue (esrb_notify h s) = queue s" "watchdog (esrb_notify h s) = watchdog s"
  "active_callbacks (esrb_notify h s) = active_callbacks s" "trace (esrb_notify h s) = trace s"
  "closed (esrb_notify h s) = closed s" "notified (esrb_notify h s)" "dropped (esrb_notify h s) = dropped s"
  "delivered (esrb_notify h s) = delivered s" "timeouts (esrb_notify h s) = timeouts s"
  by (simp_all add: esrb_notify_def)

lemma leave_fields [simp]:
  "queue (leave_callback s) = queue s" "watchdog (leave_callback s) = watchdog s"
  "active_callbacks (leave_callback s) = active_callbacks s - 1" "trace (leave_callback s) = trace s"
  "closed (leave_callback s) = closed s" "notified (leave_callback s) = notified s"
  "pipe_bytes (leave_callback s) = pipe_bytes s" "dropped (leave_callback s) = dropped s"
  by (simp_all add: leave_callback_def)

text \<open>A callback that cannot queue its message, because the client is closed or the ring is full, answers
  an AUTH message once, leaves both rings as they were and keeps no reference; only a full ring counts as a
  drop.\<close>

lemma refused_message_answered:
  assumes "closed s \<or> esrb_queue_enqueue (queue s) = Some (None, queue s)"
  shows "\<exists>s'. handle_message h n m s = Some s' \<and> queue s' = queue s \<and> watchdog s' = watchdog s \<and>
    active_callbacks s' = active_callbacks s \<and> dropped s' = dropped s + (if closed s then 0 else 1) \<and>
    responses_in (trace s') = responses_in (trace s) @ (if is_auth m then [m] else []) \<and>
    retain_count m (trace s') = retain_count m (trace s)"
  using assms by (cases "closed s") (simp_all add: handle_message_def reject_message_def)

lemma refused_message_answered_example:
  "(\<exists>s'. handle_message sample_host (Some 7) sample_message (sample_client\<lparr>queue := retaining_queue\<rparr>) = Some s' \<and>
    responses_in (trace s') = [sample_message] \<and> retain_count sample_message (trace s') = 0 \<and> dropped s' = 1) \<and>
   (\<exists>s'. handle_message sample_host (Some 7) sample_message (sample_client\<lparr>closed := True\<rparr>) = Some s' \<and>
    responses_in (trace s') = [sample_message] \<and> dropped s' = 0)"
proof -
  have "esrb_queue_enqueue retaining_queue = Some (None, retaining_queue)"
    using enqueue_full [OF retaining_queue_ring] by (simp add: can_claim_def)
  then show ?thesis
    using refused_message_answered [of "sample_client\<lparr>queue := retaining_queue\<rparr>" sample_host "Some 7" sample_message]
      refused_message_answered [of "sample_client\<lparr>closed := True\<rparr>" sample_host "Some 7" sample_message]
    by (auto simp: sample_client_def sample_message_def is_auth_def)
qed

lemma fill_message_effect:
  assumes r: "ring k e d U C R (queue s)" and i: "i < length (slots (queue s))"
  shows "ring k e d U C R (queue (fill_message h n m i s))"
    and "slot_message (slot_at (queue (fill_message h n m i s)) i) = Some m"
    and "slot_client (slot_at (queue (fill_message h n m i s)) i) = n"
    and "occupied (slot_at (queue (fill_message h n m i s)) i)"
    and "slot_position (slot_at (queue (fill_message h n m i s)) i) = slot_position (slot_at (queue s) i)"
    and "answer_state (slot_at (queue (fill_message h n m i s)) i) =
      (if is_auth m then ESRB_ANSWER_PENDING else ESRB_ANSWER_NOT_AUTH)"
    and "watchdog (fill_message h n m i s) = watchdog s" "closed (fill_message h n m i s) = closed s"
    and "active_callbacks (fill_message h n m i s) = active_callbacks s"
    and "responses_in (trace (fill_message h n m i s)) = responses_in (trace s)"
    and "retain_count m' (trace (fill_message h n m i s)) = retain_count m' (trace s)"
    and "pending_slots (queue (fill_message h n m i s)) = pending_slots (queue s)"
proof -
  define f where "f = (if is_auth m then fst (deadline_fire_time h (msg_deadline m) s) else UINT64_MAX)"
  define s1 where "s1 = (if is_auth m then call Mach_absolute_time s else s)"
  have q: "queue (fill_message h n m i s) = set_slot i (\<lambda>x. x\<lparr>occupied := True\<rparr>)
      (set_slot i (fill_slot m n f) (queue s))"
    and rest: "fill_message h n m i s = s1\<lparr>queue := queue (fill_message h n m i s)\<rparr>"
    by (cases "deadline_fire_time h (msg_deadline m) s";
        use deadline_fire_time_cases [of h "msg_deadline m" s] in
          \<open>auto simp: fill_message_def f_def s1_def Let_def\<close>)+
  show r': "ring k e d U C R (queue (fill_message h n m i s))"
    unfolding q using r by (intro ring_write) simp_all
  show "slot_message (slot_at (queue (fill_message h n m i s)) i) = Some m"
    "slot_client (slot_at (queue (fill_message h n m i s)) i) = n"
    "occupied (slot_at (queue (fill_message h n m i s)) i)"
    "slot_position (slot_at (queue (fill_message h n m i s)) i) = slot_position (slot_at (queue s) i)"
    "answer_state (slot_at (queue (fill_message h n m i s)) i) =
      (if is_auth m then ESRB_ANSWER_PENDING else ESRB_ANSWER_NOT_AUTH)"
    unfolding q using i by simp_all
  show "pending_slots (queue (fill_message h n m i s)) = pending_slots (queue s)"
    by (simp add: pending_slots_ring [OF r] pending_slots_ring [OF r'])
  have s1: "watchdog s1 = watchdog s" "closed s1 = closed s" "active_callbacks s1 = active_callbacks s"
    "responses_in (trace s1) = responses_in (trace s)" "retain_count m' (trace s1) = retain_count m' (trace s)"
    by (simp_all add: s1_def)
  show "watchdog (fill_message h n m i s) = watchdog s" "closed (fill_message h n m i s) = closed s"
    "active_callbacks (fill_message h n m i s) = active_callbacks s"
    "responses_in (trace (fill_message h n m i s)) = responses_in (trace s)"
    "retain_count m' (trace (fill_message h n m i s)) = retain_count m' (trace s)"
    by (subst rest, simp add: s1)+
qed

lemma client_answer_slot_effect:
  assumes r: "ring k e d U C R (queue s)" and i: "i < length (slots (queue s))"
  shows "ring k e d U C R (queue (client_answer_slot h i s))"
    and "slot_at (queue (client_answer_slot h i s)) j = (if i = j \<and>
      answer_state (slot_at (queue s) i) = ESRB_ANSWER_PENDING
      then (slot_at (queue s) j)\<lparr>answer_state := ESRB_ANSWER_ANSWERED\<rparr> else slot_at (queue s) j)"
    and "responses_in (trace (client_answer_slot h i s)) = responses_in (trace s) @
      (if answer_state (slot_at (queue s) i) = ESRB_ANSWER_PENDING then [message_in s i] else [])"
    and "retain_count m' (trace (client_answer_slot h i s)) = retain_count m' (trace s)"
    and "watchdog (client_answer_slot h i s) = watchdog s" "closed (client_answer_slot h i s) = closed s"
    and "active_callbacks (client_answer_slot h i s) = active_callbacks s"
    and "pending_slots (queue (client_answer_slot h i s)) = pending_slots (queue s)"
proof -
  show r': "ring k e d U C R (queue (client_answer_slot h i s))"
    using r by (auto simp: client_answer_slot_def cas_answer_def Let_def intro: ring_write)
  then show "pending_slots (queue (client_answer_slot h i s)) = pending_slots (queue s)"
    by (simp add: pending_slots_ring [OF r] pending_slots_ring)
  show "slot_at (queue (client_answer_slot h i s)) j = (if i = j \<and>
      answer_state (slot_at (queue s) i) = ESRB_ANSWER_PENDING
      then (slot_at (queue s) j)\<lparr>answer_state := ESRB_ANSWER_ANSWERED\<rparr> else slot_at (queue s) j)"
    "responses_in (trace (client_answer_slot h i s)) = responses_in (trace s) @
      (if answer_state (slot_at (queue s) i) = ESRB_ANSWER_PENDING then [message_in s i] else [])"
    "retain_count m' (trace (client_answer_slot h i s)) = retain_count m' (trace s)"
    "watchdog (client_answer_slot h i s) = watchdog s" "closed (client_answer_slot h i s) = closed s"
    "active_callbacks (client_answer_slot h i s) = active_callbacks s"
    using i by (simp_all add: client_answer_slot_def cas_answer_def Let_def message_in_def)
qed

lemma arm_message_effect:
  assumes r: "ring k e d U C R (queue s)" and i: "i < length (slots (queue s))"
    and w: "request_ring k' e' d' (watchdog s)"
    and m: "slot_message (slot_at (queue s) i) = Some m"
    and a: "answer_state (slot_at (queue s) i) =
      (if is_auth m then ESRB_ANSWER_PENDING else ESRB_ANSWER_NOT_AUTH)"
  shows "\<exists>s'. arm_message h m i s = Some s' \<and> ring k e d U C R (queue s') \<and>
    (\<forall>j. slot_at (queue s') j = (slot_at (queue s) j)
       \<lparr>answer_state := answer_state (slot_at (queue s') j)\<rparr>) \<and>
    active_callbacks s' = active_callbacks s \<and> closed s' = closed s \<and>
    retain_count m' (trace s') = retain_count m' (trace s) \<and>
    (if answer_state (slot_at (queue s') i) = ESRB_ANSWER_PENDING
     then is_auth m \<and> responses_in (trace s') = responses_in (trace s) \<and>
       pending_requests (watchdog s') = pending_requests (watchdog s) @
         [\<lparr>entry_slot = i, entry_position = slot_position (slot_at (queue s) i),
           entry_fire_at = slot_fire_at (slot_at (queue s) i)\<rparr>]
     else responses_in (trace s') = responses_in (trace s) @ (if is_auth m then [m] else []))"
proof (cases "is_auth m")
  case False
  then show ?thesis using r a by (simp add: arm_message_def)
next
  case auth: True
  have am: "answer_state (slot_at (queue s) i) = ESRB_ANSWER_PENDING" using a auth by simp
  show ?thesis
  proof (cases "e' < d' + 2 ^ k'")
    case True
    obtain w' where w': "esrb_watchdog_arm (watchdog s) i (slot_at (queue s) i) = Some (True, w')"
        "pending_requests w' = pending_requests (watchdog s) @
          [\<lparr>entry_slot = i, entry_position = slot_position (slot_at (queue s) i),
            entry_fire_at = slot_fire_at (slot_at (queue s) i)\<rparr>]"
      using arm_room [OF w True] by blast
    then have "arm_message h m i s = Some (s\<lparr>watchdog := w'\<rparr>)" using auth by (simp add: arm_message_def)
    then show ?thesis using r auth am w' by simp
  next
    case False
    then have "e' = d' + 2 ^ k'" using request_ringD(9) [OF w] by simp
    then have eq: "arm_message h m i s = Some (client_answer_slot h i s)"
      using auth arm_full [OF w] by (simp add: arm_message_def)
    note E = client_answer_slot_effect [OF r i]
    have "\<forall>j. slot_at (queue (client_answer_slot h i s)) j = (slot_at (queue s) j)
       \<lparr>answer_state := answer_state (slot_at (queue (client_answer_slot h i s)) j)\<rparr>"
      by (simp add: E(2))
    moreover have "answer_state (slot_at (queue (client_answer_slot h i s)) i) = ESRB_ANSWER_ANSWERED"
      using am by (simp add: E(2))
    ultimately show ?thesis
      using E(1,4,6,7) E(3) am auth m by (intro exI [of _ "client_answer_slot h i s"])
        (simp add: eq message_in_def)
  qed
qed

text \<open>The client when the callback has claimed position \<open>e\<close>, and how it goes on from there.\<close>

definition callback_claimed :: "nat \<Rightarrow> nat \<Rightarrow> es_message \<Rightarrow> esrb_client \<Rightarrow> esrb_client" where
  "callback_claimed k e m s = (call (Es_retain_message m) (record_sequence_gaps m
     (s\<lparr>active_callbacks := active_callbacks s + 1\<rparr>)))\<lparr>queue := claimed_slot k e (queue s)\<rparr>"

lemma callback_claimed_fields [simp]:
  "queue (callback_claimed k e m s) = claimed_slot k e (queue s)"
  "watchdog (callback_claimed k e m s) = watchdog s" "closed (callback_claimed k e m s) = closed s"
  "active_callbacks (callback_claimed k e m s) = active_callbacks s + 1"
  "trace (callback_claimed k e m s) = trace s @ [Es_retain_message m]"
  by (simp_all add: callback_claimed_def)

lemma callback_goes_on:
  assumes r: "ring k e d {} {} R (queue s)" and c: "can_claim k e R" and "\<not> closed s"
    and arm: "arm_message h m (e mod 2 ^ k) (fill_message h n m (e mod 2 ^ k) (callback_claimed k e m s)) = Some t"
    and rt: "ring k (Suc e) d {} {e} R (queue t)"
  shows "\<exists>q. handle_message h n m s = Some (leave_callback (esrb_notify h (t\<lparr>queue := q\<rparr>))) \<and>
    ring k (Suc e) d {} {} R q \<and> pending_slots q = pending_slots (queue s) @ [e mod 2 ^ k] \<and>
    (\<forall>j. slot_at q j = (if j = e mod 2 ^ k then (slot_at (queue t) j)\<lparr>sequence := of_nat e + 1\<rparr>
      else slot_at (queue t) j))"
proof -
  obtain q where q: "esrb_queue_publish (queue t) (e mod 2 ^ k) = Some q" "ring k (Suc e) d {} ({e} - {e}) R q"
      "\<And>j. slot_at q j = (if j = e mod 2 ^ k then (slot_at (queue t) j)\<lparr>sequence := of_nat e + 1\<rparr>
        else slot_at (queue t) j)"
    using publish_result [OF rt, of e] by auto
  have rq: "ring k (Suc e) d {} {} R q" using q(2) by simp
  have "handle_message h n m s = Some (leave_callback (esrb_notify h (t\<lparr>queue := q\<rparr>)))"
    unfolding handle_message_def using assms(3) enqueue_claims [OF r c] arm q(1)
    by (simp add: Let_def callback_claimed_def)
  moreover have "pending_slots q = pending_slots (queue s) @ [e mod 2 ^ k]"
    using ringD(8) [OF r] by (simp add: pending_slots_ring [OF r] pending_slots_ring [OF rq])
  ultimately show ?thesis using rq q(3) by blast
qed

text \<open>What a callback that finds room does.\<close>

lemma callback_effect:
  assumes "\<not> closed s" and "valid_queue (queue s)" "valid_requests (watchdog s)"
    and "esrb_queue_enqueue (queue s) \<noteq> Some (None, queue s)"
  shows "\<exists>slot s'. handle_message h n m s = Some s' \<and> valid_queue (queue s') \<and>
    pending_slots (queue s') = pending_slots (queue s) @ [slot] \<and>
    slot_message (slot_at (queue s') slot) = Some m \<and> occupied (slot_at (queue s') slot) \<and>
    notified s' \<and> active_callbacks s' = active_callbacks s \<and>
    retain_count m (trace s') = retain_count m (trace s) + 1 \<and>
    (if answer_state (slot_at (queue s') slot) = ESRB_ANSWER_PENDING
     then is_auth m \<and> responses_in (trace s') = responses_in (trace s) \<and>
       pending_requests (watchdog s') = pending_requests (watchdog s) @
         [\<lparr>entry_slot = slot, entry_position = slot_position (slot_at (queue s') slot),
           entry_fire_at = slot_fire_at (slot_at (queue s') slot)\<rparr>]
     else responses_in (trace s') = responses_in (trace s) @ (if is_auth m then [m] else []))"
proof -
  obtain k e d R where r: "ring k e d {} {} R (queue s)" using assms(2) by (auto simp: valid_queue_def)
  obtain k' e' d' where w: "request_ring k' e' d' (watchdog s)"
    using assms(3) by (auto simp: valid_requests_def)
  have c: "can_claim k e R" using enqueue_full [OF r] assms(4) by blast
  let ?i = "e mod 2 ^ k"
  define s1 where "s1 = callback_claimed k e m s"
  have r1: "ring k (Suc e) d {} {e} R (queue s1)" using ring_claimed_slot [OF r c] by (simp add: s1_def)
  have i1: "?i < length (slots (queue s1))" by (rule ring_index [OF r1])
  define s2 where "s2 = fill_message h n m ?i s1"
  note F = fill_message_effect [OF r1 i1, where h = h and n = n and m = m, folded s2_def]
  have i2: "?i < length (slots (queue s2))" by (rule ring_index [OF F(1)])
  have "request_ring k' e' d' (watchdog s2)" using w by (simp add: F(7) s1_def)
  then obtain s3 where s3: "arm_message h m ?i s2 = Some s3" "ring k (Suc e) d {} {e} R (queue s3)"
      "\<forall>j. slot_at (queue s3) j = (slot_at (queue s2) j)\<lparr>answer_state := answer_state (slot_at (queue s3) j)\<rparr>"
      "active_callbacks s3 = active_callbacks s2" "retain_count m (trace s3) = retain_count m (trace s2)"
      "if answer_state (slot_at (queue s3) ?i) = ESRB_ANSWER_PENDING
       then is_auth m \<and> responses_in (trace s3) = responses_in (trace s2) \<and>
         pending_requests (watchdog s3) = pending_requests (watchdog s2) @
           [\<lparr>entry_slot = ?i, entry_position = slot_position (slot_at (queue s2) ?i),
             entry_fire_at = slot_fire_at (slot_at (queue s2) ?i)\<rparr>]
       else responses_in (trace s3) = responses_in (trace s2) @ (if is_auth m then [m] else [])"
    using arm_message_effect [OF F(1) i2 _ F(2,6), of k' e' d' h m] by blast
  obtain q where q: "handle_message h n m s = Some (leave_callback (esrb_notify h (s3\<lparr>queue := q\<rparr>)))"
      "ring k (Suc e) d {} {} R q" "pending_slots q = pending_slots (queue s) @ [?i]"
      "\<forall>j. slot_at q j = (if j = ?i then (slot_at (queue s3) j)\<lparr>sequence := of_nat e + 1\<rparr> else slot_at (queue s3) j)"
    using callback_goes_on [OF r c assms(1) s3(1) [unfolded s2_def s1_def] s3(2)] by blast
  have "slot_message (slot_at (queue s3) ?i) = Some m" "occupied (slot_at (queue s3) ?i)"
    using s3(3) F(2,4) by (metis esrb_slot.select_convs esrb_slot.surjective esrb_slot.update_convs(7))+
  moreover have "slot_position (slot_at (queue s3) ?i) = slot_position (slot_at (queue s2) ?i)"
    "slot_fire_at (slot_at (queue s3) ?i) = slot_fire_at (slot_at (queue s2) ?i)"
    by (subst s3(3) [THEN spec]; simp)+
  moreover have "valid_queue q" unfolding valid_queue_def using q(2) by blast
  ultimately show ?thesis
    using s3(4-6) F(7,9-11) q(1,3,4)
    by (intro exI [of _ ?i] exI [of _ "leave_callback (esrb_notify h (s3\<lparr>queue := q\<rparr>))"])
      (simp, simp add: s1_def split: if_splits)
qed

text \<open>C13. A callback that finds room returns with the message appended to the ring and one reference
  to it kept; an AUTH message is then either pending with its watchdog request in place and no
  response sent, or, when the request ring is full, answered once on the spot.\<close>

theorem callback_queues_message:
  assumes "\<not> closed s" and "valid_queue (queue s)" "valid_requests (watchdog s)"
    and "esrb_queue_enqueue (queue s) \<noteq> Some (None, queue s)"
  shows "\<exists>slot s'. handle_message h n m s = Some s' \<and> valid_queue (queue s') \<and>
    pending_slots (queue s') = pending_slots (queue s) @ [slot] \<and>
    slot_message (slot_at (queue s') slot) = Some m \<and> occupied (slot_at (queue s') slot) \<and>
    notified s' \<and> active_callbacks s' = active_callbacks s \<and>
    retain_count m (trace s') = retain_count m (trace s) + 1 \<and>
    (if answer_state (slot_at (queue s') slot) = ESRB_ANSWER_PENDING
     then is_auth m \<and> responses_in (trace s') = responses_in (trace s) \<and>
       pending_requests (watchdog s') = pending_requests (watchdog s) @
         [\<lparr>entry_slot = slot, entry_position = slot_position (slot_at (queue s') slot),
           entry_fire_at = slot_fire_at (slot_at (queue s') slot)\<rparr>]
     else responses_in (trace s') = responses_in (trace s) @ (if is_auth m then [m] else []))"
  using callback_effect [OF assms, of h n m] .

theorem callback_queues_message_witness:
  "\<exists>slot s'. handle_message sample_host (Some 7) sample_message sample_client = Some s' \<and>
    pending_slots (queue s') = [slot] \<and> slot_message (slot_at (queue s') slot) = Some sample_message \<and>
    notified s' \<and> retain_count sample_message (trace s') = 1"
proof -
  have q: "valid_queue (queue sample_client)" "valid_requests (watchdog sample_client)"
    using sample_queue_valid valid_requestsI [OF sample_watchdog_ring] by (simp_all add: sample_client_def)
  have "esrb_queue_enqueue sample_queue = Some (Some (0 mod 2 ^ 1), claimed_slot 1 0 sample_queue)"
    by (rule enqueue_claims [OF sample_queue_ring]) (simp add: can_claim_def)
  then have room: "esrb_queue_enqueue (queue sample_client) \<noteq> Some (None, queue sample_client)"
    by (simp add: sample_client_def)
  have "pending_slots (queue sample_client) = []" "trace sample_client = []" "\<not> closed sample_client"
    using pending_slots_ring [OF sample_queue_ring] by (simp_all add: sample_client_def)
  then show ?thesis
    using callback_queues_message [OF _ q room, of sample_host "Some 7" sample_message] by fastforce
qed

end
