(* ===== verification/Client_Close.thy ===== *)
theory Client_Close
  imports Client_Callback
begin

text \<open>
  Closing a client (client.c, client_answer_occupied to client_size, and the two ends of
  client_native_main): whatever is left is answered and released. Where the code waits for another
  thread, the model takes the steps of that thread at the point of the wait. The ring with
  \<open>client_dequeue\<close> is a source, and \<open>drop_slot\<close> its consumer, in the sense of \<open>Interfaces\<close>.
\<close>

section \<open>The native thread\<close>

text \<open>\<open>client_native_main\<close> before, and after, its watchdog loop.\<close>

definition native_create :: "es_host \<Rightarrow> esrb_client \<Rightarrow> esrb_client" where
  "native_create h s =
     (let result = host_result h (trace s) Es_new_client;
          s = (call Es_new_client s)\<lparr>native := host_native h (trace s)\<rparr>
      in s\<lparr>creation_result := result, client_ready := True\<rparr>)"

definition native_stop :: "esrb_client \<Rightarrow> esrb_client" where
  "native_stop s = s\<lparr>watchdog_stopped := True\<rparr>"

definition native_delete :: "es_host \<Rightarrow> esrb_client \<Rightarrow> esrb_client" where
  "native_delete h s =
     (let result = host_result h (trace s) (Es_delete_client (native s));
          s = call (Es_delete_client (native s)) s
      in if result \<noteq> ES_RETURN_SUCCESS then s\<lparr>delete_errors := delete_errors s + 1\<rparr> else s)"

section \<open>Answering and draining\<close>

definition answer_if_occupied :: "es_host \<Rightarrow> nat \<Rightarrow> esrb_client \<Rightarrow> esrb_client" where
  "answer_if_occupied h index s =
     (if occupied (slot_at (queue s) index) then client_answer_slot h index s else s)"

definition client_answer_occupied :: "es_host \<Rightarrow> esrb_client \<Rightarrow> esrb_client" where
  "client_answer_occupied h s =
     fold (answer_if_occupied h) [0..<unat (capacity (queue s))] s"

definition client_dequeue :: "esrb_client \<Rightarrow> (nat option \<times> esrb_client) option" where
  "client_dequeue s = map_option (\<lambda>(r, q). (r, s\<lparr>queue := q\<rparr>)) (esrb_queue_dequeue (queue s))"

definition drop_slot :: "es_host \<Rightarrow> nat \<Rightarrow> esrb_client \<Rightarrow> (unit \<times> esrb_client) option" where
  "drop_slot h slot s =
     (let s = client_answer_slot h slot s;
          s = call (Es_release_message (message_in s slot)) s
      in map_option (\<lambda>q. ((), s\<lparr>queue := q\<rparr>)) (esrb_queue_release (queue s) slot))"

definition client_drain_and_release :: "es_host \<Rightarrow> esrb_client \<Rightarrow> esrb_client option" where
  "client_drain_and_release h s =
     while_get client_dequeue (\<lambda>slot t. map_option snd (drop_slot h slot t)) s"

section \<open>Closing and freeing\<close>

text \<open>The first wait is for callbacks on other threads: alone, it does not return while one is active.
  The other waits are for the native thread, which is at its timed wait when the client closes.\<close>

definition client_close_native :: "es_host \<Rightarrow> esrb_client \<Rightarrow> esrb_client option" where
  "client_close_native h s =
     (if closed s then Some s
      else let s = s\<lparr>closed := True\<rparr>;
               s = (if native s \<noteq> None then call (Es_unsubscribe_all (native s)) s else s)
      in if active_callbacks s \<noteq> 0 then None
      else let s = (if watchdog_thread_started s then native_stop (s\<lparr>watchdog_running := False\<rparr>) else s)
      in Option.bind (client_drain_and_release h (client_answer_occupied h s)) (\<lambda>s.
        let s = (if watchdog_thread_started s
              then (native_delete h (s\<lparr>delete_ready := True\<rparr>))\<lparr>watchdog_thread_started := False,
                native := None\<rparr>
              else s)
        in Some (esrb_notify h s)))"

text \<open>The result is the struct just before \<open>xfree\<close>, and the descriptors closed.\<close>

definition client_free :: "es_host \<Rightarrow> int \<Rightarrow> esrb_client \<Rightarrow> (esrb_client \<times> int list) option" where
  "client_free h pid s =
     (let owned_here = owner_pid s = 0 \<or> owner_pid s = pid
      in Option.bind
        (if owned_here then client_close_native h s
         else Some (s\<lparr>native := None, watchdog_running := False, closed := True\<rparr>))
        (\<lambda>s. let s = s\<lparr>queue := esrb_queue_destroy (queue s)\<rparr>;
                 s = s\<lparr>watchdog := (if owned_here then esrb_watchdog_destroy (watchdog s)
                   else esrb_watchdog_abandon (watchdog s))\<rparr>
          in Some (s, filter (\<lambda>fd. fd \<ge> 0) [fst (wakeup_fd s), snd (wakeup_fd s)])))"

text \<open>The sizes of the four structs are the compiler's.\<close>

definition client_size :: "nat \<Rightarrow> nat \<Rightarrow> nat \<Rightarrow> nat \<Rightarrow> esrb_client option \<Rightarrow> nat" where
  "client_size sizeof_client sizeof_slot sizeof_request sizeof_entry client =
     (case client of None \<Rightarrow> 0
      | Some s \<Rightarrow> sizeof_client +
          unat (capacity (queue s)) * (sizeof_slot + sizeof_request + sizeof_entry))"

lemma call_more [simp]:
  "watchdog_thread_started (call c s) = watchdog_thread_started s"
  "watchdog_running (call c s) = watchdog_running s" "delete_errors (call c s) = delete_errors s"
  "strict_cache (call c s) = strict_cache s" "creation_result (call c s) = creation_result s"
  by (simp_all add: call_def)

section \<open>A quiet client\<close>

text \<open>The ring is whole, no watchdog reader is inside a slot, and what waits in the ring is occupied.\<close>

definition quiet_queue :: "esrb_queue \<Rightarrow> bool" where
  "quiet_queue q \<longleftrightarrow> valid_queue q \<and> (\<forall>i < length (slots q). readers (slot_at q i) = 0) \<and>
     (\<forall>i \<in> set (pending_slots q). occupied (slot_at q i))"

lemma pending_slots_index:
  assumes "valid_queue q" and "i \<in> set (pending_slots q)"
  shows "i < length (slots q)"
proof -
  obtain k e d R where r: "ring k e d {} {} R q" using assms(1) by (auto simp: valid_queue_def)
  then show ?thesis using assms(2) ring_index [OF r] by (auto simp: pending_slots_ring [OF r])
qed

lemma pending_slots_distinct:
  assumes "valid_queue q"
  shows "distinct (pending_slots q)"
proof -
  obtain k e d R where r: "ring k e d {} {} R q" using assms by (auto simp: valid_queue_def)
  have "inj_on (\<lambda>p. p mod 2 ^ k) {d..<e}"
    using ring_depth_bound [OF r] by (intro inj_onI) (rule window_inj [of d _ "2 ^ k"], auto)
  then show ?thesis by (simp add: pending_slots_ring [OF r] distinct_map)
qed

lemma quiet_queue_ring:
  assumes "valid_queue q"
  obtains k e d R where "ring k e d {} {} R q"
  using assms by (auto simp: valid_queue_def)

section \<open>What answering does\<close>

text \<open>The call that answers a slot with the client's defaults.\<close>

definition default_response :: "esrb_client \<Rightarrow> nat \<Rightarrow> es_call" where
  "default_response s i =
     (let c = slot_client (slot_at (queue s) i); m = message_in s i
      in if msg_event_type m = ES_EVENT_TYPE_AUTH_OPEN
         then Es_respond_flags_result c m (default_flags s) (default_cache s)
         else Es_respond_auth_result c m (default_auth s) (default_cache s))"

definition unanswered :: "esrb_client \<Rightarrow> nat \<Rightarrow> bool" where
  "unanswered s i \<longleftrightarrow> answer_state (slot_at (queue s) i) = ESRB_ANSWER_PENDING"

lemma send_default_trace:
  "trace (send_default h c m s) = trace s @ [if msg_event_type m = ES_EVENT_TYPE_AUTH_OPEN
     then Es_respond_flags_result c m (default_flags s) (default_cache s)
     else Es_respond_auth_result c m (default_auth s) (default_cache s)]"
  by (simp add: send_default_def esrb_send_response_def call_def Let_def)

lemma send_default_more [simp]:
  "active_callbacks (send_default h c m s) = active_callbacks s" "native (send_default h c m s) = native s"
  "watchdog_thread_started (send_default h c m s) = watchdog_thread_started s"
  "delete_errors (send_default h c m s) = delete_errors s" "owner_pid (send_default h c m s) = owner_pid s"
  "default_flags (send_default h c m s) = default_flags s"
  by (simp_all add: send_default_def esrb_send_response_def call_def Let_def default_flags_def)

text \<open>Only answers change: which slots are unanswered, the trace and the error count.\<close>

definition answer_with :: "(nat \<Rightarrow> answer) \<Rightarrow> esrb_queue \<Rightarrow> esrb_queue" where
  "answer_with p q = q\<lparr>slots := map (\<lambda>i. (slots q ! i)\<lparr>answer_state := p i\<rparr>) [0..<length (slots q)]\<rparr>"

definition answers_only :: "esrb_client \<Rightarrow> esrb_client \<Rightarrow> bool" where
  "answers_only s s' \<longleftrightarrow>
     (\<exists>p t n. s' = s\<lparr>queue := answer_with p (queue s), trace := t, response_errors := n\<rparr>)"

lemma answer_with_simps [simp]:
  "answer_with p (answer_with p' q) = answer_with p q"
  "answer_with (\<lambda>i. answer_state (slots q ! i)) q = q"
  "length (slots (answer_with p q)) = length (slots q)"
  "capacity (answer_with p q) = capacity q" "queue_mask (answer_with p q) = queue_mask q"
  "enqueue_position (answer_with p q) = enqueue_position q"
  "dequeue_position (answer_with p q) = dequeue_position q"
  by (auto simp: answer_with_def map_nth intro!: map_upt_eqI)

lemma slot_at_answer_with [simp]:
  "j < length (slots q) \<Longrightarrow> slot_at (answer_with p q) j = (slot_at q j)\<lparr>answer_state := p j\<rparr>"
  by (simp add: answer_with_def slot_at_def)

lemma answers_only_refl [simp]: "answers_only s s"
proof -
  have "s = s\<lparr>queue := answer_with (\<lambda>i. answer_state (slots (queue s) ! i)) (queue s), trace := trace s,
      response_errors := response_errors s\<rparr>" by simp
  then show ?thesis unfolding answers_only_def by blast
qed

lemma answers_only_trans:
  assumes "answers_only s t" and "answers_only t u"
  shows "answers_only s u"
proof -
  obtain p t1 n where t: "t = s\<lparr>queue := answer_with p (queue s), trace := t1, response_errors := n\<rparr>"
    using assms(1) by (auto simp: answers_only_def)
  obtain p' t2 n' where "u = t\<lparr>queue := answer_with p' (queue t), trace := t2, response_errors := n'\<rparr>"
    using assms(2) by (auto simp: answers_only_def)
  then have "u = s\<lparr>queue := answer_with p' (queue s), trace := t2, response_errors := n'\<rparr>"
    by (simp add: t)
  then show ?thesis unfolding answers_only_def by blast
qed

lemma answer_with_ring: "ring k e d U C R (answer_with p q) \<longleftrightarrow> ring k e d U C R q"
  unfolding ring_def by auto

lemma answer_with_quiet:
  "valid_queue (answer_with p q) \<longleftrightarrow> valid_queue q"
  "valid_queue q \<Longrightarrow> pending_slots (answer_with p q) = pending_slots q"
  "quiet_queue (answer_with p q) \<longleftrightarrow> quiet_queue q"
proof -
  show v: "valid_queue (answer_with p q) \<longleftrightarrow> valid_queue q"
    by (simp add: valid_queue_def answer_with_ring)
  have same: "pending_slots (answer_with p q) = pending_slots q"
    by (simp add: pending_slots_def esrb_queue_depth_def slot_of_def)
  then show "pending_slots (answer_with p q) = pending_slots q" .
  show "quiet_queue (answer_with p q) \<longleftrightarrow> quiet_queue q"
    using pending_slots_index [of q] unfolding quiet_queue_def v same by auto
qed

lemma client_answer_slot_answers:
  assumes "i < length (slots (queue s))"
  shows "answers_only s (client_answer_slot h i s)"
proof (cases "unanswered s i")
  case True
  let ?p = "\<lambda>j. if j = i then ESRB_ANSWER_ANSWERED else answer_state (slots (queue s) ! j)"
  have "set_slot i (\<lambda>s. s\<lparr>answer_state := ESRB_ANSWER_ANSWERED\<rparr>) (queue s) = answer_with ?p (queue s)"
    using assms by (auto simp: set_slot_def answer_with_def intro!: esrb_queue.fold_congs nth_equalityI
      split: if_splits)
  then have "client_answer_slot h i s = s\<lparr>queue := answer_with ?p (queue s),
      trace := trace (client_answer_slot h i s), response_errors := response_errors (client_answer_slot h i s)\<rparr>"
    using True by (simp add: client_answer_slot_def cas_answer_def unanswered_def send_default_def
      esrb_send_response_def call_def Let_def)
  then show ?thesis unfolding answers_only_def by blast
next
  case False
  then have "client_answer_slot h i s = s"
    by (simp add: client_answer_slot_def cas_answer_def unanswered_def)
  then show ?thesis by simp
qed

lemma client_answer_slot_unanswered:
  assumes "i < length (slots (queue s))"
  shows "unanswered (client_answer_slot h i s) j \<longleftrightarrow> unanswered s j \<and> j \<noteq> i"
    and "trace (client_answer_slot h i s) =
      trace s @ (if unanswered s i then [default_response s i] else [])"
  using assms by (auto simp: unanswered_def client_answer_slot_def cas_answer_def Let_def
      send_default_trace default_response_def message_in_def default_flags_def)

text \<open>What answers leave alone.\<close>

lemma answers_onlyD:
  assumes "answers_only s s'"
  shows "length (slots (queue s')) = length (slots (queue s))" "capacity (queue s') = capacity (queue s)"
    and "j < length (slots (queue s)) \<Longrightarrow> default_response s' j = default_response s j"
    and "j < length (slots (queue s)) \<Longrightarrow> message_in s' j = message_in s j"
    and "j < length (slots (queue s)) \<Longrightarrow> occupied (slot_at (queue s') j) = occupied (slot_at (queue s) j)"
    and "valid_queue (queue s') \<longleftrightarrow> valid_queue (queue s)"
    and "quiet_queue (queue s') \<longleftrightarrow> quiet_queue (queue s)"
    and "valid_queue (queue s) \<Longrightarrow> pending_slots (queue s') = pending_slots (queue s)"
    and "closed s' = closed s" "native s' = native s" "notified s' = notified s"
    and "watchdog s' = watchdog s" "watchdog_thread_started s' = watchdog_thread_started s"
    and "active_callbacks s' = active_callbacks s" "wakeup_fd s' = wakeup_fd s"
    and "watchdog_running s' = watchdog_running s" "owner_pid s' = owner_pid s"
proof -
  obtain p t n where s': "s' = s\<lparr>queue := answer_with p (queue s), trace := t, response_errors := n\<rparr>"
    using assms by (auto simp: answers_only_def)
  show "length (slots (queue s')) = length (slots (queue s))" "capacity (queue s') = capacity (queue s)"
    "j < length (slots (queue s)) \<Longrightarrow> default_response s' j = default_response s j"
    "j < length (slots (queue s)) \<Longrightarrow> message_in s' j = message_in s j"
    "j < length (slots (queue s)) \<Longrightarrow> occupied (slot_at (queue s') j) = occupied (slot_at (queue s) j)"
    "valid_queue (queue s') \<longleftrightarrow> valid_queue (queue s)"
    "quiet_queue (queue s') \<longleftrightarrow> quiet_queue (queue s)"
    "valid_queue (queue s) \<Longrightarrow> pending_slots (queue s') = pending_slots (queue s)"
    "closed s' = closed s" "native s' = native s" "notified s' = notified s"
    "watchdog s' = watchdog s" "watchdog_thread_started s' = watchdog_thread_started s"
    "active_callbacks s' = active_callbacks s" "wakeup_fd s' = wakeup_fd s"
    "watchdog_running s' = watchdog_running s" "owner_pid s' = owner_pid s"
    by (simp_all add: s' answer_with_quiet default_response_def message_in_def default_flags_def Let_def)
qed

section \<open>Answering the occupied slots\<close>

lemma answer_occupied_fold:
  assumes "\<forall>i \<in> set is. i < length (slots (queue s))" and "distinct is"
  shows "answers_only s (fold (answer_if_occupied h) is s) \<and>
    trace (fold (answer_if_occupied h) is s) = trace s @ map (default_response s)
      (filter (\<lambda>i. occupied (slot_at (queue s) i) \<and> unanswered s i) is) \<and>
    (\<forall>j < length (slots (queue s)).
      unanswered (fold (answer_if_occupied h) is s) j \<longleftrightarrow>
        unanswered s j \<and> \<not> (occupied (slot_at (queue s) j) \<and> j \<in> set is))"
  using assms
proof (induction "is" arbitrary: s)
  case (Cons i "is")
  have i: "i < length (slots (queue s))" using Cons.prems by simp
  define t where "t = answer_if_occupied h i s"
  have t: "answers_only s t" using client_answer_slot_answers [OF i] by (simp add: t_def answer_if_occupied_def)
  note D = answers_onlyD [OF t]
  have u: "unanswered t j \<longleftrightarrow> unanswered s j \<and> \<not> (occupied (slot_at (queue s) j) \<and> j = i)" for j
    using client_answer_slot_unanswered(1) [OF i, of h j] by (auto simp: t_def answer_if_occupied_def)
  have tr: "trace t = trace s @ (if occupied (slot_at (queue s) i) \<and> unanswered s i
      then [default_response s i] else [])"
    using client_answer_slot_unanswered(2) [OF i] by (simp add: t_def answer_if_occupied_def)
  have same: "filter (\<lambda>i. occupied (slot_at (queue t) i) \<and> unanswered t i) is =
      filter (\<lambda>i. occupied (slot_at (queue s) i) \<and> unanswered s i) is"
    using Cons.prems D(5) u by (intro filter_cong) auto
  have resp: "map (default_response t) (filter P is) = map (default_response s) (filter P is)" for P
    using Cons.prems D(3) by auto
  have lens: "\<forall>i \<in> set is. i < length (slots (queue t))" using Cons.prems D(1) by simp
  note IH = Cons.IH [OF lens]
  let ?f = "fold (answer_if_occupied h) is t"
  have "answers_only s ?f" using IH Cons.prems(2) t answers_only_trans by fastforce
  moreover have "trace ?f = trace t @ map (default_response s)
      (filter (\<lambda>i. occupied (slot_at (queue s) i) \<and> unanswered s i) is)"
    using IH Cons.prems(2) by (simp only: same resp) simp
  moreover have "unanswered ?f j \<longleftrightarrow> unanswered s j \<and> \<not> (occupied (slot_at (queue s) j) \<and> j \<in> set (i # is))"
    if "j < length (slots (queue s))" for j
    using IH Cons.prems(2) that u [of j] D(1) D(5) [OF that] by auto
  ultimately show ?case by (simp add: tr flip: t_def)
qed simp

lemma answer_occupied_effect:
  assumes "valid_queue (queue s)"
  shows "answers_only s (client_answer_occupied h s)"
    and "trace (client_answer_occupied h s) = trace s @ map (default_response s)
      (filter (\<lambda>i. occupied (slot_at (queue s) i) \<and> unanswered s i) [0..<length (slots (queue s))])"
    and "\<And>j. j < length (slots (queue s)) \<Longrightarrow>
      unanswered (client_answer_occupied h s) j \<longleftrightarrow> unanswered s j \<and> \<not> occupied (slot_at (queue s) j)"
proof -
  obtain k e d R where r: "ring k e d {} {} R (queue s)" using assms(1) by (rule quiet_queue_ring)
  have "unat (capacity (queue s)) = length (slots (queue s))"
    using ringD(2,3,5) [OF r] by (simp add: unat_pow2)
  then have "client_answer_occupied h s = fold (answer_if_occupied h) [0..<length (slots (queue s))] s"
    by (simp add: client_answer_occupied_def)
  moreover note answer_occupied_fold [of "[0..<length (slots (queue s))]" s h]
  ultimately show "answers_only s (client_answer_occupied h s)"
    "trace (client_answer_occupied h s) = trace s @ map (default_response s)
      (filter (\<lambda>i. occupied (slot_at (queue s) i) \<and> unanswered s i) [0..<length (slots (queue s))])"
    "\<And>j. j < length (slots (queue s)) \<Longrightarrow>
      unanswered (client_answer_occupied h s) j \<longleftrightarrow> unanswered s j \<and> \<not> occupied (slot_at (queue s) j)"
    by auto
qed

section \<open>Draining\<close>

text \<open>The view of a client a drain acts on: how each slot would be answered, its message, whether it
  is unanswered, and the trace. Dropping slot \<open>x\<close> answers it if need be and releases its message.\<close>

type_synonym drain_view =
  "(nat \<Rightarrow> es_call) \<times> (nat \<Rightarrow> es_message) \<times> (nat \<Rightarrow> bool) \<times> es_call list"

definition drain_view :: "esrb_client \<Rightarrow> drain_view" where
  "drain_view s = (default_response s, message_in s, unanswered s, trace s)"

fun drain_act :: "nat \<Rightarrow> drain_view \<Rightarrow> drain_view" where
  "drain_act x (r, m, p, t) =
     (r, m, p(x := False), t @ (if p x then [r x] else []) @ [Es_release_message (m x)])"

lemma drain_act_fold:
  assumes "distinct xs"
  shows "fold drain_act xs (r, m, p, t) = (r, m, \<lambda>i. p i \<and> i \<notin> set xs,
    t @ concat (map (\<lambda>x. (if p x then [r x] else []) @ [Es_release_message (m x)]) xs))"
  using assms
proof (induction xs arbitrary: p t)
  case (Cons x xs)
  then have "map (\<lambda>y. (if (p(x := False)) y then [r y] else []) @ [Es_release_message (m y)]) xs =
      map (\<lambda>y. (if p y then [r y] else []) @ [Es_release_message (m y)]) xs"
    by (intro map_cong) auto
  then have "concat (map (\<lambda>y. (if (p(x := False)) y then [r y] else []) @ [Es_release_message (m y)]) xs) =
      concat (map (\<lambda>y. (if p y then [r y] else []) @ [Es_release_message (m y)]) xs)" by (rule arg_cong)
  moreover have "(\<lambda>i. (p(x := False)) i \<and> i \<notin> set xs) = (\<lambda>i. p i \<and> i \<notin> set (x # xs))" by auto
  moreover have "distinct xs" using Cons.prems by simp
  ultimately show ?case by (simp add: Cons.IH del: fun_upd_apply)
qed simp

text \<open>The fields neither the drain nor the answers touch.\<close>

definition client_frame :: "esrb_client \<Rightarrow> esrb_client" where
  "client_frame s = s\<lparr>queue := zero_queue, trace := [], response_errors := 0\<rparr>"

lemma client_frameD:
  assumes "client_frame s' = client_frame s"
  shows "closed s' = closed s" "native s' = native s" "notified s' = notified s"
    and "watchdog s' = watchdog s" "watchdog_thread_started s' = watchdog_thread_started s"
    and "active_callbacks s' = active_callbacks s" "wakeup_fd s' = wakeup_fd s"
    and "delete_ready s' = delete_ready s" "owner_pid s' = owner_pid s" "pipe_bytes s' = pipe_bytes s"
  using arg_cong [OF assms, of closed] arg_cong [OF assms, of native] arg_cong [OF assms, of notified]
    arg_cong [OF assms, of watchdog] arg_cong [OF assms, of watchdog_thread_started]
    arg_cong [OF assms, of active_callbacks] arg_cong [OF assms, of wakeup_fd]
    arg_cong [OF assms, of delete_ready] arg_cong [OF assms, of owner_pid]
    arg_cong [OF assms, of pipe_bytes]
  by (simp_all add: client_frame_def)

lemma client_dequeue_source: "source client_dequeue (\<lambda>s. quiet_queue (queue s)) (\<lambda>s. pending_slots (queue s))"
proof unfold_locales
  fix s :: esrb_client
  assume "quiet_queue (queue s)" "pending_slots (queue s) = []"
  then show "client_dequeue s = Some (None, s)"
    using queue_source.get_empty [of "queue s"] by (simp add: client_dequeue_def quiet_queue_def)
next
  fix s :: esrb_client and x xs
  assume q: "quiet_queue (queue s)" and cons: "pending_slots (queue s) = x # xs"
  then obtain k e d R where r: "ring k e d {} {} R (queue s)" by (auto simp: quiet_queue_def valid_queue_def)
  have "d < e" using cons by (cases "d < e") (simp_all add: pending_slots_ring [OF r])
  obtain q' where q': "esrb_queue_dequeue (queue s) = Some (Some x, q')" "valid_queue q'" "pending_slots q' = xs"
    using queue_source.get_cons [of "queue s", OF _ cons] q by (auto simp: quiet_queue_def)
  then have "slots q' = slots (queue s)" using dequeue_takes [OF r \<open>d < e\<close>] by auto
  then have "quiet_queue q'" using q q' cons by (auto simp: quiet_queue_def slot_at_def)
  then show "\<exists>s'. client_dequeue s = Some (Some x, s') \<and> quiet_queue (queue s') \<and> pending_slots (queue s') = xs"
    using q' by (simp add: client_dequeue_def)
qed

text \<open>Dropping the slot just dequeued.\<close>

lemma drop_slot_effect:
  assumes q: "quiet_queue (queue s)" and cons: "pending_slots (queue s) = x # xs"
    and get: "client_dequeue s = Some (Some x, s')"
  shows "\<exists>s''. drop_slot h x s' = Some ((), s'') \<and> quiet_queue (queue s'') \<and>
    pending_slots (queue s'') = pending_slots (queue s') \<and> client_frame s'' = client_frame s \<and>
    drain_view s'' = drain_act x (drain_view s)"
proof -
  obtain k e d R where r: "ring k e d {} {} R (queue s)" using q by (auto simp: quiet_queue_def valid_queue_def)
  have "d < e" using cons by (cases "d < e") (simp_all add: pending_slots_ring [OF r])
  have x: "x = d mod 2 ^ k"
    using get dequeue_takes [OF r \<open>d < e\<close>] by (auto simp: client_dequeue_def)
  have s': "s' = s\<lparr>queue := (queue s)\<lparr>dequeue_position := of_nat d + 1\<rparr>\<rparr>"
    using get dequeue_takes [OF r \<open>d < e\<close>] by (auto simp: client_dequeue_def)
  have r': "ring k e (Suc d) {} {} R (queue s')" using ring_take [OF r \<open>d < e\<close>] by (simp add: s')
  have same: "slot_at (queue s') = slot_at (queue s)" by (simp add: s')
  have i: "x < length (slots (queue s'))" using ring_index [OF r'] by (simp add: x)
  have i': "x < length (slots (queue s))" using i by (simp add: s')
  define t where "t = call (Es_release_message (message_in s x)) (client_answer_slot h x s')"
  note E = client_answer_slot_effect [OF r' i, where h = h]
  have rt: "ring k e (Suc d) {} {} R (queue t)" using E(1) by (simp add: t_def)
  have slots_t: "slot_at (queue t) j = (if x = j \<and> unanswered s x
      then (slot_at (queue s) j)\<lparr>answer_state := ESRB_ANSWER_ANSWERED\<rparr> else slot_at (queue s) j)" for j
    by (auto simp: t_def unanswered_def E(2) same)
  have "d \<notin> R" using ringD(11) [OF r] by auto
  moreover have "readers (slot_at (queue t) (d mod 2 ^ k)) = 0"
    using q i' by (simp add: slots_t quiet_queue_def flip: x)
  ultimately obtain q'' where q'': "esrb_queue_release (queue t) x = Some q''"
      "ring k e (Suc d) {} {} (insert d R) q''"
      "\<And>j. slot_at q'' j = (if j = x then (slot_at (queue t) j)\<lparr>occupied := False, sequence := of_nat d + 2 ^ k\<rparr>
        else slot_at (queue t) j)"
    using release_result [OF rt, of d] unfolding x by auto
  have msg: "message_in (client_answer_slot h x s') x = message_in s x"
    by (simp add: message_in_def E(2) same)
  have drop: "drop_slot h x s' = Some ((), t\<lparr>queue := q''\<rparr>)"
    using q''(1) by (simp add: drop_slot_def msg t_def Let_def)
  have pend: "pending_slots q'' = pending_slots (queue s')"
    by (simp add: pending_slots_ring [OF q''(2)] pending_slots_ring [OF r'])
  have xs: "pending_slots (queue s') = xs" "x \<notin> set xs"
    using cons \<open>d < e\<close> pending_slots_distinct [of "queue s"] q unfolding quiet_queue_def
    by (simp_all add: pending_slots_ring [OF r] pending_slots_ring [OF r'] upt_conv_Cons)
  have "quiet_queue q''"
    using q q''(2) xs cons ringD(5) [OF q''(2)] ringD(5) [OF r] unfolding quiet_queue_def pend
    by (auto simp: valid_queue_def q''(3) slots_t)
  moreover have frame: "client_frame (client_answer_slot h x s') = client_frame s'"
    by (simp add: client_answer_slot_def cas_answer_def Let_def send_default_def esrb_send_response_def
      call_def client_frame_def)
  then have "client_frame (t\<lparr>queue := q''\<rparr>) = client_frame s"
    by (simp add: t_def client_frame_def call_def s')
  moreover have "drain_view (t\<lparr>queue := q''\<rparr>) = drain_act x (drain_view s)"
  proof -
    have tr: "trace t = trace s @ (if unanswered s x then [default_response s x] else []) @
        [Es_release_message (message_in s x)]"
      using client_answer_slot_unanswered(2) [OF i, of h]
      by (simp add: t_def s' unanswered_def default_response_def message_in_def default_flags_def Let_def)
    have d: "default_auth t = default_auth s" "default_cache t = default_cache s"
      by (simp_all add: t_def s' client_answer_slot_def cas_answer_def Let_def)
    have "default_response (t\<lparr>queue := q''\<rparr>) = default_response s"
      by (rule ext) (simp add: default_response_def message_in_def q''(3) slots_t default_flags_def d Let_def)
    moreover have "message_in (t\<lparr>queue := q''\<rparr>) = message_in s"
      by (rule ext) (simp add: message_in_def q''(3) slots_t)
    moreover have "unanswered (t\<lparr>queue := q''\<rparr>) = (unanswered s)(x := False)"
      by (rule ext) (simp add: unanswered_def q''(3) slots_t)
    ultimately show ?thesis by (simp add: drain_view_def tr)
  qed
  ultimately show ?thesis using drop pend by auto
qed

interpretation drain: source_consumer client_dequeue "\<lambda>s. quiet_queue (queue s)"
  "\<lambda>s. pending_slots (queue s)" "drop_slot h" "\<lambda>s. (client_frame s, drain_view s)"
  "\<lambda>x (f, v). (f, drain_act x v)" "\<lambda>_. ()" for h
  unfolding source_consumer_def source_consumer_axioms_def
proof (intro conjI allI impI client_dequeue_source)
  fix s :: esrb_client and x xs s'
  assume "quiet_queue (queue s)" "pending_slots (queue s) = x # xs" "client_dequeue s = Some (Some x, s')"
  from drop_slot_effect [OF this, of h]
  show "\<exists>s''. drop_slot h x s' = Some ((), s'') \<and> quiet_queue (queue s'') \<and>
      pending_slots (queue s'') = pending_slots (queue s') \<and>
      (client_frame s'', drain_view s'') = (case (client_frame s, drain_view s) of (f, v) \<Rightarrow> (f, drain_act x v))"
    by simp
next
  fix s s' :: esrb_client
  assume "quiet_queue (queue s)" "pending_slots (queue s) = []" "client_dequeue s = Some (None, s')"
  then show "(client_frame s', drain_view s') = (client_frame s, drain_view s)"
    using source.get_empty [OF client_dequeue_source] by simp
qed

text \<open>A drain answers what is unanswered in the ring, in ring order, and releases every message.\<close>

lemma drain_and_release_effect:
  assumes "quiet_queue (queue s)"
  shows "\<exists>s'. client_drain_and_release h s = Some s' \<and> quiet_queue (queue s') \<and>
    pending_slots (queue s') = [] \<and> client_frame s' = client_frame s \<and>
    (\<forall>i. unanswered s' i \<longleftrightarrow> unanswered s i \<and> i \<notin> set (pending_slots (queue s))) \<and>
    trace s' = trace s @ concat (map (\<lambda>i. (if unanswered s i then [default_response s i] else []) @
      [Es_release_message (message_in s i)]) (pending_slots (queue s)))"
proof -
  have act: "fold (\<lambda>x (f, v). (f, drain_act x v)) xs (f, v) = (f, fold drain_act xs v)"
    for xs f and v :: drain_view
    by (induction xs arbitrary: v) simp_all
  have dist: "distinct (pending_slots (queue s))"
    using assms by (simp add: quiet_queue_def pending_slots_distinct)
  from drain.while_get_drains [OF assms, of h]
  show ?thesis
    by (auto simp: client_drain_and_release_def act drain_act_fold [OF dist] drain_view_def)
qed

text \<open>Closing answers every occupied slot and then drains, which leaves nothing to answer.\<close>

lemma answer_then_drain:
  assumes q: "quiet_queue (queue s)"
  shows "\<exists>s'. client_drain_and_release h (client_answer_occupied h s) = Some s' \<and>
    pending_slots (queue s') = [] \<and> client_frame s' = client_frame (client_answer_occupied h s) \<and>
    trace s' = trace s @ map (default_response s) (filter (\<lambda>i. occupied (slot_at (queue s) i) \<and> unanswered s i)
        [0..<length (slots (queue s))]) @
      map (\<lambda>i. Es_release_message (message_in s i)) (pending_slots (queue s))"
proof -
  define t where "t = client_answer_occupied h s"
  have v: "valid_queue (queue s)" using q by (simp add: quiet_queue_def)
  note A = answer_occupied_effect [OF v, where h = h, folded t_def]
  note D = answers_onlyD [OF A(1)]
  have qt: "quiet_queue (queue t)" "pending_slots (queue t) = pending_slots (queue s)" using D(7,8) q v by simp_all
  have none: "\<not> unanswered t i" "message_in t i = message_in s i" if "i \<in> set (pending_slots (queue s))" for i
    using A(3) [where j = i] D(4) [where j = i] pending_slots_index [of "queue s" i] v that q
    by (simp_all add: quiet_queue_def)
  obtain s' where s': "client_drain_and_release h t = Some s'" "pending_slots (queue s') = []"
      "client_frame s' = client_frame t"
      "trace s' = trace t @ concat (map (\<lambda>i. (if unanswered t i then [default_response t i] else []) @
        [Es_release_message (message_in t i)]) (pending_slots (queue t)))"
    using drain_and_release_effect [OF qt(1)] by blast
  have "map (\<lambda>i. (if unanswered t i then [default_response t i] else []) @
      [Es_release_message (message_in t i)]) (pending_slots (queue s)) =
    map (\<lambda>i. [Es_release_message (message_in s i)]) (pending_slots (queue s))"
    by (intro map_cong) (simp_all add: none)
  then have "trace s' = trace t @ map (\<lambda>i. Es_release_message (message_in s i)) (pending_slots (queue s))"
    by (simp only: s'(4) qt(2) concat_map_singleton)
  then show ?thesis using s'(1-3) A(2) by (intro exI [of _ s']) (simp add: t_def)
qed

section \<open>Closing\<close>

text \<open>Closing an open client whose callbacks have left returns with the client closed, and every
  occupied slot answered: between the unsubscription and the deletion of the native client the calls
  are one default response for each occupied slot still unanswered, in slot order, and then one
  release for each message in the ring, in ring order; the ring is empty. Closing again changes
  nothing.\<close>

lemma close_answers_and_releases:
  assumes "\<not> closed s" and "active_callbacks s = 0" and "quiet_queue (queue s)"
    and "native s = Some c" and "watchdog_thread_started s"
  shows "\<exists>s'. client_close_native h s = Some s' \<and> closed s' \<and> notified s' \<and> native s' = None \<and>
    \<not> watchdog_thread_started s' \<and> \<not> watchdog_running s' \<and> pending_slots (queue s') = [] \<and>
    trace s' = trace s @ [Es_unsubscribe_all (Some c)] @
      map (default_response s) (filter (\<lambda>i. occupied (slot_at (queue s) i) \<and> unanswered s i)
        [0..<length (slots (queue s))]) @
      map (\<lambda>i. Es_release_message (message_in s i)) (pending_slots (queue s)) @
      [Es_delete_client (Some c)] \<and>
    client_close_native h s' = Some s'"
proof -
  define s1 where "s1 = native_stop ((call (Es_unsubscribe_all (Some c)) (s\<lparr>closed := True\<rparr>))
    \<lparr>watchdog_running := False\<rparr>)"
  have q1: "queue s1 = queue s" "unanswered s1 = unanswered s" "default_response s1 = default_response s"
    "message_in s1 = message_in s" "trace s1 = trace s @ [Es_unsubscribe_all (Some c)]"
    "closed s1" "watchdog_thread_started s1" "native s1 = Some c" "\<not> watchdog_running s1"
    using assms by (simp_all add: s1_def native_stop_def unanswered_def default_response_def
      message_in_def call_def default_flags_def fun_eq_iff Let_def)
  have q: "quiet_queue (queue s1)" using assms(3) by (simp add: q1)
  obtain s3 where s3: "client_drain_and_release h (client_answer_occupied h s1) = Some s3"
      "pending_slots (queue s3) = []" "client_frame s3 = client_frame (client_answer_occupied h s1)"
    and t3: "trace s3 = trace s1 @ map (default_response s) (filter
        (\<lambda>i. occupied (slot_at (queue s) i) \<and> unanswered s i) [0..<length (slots (queue s))]) @
      map (\<lambda>i. Es_release_message (message_in s i)) (pending_slots (queue s))"
    using answer_then_drain [OF q, of h] unfolding q1(1-4) by blast
  note D = answers_onlyD [OF answer_occupied_effect(1) [where h = h and s = s1]] and F = client_frameD [OF s3(3)]
  have v: "valid_queue (queue s1)" using q by (simp add: quiet_queue_def)
  define s4 where "s4 = esrb_notify h ((native_delete h (s3\<lparr>delete_ready := True\<rparr>))
    \<lparr>watchdog_thread_started := False, native := None\<rparr>)"
  have n3: "native s3 = Some c" "closed s3" "watchdog_thread_started s3" "\<not> watchdog_running s3"
    using F D [OF v] q1 arg_cong [OF s3(3), of watchdog_running] by (simp_all add: client_frame_def)
  have run: "client_close_native h s = Some s4"
    using assms s3(1) n3(3) q1(7)
    by (simp add: client_close_native_def Let_def s1_def [symmetric] s4_def)
  have s4: "closed s4" "notified s4" "native s4 = None" "\<not> watchdog_thread_started s4" "queue s4 = queue s3"
    "\<not> watchdog_running s4" "trace s4 = trace s3 @ [Es_delete_client (Some c)]"
    using n3 by (simp_all add: s4_def native_delete_def call_def Let_def esrb_notify_def)
  moreover have "client_close_native h s4 = Some s4" using s4(1) by (simp add: client_close_native_def)
  ultimately show ?thesis using run t3 q1(5) s3(2) by (intro exI [of _ s4]) simp
qed

definition loaded_queue :: esrb_queue where
  "loaded_queue = sample_queue\<lparr>enqueue_position := 1, slots :=
     [\<lparr>sequence = 1, occupied = True, slot_message = Some sample_message, slot_client = Some 7,
        slot_position = 0, slot_fire_at = 950, answer_state = ESRB_ANSWER_PENDING, readers = 0,
        watchdog_index = SIZE_MAX\<rparr>, init_slot 1]\<rparr>"

lemma loaded_queue_ring: "ring 1 1 0 {} {} {} loaded_queue"
proof -
  have "1 \<le> m \<and> m < 1 + 2 ^ 1 \<longleftrightarrow> m = 1 \<or> m = 2" for m :: nat by auto
  then show ?thesis
    using ringD(3,4,7) [OF sample_queue_ring]
    by (auto simp: ring_def loaded_queue_def slot_at_def next_sequence_def init_slot_def calloc_slot_def)
qed

lemma loaded_queue_quiet: "quiet_queue loaded_queue" "pending_slots loaded_queue = [0]"
proof -
  show p: "pending_slots loaded_queue = [0]" using pending_slots_ring [OF loaded_queue_ring] by simp
  show "quiet_queue loaded_queue"
    using loaded_queue_ring unfolding quiet_queue_def p
    by (auto simp: valid_queue_def loaded_queue_def slot_at_def init_slot_def calloc_slot_def less_Suc_eq)
qed

lemma close_answers_and_releases_example:
  "\<exists>s'. client_close_native sample_host (sample_client\<lparr>queue := loaded_queue\<rparr>) = Some s' \<and>
    trace s' = [Es_unsubscribe_all (Some 7), Es_respond_auth_result (Some 7) sample_message
      ES_AUTH_RESULT_ALLOW False, Es_release_message sample_message, Es_delete_client (Some 7)]"
proof -
  let ?s = "sample_client\<lparr>queue := loaded_queue\<rparr>"
  have len: "[0..<length (slots loaded_queue)] = [0, 1]" by (simp add: loaded_queue_def upt_rec)
  have slots: "slot_message (slot_at loaded_queue 0) = Some sample_message"
    "slot_client (slot_at loaded_queue 0) = Some 7" "occupied (slot_at loaded_queue 0)"
    "answer_state (slot_at loaded_queue 0) = ESRB_ANSWER_PENDING" "\<not> occupied (slot_at loaded_queue 1)"
    by (simp_all add: loaded_queue_def slot_at_def init_slot_def calloc_slot_def)
  have "default_response ?s 0 = Es_respond_auth_result (Some 7) sample_message ES_AUTH_RESULT_ALLOW False"
    "message_in ?s 0 = sample_message" "unanswered ?s 0"
    by (simp_all add: default_response_def message_in_def unanswered_def slots sample_client_def
      sample_message_def Let_def)
  moreover have "\<not> closed ?s" "active_callbacks ?s = 0" "native ?s = Some 7" "watchdog_thread_started ?s"
    "trace ?s = []" "queue ?s = loaded_queue" by (simp_all add: sample_client_def)
  moreover have "\<not> occupied (slot_at loaded_queue (Suc 0))" using slots(5) by simp
  ultimately show ?thesis
    using close_answers_and_releases [of ?s 7 sample_host] loaded_queue_quiet
    by (auto simp: len slots simp del: esrb_client.select_convs esrb_client.update_convs)
qed

end
