(* ===== verification/Close_Protocol.thy ===== *)
theory Close_Protocol
  imports Protocol_Safety Client_Close
begin

text \<open>
  Closing after any interleaving (client.c, client_answer_occupied). When closing has waited, no callback is
  at work (\<open>Wakeup_Protocol\<close>), the watchdog has stopped, and no other Ruby thread is inside the extension,
  because closing keeps the global lock. What is left is a state of the concurrent system in which every
  thread is idle or holds a message. There, closing answers what the interleaving has left unanswered.
\<close>

section \<open>Two more invariants of the concurrent system\<close>

text \<open>A position on its way has a thread that owns it, and a slot in use is marked occupied.\<close>

definition resting_lives :: "life set" where
  "resting_lives = {Unborn, Published, Released}"

definition owners_ok :: "conc \<Rightarrow> bool" where
  "owners_ok s \<longleftrightarrow> (\<forall>p. life s p \<notin> resting_lives \<longrightarrow> (\<exists>t. owned (threads s t) \<noteq> None \<and> pos s t = p))"

definition occupied_ok :: "nat \<Rightarrow> conc \<Rightarrow> bool" where
  "occupied_ok k s \<longleftrightarrow>
     (\<forall>p. life s p \<in> {Armed, Published, Held} \<longrightarrow> occupied (slot_at (ring_q s) (p mod 2 ^ k)))"

lemma owners_ok_keep:
  assumes ok: "owners_ok s"
    and thr: "threads s' = (threads s)(t := x)" and posn: "\<And>t'. t' \<noteq> t \<Longrightarrow> pos s' t' = pos s t'"
    and life: "\<And>p. p \<noteq> pos s' t \<Longrightarrow> life s' p = life s p"
    and same: "owned (threads s t) \<noteq> None \<Longrightarrow> pos s' t = pos s t"
    and new: "owned x \<noteq> None \<or> life s' (pos s' t) \<in> resting_lives \<or>
      life s' (pos s' t) = life s (pos s' t) \<and> owned (threads s t) = None"
  shows "owners_ok s'"
  unfolding owners_ok_def
proof (intro allI impI)
  fix p assume p: "life s' p \<notin> resting_lives"
  show "\<exists>t'. owned (threads s' t') \<noteq> None \<and> pos s' t' = p"
  proof (cases "p = pos s' t \<and> owned x \<noteq> None")
    case True
    then show ?thesis using thr by (intro exI [of _ t]) simp
  next
    case False
    then have l: "life s p \<notin> resting_lives" and t: "p = pos s' t \<Longrightarrow> owned (threads s t) = None"
      using p new life [of p] by (cases "p = pos s' t"; auto)+
    obtain t' where t': "owned (threads s t') \<noteq> None" "pos s t' = p" using ok l unfolding owners_ok_def by blast
    then have "t' \<noteq> t" using t same by auto
    then show ?thesis using t' thr posn by (intro exI [of _ t']) simp
  qed
qed

lemma owners_ok_go:
  assumes "owners_ok s" and "threads s t = y" and "owned x = None \<longleftrightarrow> owned y = None"
  shows "owners_ok (s\<lparr>ring_q := q, threads := (threads s)(t := x)\<rparr>)"
    and "owners_ok (s\<lparr>threads := (threads s)(t := x)\<rparr>)"
  by (rule owners_ok_keep [OF assms(1), of _ t x]; use assms(2,3) in auto)+

lemma owners_ok_other:
  "owners_ok (s\<lparr>ring_q := q, watch := w\<rparr>) = owners_ok s" "owners_ok (s\<lparr>watch := w\<rparr>) = owners_ok s"
  "owners_ok (respond i s) = owners_ok s" "owners_ok (s\<lparr>ring_q := q\<rparr>) = owners_ok s"
  by (simp_all add: owners_ok_def respond_def)

lemma owners_ok_step:
  assumes ok: "owners_ok s" and "conc_step s s'"
  shows "owners_ok s'"
  using assms(2)
proof cases
  case (enqueue t m pc spurious pc' q)
  then show ?thesis
    by (intro owners_ok_keep [OF ok, of _ t "Enqueueing m pc'"])
      (cases pc; auto simp: Let_def resting_lives_def split: if_splits)+
next
  case (publish t i pc spurious pc' q)
  then show ?thesis
    by (intro owners_ok_keep [OF ok, of _ t "Publishing i pc'"])
      (cases pc; auto simp: resting_lives_def split: if_splits)+
next
  case (dequeue t pc spurious pc' q)
  then show ?thesis
    by (intro owners_ok_keep [OF ok, of _ t "Dequeueing pc'"])
      (cases pc; auto simp: Let_def resting_lives_def split: if_splits)+
next
  case (disarm t i pc pc' q)
  then show ?thesis
    by (intro owners_ok_keep [OF ok, of _ t "Disarming i pc'"])
      (cases pc; auto simp: resting_lives_def split: if_splits)+
next
  case (release t i pc pc' q)
  then show ?thesis
    by (intro owners_ok_keep [OF ok, of _ t "Releasing i pc'"])
      (cases pc; auto simp: resting_lives_def split: if_splits)+
next
  case (fill t m i native fire_at)
  then show ?thesis by (intro owners_ok_keep [OF ok, of _ t "Occupying m i"]) auto
next
  case (occupy t m i)
  then show ?thesis by (intro owners_ok_keep [OF ok, of _ t "Arming m i"]) auto
qed (use ok in \<open>auto simp: owners_ok_other intro!: owners_ok_go\<close>)

lemma occupied_ok_keep:
  assumes ok: "occupied_ok k s"
    and occ: "\<And>i. occupied (slot_at (ring_q s) i) \<Longrightarrow> occupied (slot_at (ring_q s') i)"
    and life: "\<And>p. life s' p \<in> {Armed, Published, Held} \<Longrightarrow> life s p \<in> {Armed, Published, Held}"
  shows "occupied_ok k s'"
  using assms unfolding occupied_ok_def by blast

text \<open>Clearing the flag of a slot whose position is no longer in use.\<close>

lemma occupied_ok_clear:
  assumes inv: "conc_inv k s" and ok: "occupied_ok k s" and p: "life s p \<notin> {Unborn, Released}"
    and occ: "\<And>i. i \<noteq> p mod 2 ^ k \<Longrightarrow> occupied (slot_at (ring_q s') i) = occupied (slot_at (ring_q s) i)"
    and life: "life s' = (life s)(p := l)" "l \<notin> {Armed, Published, Held}"
  shows "occupied_ok k s'"
  unfolding occupied_ok_def
proof (intro allI impI)
  fix p' assume p': "life s' p' \<in> {Armed, Published, Held}"
  then have l: "p' \<noteq> p" "life s p' \<in> {Armed, Published, Held}" using life by (auto split: if_splits)
  then have "p' mod 2 ^ k \<noteq> p mod 2 ^ k" using unreleased_same_slot [OF inv, of p' p] p by auto
  then show "occupied (slot_at (ring_q s') (p' mod 2 ^ k))"
    using ok l(2) occ [of "p' mod 2 ^ k"] unfolding occupied_ok_def by blast
qed

lemma release_clears:
  "release_step i rp r = (rp', q) \<Longrightarrow> j \<noteq> i \<Longrightarrow> occupied (slot_at q j) = occupied (slot_at r j)"
  "release_step i rp r = (rp', q) \<Longrightarrow> rp \<noteq> Rel_Clear \<Longrightarrow> occupied (slot_at q j) = occupied (slot_at r j)"
  by (cases rp; auto simp: slot_fields slot_at_set_slot_neq split: if_splits)+

lemma occupied_ok_step:
  assumes inv: "conc_inv k s" and ok: "occupied_ok k s" and "conc_step s s'"
  shows "occupied_ok k s'"
proof -
  note D = conc_invD [OF inv] and T = thread_okD [OF conc_invD(5) [OF inv]]
  show ?thesis
    using assms(3)
  proof cases
    case (enqueue t m pc spurious pc' q)
    then show ?thesis using enqueue_frame [OF enqueue(4)]
      by (intro occupied_ok_keep [OF ok]) (cases rule: note_enqueue_cases [of pc pc' _ t m]; auto split: if_splits)+
  next
    case (publish t i pc spurious pc' q)
    have "pc = Pub_Store \<Longrightarrow> life s (pos s t) = Armed" using T(1) [of t] publish(2) by simp
    then show ?thesis using publish publish_frame [OF publish(4)]
      by (intro occupied_ok_keep [OF ok]) (cases pc; auto split: if_splits)+
  next
    case (dequeue t pc spurious pc' q)
    show ?thesis
    proof (cases rule: note_dequeue_cases [of pc pc' _ t])
      case (take w i)
      have "life s (length (taken s)) = Published"
        using dequeue_takes_published(3) [OF inv, of t w spurious i q] dequeue take by simp
      then show ?thesis using dequeue dequeue_frame [OF dequeue(4)] take
        by (intro occupied_ok_keep [OF ok]) (auto split: if_splits)
    next
      case other
      then show ?thesis using dequeue dequeue_frame [OF dequeue(4)] by (intro occupied_ok_keep [OF ok]) auto
    qed
  next
    case (fill t m i native fire_at)
    then show ?thesis by (intro occupied_ok_keep [OF ok]) (auto simp: slot_fields split: if_splits)
  next
    case (occupy t m i)
    have m: "i = pos s t mod 2 ^ k" "i < length (slots (ring_q s))"
      using T(2) [of t] occupy ring_index [OF D(2)] by simp_all
    have "occupied (slot_at (ring_q s') j)" if "j = i \<or> occupied (slot_at (ring_q s) j)" for j
      using that m(2) occupy by (cases "j = i") auto
    then show ?thesis using ok m(1) occupy(1) unfolding occupied_ok_def by (auto split: if_splits)
  next
    case (producer_cas t i won q)
    then show ?thesis using cas_frame [OF producer_cas(3)] by (intro occupied_ok_keep [OF ok]) auto
  next
    case (holder_cas t i releasing won q)
    then show ?thesis using cas_frame [OF holder_cas(3)] by (intro occupied_ok_keep [OF ok]) auto
  next
    case (watch_step i position pc pc' q)
    then show ?thesis using due_frame [OF watch_step(5)] by (intro occupied_ok_keep [OF ok]) auto
  next
    case (disarm t i pc pc' q)
    have i: "i = pos s t mod 2 ^ k" using T(2) [of t] disarm(2,3) by (cases pc) auto
    show ?thesis
    proof (cases pc)
      case Rel_Clear
      have "life s (pos s t) = Held" using T(1) [of t] disarm(2) Rel_Clear by simp
      then show ?thesis using disarm release_clears(1) [OF disarm(4)] i Rel_Clear
        by (intro occupied_ok_clear [OF inv ok, of "pos s t" _ Cleared]) auto
    next
      case Rel_Wait
      then show ?thesis using disarm release_clears(2) [OF disarm(4)]
        by (intro occupied_ok_keep [OF ok]) (auto split: if_splits)
    qed (use disarm(3) in simp_all)
  next
    case (release t i pc pc' q)
    have i: "i = pos s t mod 2 ^ k" and l: "life s (pos s t) = Quiet"
      using T(1,2) [of t] release(2,3) by (cases pc; auto)+
    define l' where "l' = (if pc = Rel_Free then Released else Quiet)"
    show ?thesis using release release_clears(1) [OF release(4)] i l
      by (intro occupied_ok_clear [OF inv ok, of "pos s t" _ l']) (cases pc; auto simp: l'_def fun_upd_idem)+
  qed (use ok in \<open>auto simp: occupied_ok_def respond_def\<close>)
qed

lemma system_run_more:
  assumes "system_run k s"
  shows "owners_ok s" and "occupied_ok k s"
proof -
  obtain a q0 q where q: "k \<le> 62" "length (claims s) \<le> 2 ^ 62" "esrb_queue_init a q0 (2 ^ k) = (True, q)" "reachable q s"
    using assms by (auto simp: system_run_def)
  have "length (claims s) \<le> 2 ^ 62 \<longrightarrow> owners_ok s \<and> occupied_ok k s"
    using q(4)
  proof (induction)
    case init
    then show ?case by (simp add: owners_ok_def occupied_ok_def conc_init_def resting_lives_def)
  next
    case (step s s')
    show ?case
    proof
      assume "length (claims s') \<le> 2 ^ 62"
      then have c: "length (claims s) \<le> 2 ^ 62" using claims_step [OF step.hyps(2)] by auto
      have "conc_inv k s" by (rule reachable_conc_inv [OF step.hyps(1) q(3,1) c])
      then show "owners_ok s' \<and> occupied_ok k s'"
        using step.IH c owners_ok_step [OF _ step.hyps(2)] occupied_ok_step [OF _ _ step.hyps(2)] by blast
    qed
  qed
  then show "owners_ok s" "occupied_ok k s" using q(2) by auto
qed

section \<open>A system at rest\<close>

text \<open>What the waits of closing leave: no thread inside the extension, some may hold messages.\<close>

definition at_rest :: "conc \<Rightarrow> bool" where
  "at_rest s \<longleftrightarrow> watch s = Waiting \<and> (\<forall>t. threads s t = Idle \<or> (\<exists>i. threads s t = Holding i))"

lemma at_rest_life:
  assumes "system_run k s" and "at_rest s"
  shows "life s p \<in> {Unborn, Published, Held, Released}"
proof (cases "life s p \<in> resting_lives")
  case False
  then obtain t where t: "owned (threads s t) \<noteq> None" "pos s t = p"
    using system_run_more(1) [OF assms(1)] unfolding owners_ok_def by blast
  then have "owned (threads s t) = Some Held" using assms(2) unfolding at_rest_def by (metis owned.simps)
  then show ?thesis using thread_okD(1) [OF conc_invD(5) [OF system_run_inv [OF assms(1)]]] t by auto
qed (auto simp: resting_lives_def)

lemma at_rest_ring:
  assumes "system_run k s" and "at_rest s"
  shows "ring k (length (claims s)) (length (taken s)) {} {} (released_of (life s)) (ring_q s)"
proof -
  have "life s p \<notin> {Claimed, Marked, Filled, Armed}" for p using at_rest_life [OF assms, of p] by auto
  then have "unmarked_of (life s) = {}" "claimed_of (life s) = {}"
    unfolding unmarked_of_def claimed_of_def by simp_all
  then show ?thesis using conc_invD(2) [OF system_run_inv [OF assms(1)]] by simp
qed

text \<open>The ring is what closing needs: whole, without readers, and what waits in it is occupied.\<close>

lemma at_rest_quiet:
  assumes run: "system_run k s" and rest: "at_rest s"
  shows "quiet_queue (ring_q s)"
    and "pending_slots (ring_q s) = map (\<lambda>p. p mod 2 ^ k) [length (taken s)..<length (claims s)]"
proof -
  note r = at_rest_ring [OF assms] and D = conc_invD [OF system_run_inv [OF run]]
  show pend: "pending_slots (ring_q s) = map (\<lambda>p. p mod 2 ^ k) [length (taken s)..<length (claims s)]"
    by (rule pending_slots_ring [OF r])
  have "readers (slot_at (ring_q s) i) = 0" if "i < length (slots (ring_q s))" for i
    using D(8) rest that ringD(5) [OF r] by (simp add: watch_ok_def at_rest_def)
  moreover have "occupied (slot_at (ring_q s) i)" if i: "i \<in> set (pending_slots (ring_q s))" for i
  proof -
    obtain p where p: "i = p mod 2 ^ k" "length (taken s) \<le> p" "p < length (claims s)" using i pend by auto
    then have "life s p \<notin> {Unborn, Held, Released}" using life_okD [OF D(3), of p] by auto
    then show ?thesis
      using at_rest_life [OF assms, of p] system_run_more(2) [OF run] p(1) unfolding occupied_ok_def by blast
  qed
  ultimately show "quiet_queue (ring_q s)" using r unfolding quiet_queue_def valid_queue_def by blast
qed

text \<open>A position still in use has its answer pending exactly when it is for an AUTH message that the
  run has not answered.\<close>

lemma at_rest_pending:
  assumes run: "system_run k s" and rest: "at_rest s" and p: "life s p \<in> {Published, Held}"
  shows "answer_state (slot_at (ring_q s) (p mod 2 ^ k)) = ESRB_ANSWER_PENDING \<longleftrightarrow>
    is_auth (claims s ! p) \<and> answer_count s p = 0"
proof -
  note D = conc_invD [OF system_run_inv [OF run]]
  have "\<not> thread_sending s p" "\<not> watch_sending k s p"
    using rest unfolding at_rest_def thread_sending_def watch_sending_def by (metis sends.simps watcher.simps(3))+
  then have "fits (answer_state (slot_at (ring_q s) (p mod 2 ^ k))) (is_auth (claims s ! p)) (answer_count s p)"
    using D(9) p unfolding answers_ok_def by (auto simp: filled_lives_def answers_due_def)
  then show ?thesis by (cases "answer_state (slot_at (ring_q s) (p mod 2 ^ k))") auto
qed

text \<open>The slots that closing answers are those of the positions that the run has left unanswered.\<close>

definition unsettled :: "conc \<Rightarrow> nat set" where
  "unsettled s = {p. p < length (claims s) \<and> is_auth (claims s ! p) \<and> answer_count s p = 0}"

lemma at_rest_unsettled:
  assumes run: "system_run k s" and rest: "at_rest s"
  shows "p \<in> unsettled s \<longleftrightarrow> life s p \<in> {Published, Held} \<and>
    answer_state (slot_at (ring_q s) (p mod 2 ^ k)) = ESRB_ANSWER_PENDING"
proof -
  note D = conc_invD [OF system_run_inv [OF run]]
  have "life s p = Released \<Longrightarrow> answer_count s p = of_bool (is_auth (claims s ! p))"
    using D(9) by (simp add: answers_ok_def)
  then show ?thesis
    using at_rest_life [OF assms, of p] at_rest_pending [OF assms, of p] life_okD(1) [OF D(3), of p]
    unfolding unsettled_def by (cases "is_auth (claims s ! p)") auto
qed

lemma unsettled_slots:
  assumes run: "system_run k s" and rest: "at_rest s" and q: "queue c = ring_q s"
  obtains ps where "distinct ps" "set ps = unsettled s"
    "filter (\<lambda>i. occupied (slot_at (queue c) i) \<and> unanswered c i) [0..<length (slots (queue c))] =
      map (\<lambda>p. p mod 2 ^ k) ps"
proof -
  note inv = system_run_inv [OF run] and R = at_rest_ring [OF assms(1,2)]
  note D = conc_invD [OF inv]
  let ?xs = "filter (\<lambda>i. occupied (slot_at (queue c) i) \<and> unanswered c i) [0..<length (slots (queue c))]"
  have len: "length (slots (queue c)) = 2 ^ k" using ringD(5) [OF R] q by simp
  have "\<forall>i \<in> set ?xs. \<exists>p. p mod 2 ^ k = i \<and> p \<in> unsettled s"
  proof
    fix i assume "i \<in> set ?xs"
    then have i: "i < 2 ^ k" "occupied (slot_at (ring_q s) i)"
        "answer_state (slot_at (ring_q s) i) = ESRB_ANSWER_PENDING"
      using len q by (auto simp: unanswered_def)
    obtain p where "p mod 2 ^ k = i" "life s p \<in> {Armed, Published, Held}"
      by (rule slots_ok_occupied [OF D(7) i(1,2)])
    then show "\<exists>p. p mod 2 ^ k = i \<and> p \<in> unsettled s"
      using at_rest_life [OF assms(1,2), of p] at_rest_unsettled [OF assms(1,2), of p] i(3)
      by (intro exI [of _ p]) auto
  qed
  from bchoice [OF this] obtain f where f: "\<forall>i \<in> set ?xs. f i mod 2 ^ k = i \<and> f i \<in> unsettled s"
    by blast
  have "inj_on f (set ?xs)" by (rule inj_on_inverseI [where g = "\<lambda>p. p mod 2 ^ k"]) (use f in blast)
  then have "distinct (map f ?xs)" by (simp add: distinct_map)
  moreover have "set (map f ?xs) = unsettled s"
  proof (intro equalityI subsetI)
    fix p assume p: "p \<in> unsettled s"
    then have l: "life s p \<in> {Published, Held}" "answer_state (slot_at (ring_q s) (p mod 2 ^ k)) = ESRB_ANSWER_PENDING"
      using at_rest_unsettled [OF assms(1,2)] by blast+
    then have "occupied (slot_at (ring_q s) (p mod 2 ^ k))"
      using system_run_more(2) [OF run] unfolding occupied_ok_def by blast
    then have i: "p mod 2 ^ k \<in> set ?xs" using l(2) len q by (simp add: unanswered_def)
    then have "f (p mod 2 ^ k) mod 2 ^ k = p mod 2 ^ k" "life s (f (p mod 2 ^ k)) \<in> {Published, Held}"
      using f at_rest_unsettled [OF assms(1,2)] by blast+
    then have "f (p mod 2 ^ k) = p" using unreleased_same_slot [OF inv] l(1) by auto
    then show "p \<in> set (map f ?xs)" using i by (metis list.set_map image_eqI)
  qed (use f in auto)
  moreover have "?xs = map (\<lambda>p. p mod 2 ^ k) (map f ?xs)"
    unfolding map_map by (rule map_idI [symmetric]) (use f in auto)
  ultimately show thesis by (rule that)
qed

lemma at_rest_message:
  assumes "system_run k s" "at_rest s" and "queue c = ring_q s" and "life s p \<in> {Published, Held}"
  shows "message_in c (p mod 2 ^ k) = claims s ! p"
  using slots_ok_message [OF conc_invD(7) [OF system_run_inv [OF assms(1)]], of p] assms(3,4)
  by (auto simp: message_in_def filled_lives_def)

lemma at_rest_releases:
  assumes run: "system_run k s" and rest: "at_rest s" and q: "queue c = ring_q s"
  shows "map (\<lambda>i. Es_release_message (message_in c i)) (pending_slots (queue c)) =
    map Es_release_message (drop (length (taken s)) (claims s))"
proof -
  note D = conc_invD [OF system_run_inv [OF run]]
  have "message_in c (p mod 2 ^ k) = claims s ! p" if "length (taken s) \<le> p" "p < length (claims s)" for p
  proof -
    have "life s p = Published" using that at_rest_life [OF assms(1,2), of p] life_okD [OF D(3), of p] by auto
    then show ?thesis using at_rest_message [OF assms] by simp
  qed
  then show ?thesis
    unfolding q at_rest_quiet(2) [OF assms(1,2)] by (intro nth_equalityI) simp_all
qed

section \<open>Closing after a run\<close>

text \<open>C8. However the callbacks, the Ruby threads and the watchdog have interleaved, closing the client at
  rest settles everything: between the unsubscription and the deletion of the native client it sends one
  default response for each AUTH message that the run has left unanswered, whether it waits in the ring
  or a Ruby thread holds it, with the message claimed at that position, and none for the others; then it
  releases the messages nobody has taken, in the order they were claimed. The ring is empty, and closing
  again changes nothing.\<close>

theorem close_settles_every_message:
  assumes "system_run k s" and "at_rest s" and "queue c = ring_q s"
    and "\<not> closed c" "active_callbacks c = 0" "native c = Some n" "watchdog_thread_started c"
  shows "\<exists>c' ps. client_close_native h c = Some c' \<and> closed c' \<and> native c' = None \<and>
    pending_slots (queue c') = [] \<and> client_close_native h c' = Some c' \<and>
    trace c' = trace c @ [Es_unsubscribe_all (Some n)] @
      map (\<lambda>p. default_response c (p mod 2 ^ k)) ps @
      map Es_release_message (drop (length (taken s)) (claims s)) @ [Es_delete_client (Some n)] \<and>
    distinct ps \<and>
    set ps = {p. p < length (claims s) \<and> is_auth (claims s ! p) \<and> answer_count s p = 0} \<and>
    (\<forall>p \<in> set ps. message_in c (p mod 2 ^ k) = claims s ! p)"
proof -
  obtain ps where ps: "distinct ps" "set ps = unsettled s"
    "filter (\<lambda>i. occupied (slot_at (queue c) i) \<and> unanswered c i) [0..<length (slots (queue c))] =
      map (\<lambda>p. p mod 2 ^ k) ps"
    by (rule unsettled_slots [OF assms(1-3)])
  have "\<forall>p \<in> set ps. message_in c (p mod 2 ^ k) = claims s ! p"
    using at_rest_message [OF assms(1-3)] at_rest_unsettled [OF assms(1,2)] unfolding ps(2) by blast
  moreover have "quiet_queue (queue c)" using at_rest_quiet(1) [OF assms(1,2)] assms(3) by simp
  note closes = close_answers_and_releases [OF assms(4,5) this assms(6,7), of h,
      unfolded ps(3) at_rest_releases [OF assms(1-3)] map_map comp_def]
  ultimately show ?thesis using closes ps(1,2) unfolding unsettled_def by blast
qed

text \<open>One message is queued, not taken and not answered; closing answers and releases it.\<close>

definition waiting_state :: conc where
  "waiting_state = demo (demo_ring 1 0 1 (demo_slot\<lparr>occupied := True, sequence := 1\<rparr>))
     Idle Waiting [demo_message] [] Published []"

lemma demo_waiting: "reachable demo_queue waiting_state"
  unfolding waiting_state_def
proof -
  note demo_armed [unfolded armed_state_def]
  then have "reachable demo_queue (demo (demo_ring 1 0 0 (demo_slot\<lparr>occupied := True\<rparr>))
       (Publishing 0 (Pub_Maximum 1)) Waiting [demo_message] [] Armed [])"
    by (rule demo_step [OF _ conc_step.publish [of _ 0 _ _ False]], (simp add: demo_simps)+)
  then have "reachable demo_queue (demo (demo_ring 1 0 0 (demo_slot\<lparr>occupied := True\<rparr>))
       (Publishing 0 (Pub_Cas 1 0)) Waiting [demo_message] [] Armed [])"
    by (rule demo_step [OF _ conc_step.publish [of _ 0 _ _ False]], (simp add: demo_simps)+)
  then have "reachable demo_queue (demo (demo_ring 1 0 1 (demo_slot\<lparr>occupied := True\<rparr>))
       (Publishing 0 Pub_Store) Waiting [demo_message] [] Armed [])"
    by (rule demo_step [OF _ conc_step.publish [of _ 0 _ _ False]], (simp add: demo_simps)+)
  then have "reachable demo_queue (demo (demo_ring 1 0 1 (demo_slot\<lparr>occupied := True, sequence := 1\<rparr>))
       (Publishing 0 Pub_Return) Waiting [demo_message] [] Published [])"
    by (rule demo_step [OF _ conc_step.publish [of _ 0 _ _ False]], (simp add: demo_simps)+)
  then show "reachable demo_queue (demo (demo_ring 1 0 1 (demo_slot\<lparr>occupied := True, sequence := 1\<rparr>))
       Idle Waiting [demo_message] [] Published [])"
    by (rule demo_step [OF _ conc_step.published [of _ 0]], (simp add: demo_simps)+)
qed

lemma waiting_run: "system_run 1 waiting_state" "at_rest waiting_state"
  using demo_queue_init demo_waiting
  by (auto simp: system_run_def waiting_state_def at_rest_def)

definition waiting_client :: esrb_client where
  "waiting_client = sample_client\<lparr>queue := ring_q waiting_state\<rparr>"

theorem close_settles_every_message_witness:
  "\<exists>c'. client_close_native sample_host waiting_client = Some c' \<and>
    trace c' = [Es_unsubscribe_all (Some 7), Es_respond_auth_result (Some 7) demo_message ES_AUTH_RESULT_ALLOW False,
      Es_release_message demo_message, Es_delete_client (Some 7)]"
proof -
  let ?c = waiting_client
  have set: "{p. p < length (claims waiting_state) \<and> is_auth (claims waiting_state ! p) \<and>
      answer_count waiting_state p = 0} = {0}"
    by (auto simp: waiting_state_def demo_message_def is_auth_def answer_count_def)
  have h: "queue ?c = ring_q waiting_state" "\<not> closed ?c" "active_callbacks ?c = 0" "native ?c = Some 7"
    "watchdog_thread_started ?c" by (simp_all add: waiting_client_def sample_client_def)
  obtain c' ps where run: "client_close_native sample_host ?c = Some c'" and ps: "distinct ps" "set ps = {0}"
    and tr: "trace c' = trace ?c @ [Es_unsubscribe_all (Some 7)] @ map (\<lambda>p. default_response ?c (p mod 2 ^ 1)) ps @
      map Es_release_message (drop (length (taken waiting_state)) (claims waiting_state)) @ [Es_delete_client (Some 7)]"
    using close_settles_every_message [OF waiting_run h, of sample_host] unfolding set by blast
  have "length ps = Suc 0" using distinct_card [OF ps(1)] ps(2) by simp
  then obtain p where p: "ps = [p]" by (auto simp: length_Suc_conv)
  then have "ps = [0]" using ps(2) by simp
  moreover have "default_response ?c 0 = Es_respond_auth_result (Some 7) demo_message ES_AUTH_RESULT_ALLOW False"
    by (simp add: default_response_def message_in_def waiting_state_def demo_ring_def demo_slot_def slot_at_def
      demo_message_def default_flags_def waiting_client_def sample_client_def)
  ultimately show ?thesis using run tr by (simp add: waiting_state_def waiting_client_def sample_client_def)
qed

end
