(* ===== verification/Wakeup_Protocol.thy ===== *)
theory Wakeup_Protocol
  imports Es_Prelude
begin

text \<open>
  Waking the dispatcher and closing, interleaved with callbacks (client.c, handle_message, esrb_notify,
  client_drain, client_close_native). Any number of callbacks run on threads of the framework. Draining,
  waking and closing run on Ruby threads under the global lock, which none of them gives up, so there is one
  Ruby side. A step is one access to what they share: the count of callbacks, the flags \<open>closed\<close> and
  \<open>notified\<close>, the pipe, and the ring, here by its positions (\<open>claimed\<close>, the published ones, \<open>taken\<close>), which is
  what the interleaved ring of \<open>Protocol\<close> is shown to keep. Memory is sequentially consistent, and the count
  of callbacks does not wrap, which takes \<open>2 ^ 32\<close> callbacks at once.
\<close>

section \<open>State\<close>

text \<open>Where a callback is: outside, counted, on its way to refuse, past the check, holding a claimed position,
  having published it, having won the flag and about to write, about to leave.\<close>

datatype callback = Out | Entered | Refusing | Inside | Claimed nat | Published nat | Writing | Leaving

datatype ruby_side =
    Idle
  | Emptying nat
  | Taking nat
  | Clearing
  | Checking
  | Notifying
  | Byte
  | Close_Wait
  | Close_Work

datatype ruby_call = Drain nat | Wake | Close

record wake =
  active :: nat
  closing :: bool
  flag :: bool
  bytes :: nat
  claimed :: nat
  published :: "nat set"
  taken_to :: nat
  callbacks :: "nat \<Rightarrow> callback"
  ruby :: ruby_side

definition wake_init :: wake where
  "wake_init = \<lparr>active = 0, closing = False, flag = False, bytes = 0, claimed = 0, published = {}, taken_to = 0,
     callbacks = (\<lambda>t. Out), ruby = Idle\<rparr>"

text \<open>A write of one byte to a pipe that holds \<open>cap\<close>; a full pipe refuses it.\<close>

definition write_byte :: "nat \<Rightarrow> wake \<Rightarrow> wake" where
  "write_byte cap s = s\<lparr>bytes := (if bytes s < cap then bytes s + 1 else bytes s)\<rparr>"

section \<open>Steps\<close>

text \<open>The next access of callback \<open>t\<close>; \<open>full\<close> is what a claim finds.\<close>

definition callback_step :: "nat \<Rightarrow> bool \<Rightarrow> nat \<Rightarrow> wake \<Rightarrow> wake" where
  "callback_step cap full t s =
     (let at = (\<lambda>c s. s\<lparr>callbacks := (callbacks s)(t := c)\<rparr>)
      in case callbacks s t of
           Out \<Rightarrow> at Entered (s\<lparr>active := active s + 1\<rparr>)
         | Entered \<Rightarrow> at (if closing s then Refusing else Inside) s
         | Refusing \<Rightarrow> at Out (s\<lparr>active := active s - 1\<rparr>)
         | Inside \<Rightarrow>
             if full then at Leaving s else at (Claimed (claimed s)) (s\<lparr>claimed := claimed s + 1\<rparr>)
         | Claimed p \<Rightarrow> at (Published p) (s\<lparr>published := insert p (published s)\<rparr>)
         | Published p \<Rightarrow> if flag s then at Leaving s else at Writing (s\<lparr>flag := True\<rparr>)
         | Writing \<Rightarrow> at Leaving (write_byte cap s)
         | Leaving \<Rightarrow> at Out (s\<lparr>active := active s - 1\<rparr>))"

text \<open>The accesses of \<open>client_drain\<close>. It takes up to its maximum; with a negative one it raises, which is not a
  step here.\<close>

definition drain_step :: "wake \<Rightarrow> wake" where
  "drain_step s =
     (case ruby s of
        Emptying n \<Rightarrow> if bytes s > 0 then s\<lparr>bytes := bytes s - 256\<rparr> else s\<lparr>ruby := Taking n\<rparr>
      | Taking n \<Rightarrow>
          if n = 0 \<or> taken_to s \<notin> published s then s\<lparr>ruby := Clearing\<rparr>
          else s\<lparr>taken_to := taken_to s + 1, ruby := Taking (n - 1)\<rparr>
      | Clearing \<Rightarrow> s\<lparr>flag := False, ruby := Checking\<rparr>
      | Checking \<Rightarrow> if claimed s - taken_to s > 0 then s\<lparr>ruby := Notifying\<rparr> else s\<lparr>ruby := Idle\<rparr>
      | _ \<Rightarrow> s)"

text \<open>The accesses of \<open>esrb_notify\<close>, called by a drain, by \<open>client_wake\<close> and at the end of closing.\<close>

definition notify_step :: "nat \<Rightarrow> wake \<Rightarrow> wake" where
  "notify_step cap s =
     (case ruby s of
        Notifying \<Rightarrow> if flag s then s\<lparr>ruby := Idle\<rparr> else s\<lparr>flag := True, ruby := Byte\<rparr>
      | Byte \<Rightarrow> (write_byte cap s)\<lparr>ruby := Idle\<rparr>
      | _ \<Rightarrow> s)"

text \<open>The accesses of \<open>client_close_native\<close>: the exchange of \<open>closed\<close>, the wait for the callbacks, the drain.\<close>

definition close_step :: "wake \<Rightarrow> wake" where
  "close_step s =
     (case ruby s of
        Idle \<Rightarrow> if closing s then s else s\<lparr>closing := True, ruby := Close_Wait\<rparr>
      | Close_Wait \<Rightarrow> if active s \<noteq> 0 then s else s\<lparr>ruby := Close_Work\<rparr>
      | Close_Work \<Rightarrow>
          if taken_to s \<in> published s then s\<lparr>taken_to := taken_to s + 1\<rparr> else s\<lparr>ruby := Notifying\<rparr>
      | _ \<Rightarrow> s)"

text \<open>The next access of the Ruby side; \<open>next_call\<close> is what is called next when it is idle.\<close>

definition ruby_step :: "nat \<Rightarrow> ruby_call \<Rightarrow> wake \<Rightarrow> wake" where
  "ruby_step cap next_call s =
     (if ruby s = Idle then
        (case next_call of
           Drain n \<Rightarrow> if closing s then s else s\<lparr>ruby := Emptying n\<rparr>
         | Wake \<Rightarrow> s\<lparr>ruby := Notifying\<rparr>
         | Close \<Rightarrow> close_step s)
      else if ruby s = Close_Wait \<or> ruby s = Close_Work then close_step s
      else if ruby s = Notifying \<or> ruby s = Byte then notify_step cap s
      else drain_step s)"

datatype action = Callback nat bool | Ruby ruby_call

fun wake_step :: "nat \<Rightarrow> action \<Rightarrow> wake \<Rightarrow> wake" where
  "wake_step cap (Callback t full) s = callback_step cap full t s"
| "wake_step cap (Ruby call) s = ruby_step cap call s"

definition wake_run :: "nat \<Rightarrow> action list \<Rightarrow> wake" where
  "wake_run cap actions = fold (wake_step cap) actions wake_init"

section \<open>The invariant\<close>

definition outside :: "callback \<Rightarrow> bool" where
  "outside c \<longleftrightarrow> c \<in> {Out, Entered, Refusing}"

definition counted :: "wake \<Rightarrow> bool" where
  "counted s \<longleftrightarrow> finite {t. callbacks s t \<noteq> Out} \<and> active s = card {t. callbacks s t \<noteq> Out}"

definition positions_ok :: "wake \<Rightarrow> bool" where
  "positions_ok s \<longleftrightarrow> published s \<subseteq> {..<claimed s} \<and> taken_to s \<le> claimed s \<and> {..<taken_to s} \<subseteq> published s \<and>
     (\<forall>p<claimed s. p \<notin> published s \<longrightarrow> (\<exists>t. callbacks s t = Claimed p)) \<and>
     (\<forall>t p. callbacks s t = Claimed p \<longrightarrow> p < claimed s)"

text \<open>A position whose message waits, and whose callback has published and notified.\<close>

definition left_waiting :: "wake \<Rightarrow> nat \<Rightarrow> bool" where
  "left_waiting s p \<longleftrightarrow> taken_to s \<le> p \<and> p < claimed s \<and> (\<forall>t. callbacks s t \<noteq> Claimed p \<and> callbacks s t \<noteq> Published p)"

definition about_to_write :: "wake \<Rightarrow> bool" where
  "about_to_write s \<longleftrightarrow> ruby s = Byte \<or> (\<exists>t. callbacks s t = Writing)"

definition emptied :: "ruby_side \<Rightarrow> bool" where
  "emptied r \<longleftrightarrow> (case r of Emptying n \<Rightarrow> True | Taking n \<Rightarrow> True | Clearing \<Rightarrow> True | _ \<Rightarrow> False)"

definition woken :: "wake \<Rightarrow> bool" where
  "woken s \<longleftrightarrow> (flag s \<and> \<not> emptied (ruby s) \<longrightarrow> bytes s > 0 \<or> about_to_write s) \<and>
     (\<forall>p. left_waiting s p \<longrightarrow> flag s \<or> ruby s \<in> {Checking, Notifying})"

definition closed_ok :: "wake \<Rightarrow> bool" where
  "closed_ok s \<longleftrightarrow> (ruby s = Close_Wait \<or> ruby s = Close_Work \<longrightarrow> closing s) \<and>
     (closing s \<longrightarrow> ruby s \<in> {Idle, Notifying, Byte, Close_Wait, Close_Work}) \<and>
     (closing s \<and> ruby s \<noteq> Close_Wait \<longrightarrow> (\<forall>t. outside (callbacks s t))) \<and>
     (closing s \<and> ruby s \<notin> {Close_Wait, Close_Work} \<longrightarrow> taken_to s = claimed s)"

definition wake_inv :: "wake \<Rightarrow> bool" where
  "wake_inv s \<longleftrightarrow> counted s \<and> positions_ok s \<and> woken s \<and> closed_ok s"

section \<open>Every step keeps it\<close>

lemmas ruby_step_defs = ruby_step_def drain_step_def notify_step_def close_step_def

text \<open>A step, case by case.\<close>

lemma callback_step_simps:
  "callbacks s t = Out \<Longrightarrow>
    callback_step cap full t s = s\<lparr>active := active s + 1, callbacks := (callbacks s)(t := Entered)\<rparr>"
  "callbacks s t = Entered \<Longrightarrow>
    callback_step cap full t s = s\<lparr>callbacks := (callbacks s)(t := if closing s then Refusing else Inside)\<rparr>"
  "callbacks s t = Refusing \<Longrightarrow>
    callback_step cap full t s = s\<lparr>active := active s - 1, callbacks := (callbacks s)(t := Out)\<rparr>"
  "callbacks s t = Inside \<Longrightarrow> callback_step cap full t s =
    (if full then s\<lparr>callbacks := (callbacks s)(t := Leaving)\<rparr>
     else s\<lparr>claimed := claimed s + 1, callbacks := (callbacks s)(t := Claimed (claimed s))\<rparr>)"
  "callbacks s t = Claimed p \<Longrightarrow>
    callback_step cap full t s = s\<lparr>published := insert p (published s), callbacks := (callbacks s)(t := Published p)\<rparr>"
  "callbacks s t = Published p \<Longrightarrow> callback_step cap full t s =
    (if flag s then s\<lparr>callbacks := (callbacks s)(t := Leaving)\<rparr>
     else s\<lparr>flag := True, callbacks := (callbacks s)(t := Writing)\<rparr>)"
  "callbacks s t = Writing \<Longrightarrow> callback_step cap full t s =
    s\<lparr>bytes := (if bytes s < cap then bytes s + 1 else bytes s), callbacks := (callbacks s)(t := Leaving)\<rparr>"
  "callbacks s t = Leaving \<Longrightarrow>
    callback_step cap full t s = s\<lparr>active := active s - 1, callbacks := (callbacks s)(t := Out)\<rparr>"
  by (simp_all add: callback_step_def write_byte_def)

lemma callback_step_frame [simp]:
  "ruby (callback_step cap full t s) = ruby s" "closing (callback_step cap full t s) = closing s"
  "taken_to (callback_step cap full t s) = taken_to s"
  "u \<noteq> t \<Longrightarrow> callbacks (callback_step cap full t s) u = callbacks s u"
  by (cases "callbacks s t"; simp add: callback_step_simps)+

lemma counted_callback: "counted s \<Longrightarrow> counted (callback_step cap full t s)"
proof -
  assume c: "counted s"
  let ?S = "{u. callbacks s u \<noteq> Out}" and ?s' = "callback_step cap full t s"
  have S': "{u. callbacks ?s' u \<noteq> Out} = (if callbacks ?s' t = Out then ?S - {t} else insert t ?S)"
    by (rule set_eqI) (case_tac "x = t"; simp)
  show ?thesis
  proof (cases "callbacks s t = Out")
    case True
    then have "active ?s' = active s + 1" "callbacks ?s' t = Entered" "t \<notin> ?S" by (simp_all add: callback_step_simps)
    then show ?thesis using c unfolding counted_def S' by simp
  next
    case False
    then have t: "t \<in> ?S" by simp
    have a: "active ?s' = (if callbacks ?s' t = Out then active s - 1 else active s)"
      using False by (cases "callbacks s t") (simp_all add: callback_step_simps)
    show ?thesis
      using c t unfolding counted_def S' a by (auto simp: card_Diff_singleton insert_absorb)
  qed
qed

lemma positions_callback:
  assumes "positions_ok s"
  shows "positions_ok (callback_step cap full t s)"
proof -
  let ?s' = "callback_step cap full t s"
  have held: "\<exists>u. callbacks s u = Claimed p" if "p < claimed s" "p \<notin> published s" for p
    using assms that by (simp add: positions_ok_def)
  have keep: "\<exists>u. callbacks ?s' u = Claimed p"
    if p: "p < claimed s" "p \<notin> published s" "callbacks s t \<noteq> Claimed p" for p
  proof -
    obtain u where u: "callbacks s u = Claimed p" using held [OF p(1,2)] by blast
    then have "u \<noteq> t" using p(3) by blast
    then show ?thesis using u by (intro exI [of _ u]) simp
  qed
  have holder: "\<exists>u. callbacks ?s' u = Claimed p" if "p < claimed ?s'" "p \<notin> published ?s'" for p
  proof (cases "callbacks s t = Inside \<and> \<not> full \<and> p = claimed s")
    case True
    then show ?thesis by (intro exI [of _ t]) (simp add: callback_step_simps)
  next
    case False
    then show ?thesis
      using that(1,2) keep [of p]
      by (cases "callbacks s t") (auto simp: callback_step_simps less_Suc_eq split: if_splits)
  qed
  have bound: "callbacks s u = Claimed p \<Longrightarrow> p < claimed s" for u p
    using assms by (simp add: positions_ok_def)
  have "claimed s \<le> claimed ?s'"
    by (cases "callbacks s t") (simp_all add: callback_step_simps)
  moreover have "published s \<subseteq> published ?s'"
    by (cases "callbacks s t") (auto simp: callback_step_simps)
  moreover have "published ?s' \<subseteq> {..<claimed ?s'}"
    using assms bound by (cases "callbacks s t") (auto simp: callback_step_simps positions_ok_def less_Suc_eq)
  moreover have "callbacks ?s' u = Claimed p \<Longrightarrow> p < claimed ?s'" for u p
  proof (cases "u = t")
    case True
    then show "callbacks ?s' u = Claimed p \<Longrightarrow> p < claimed ?s'"
      by (cases "callbacks s t") (auto simp: callback_step_simps split: if_splits)
  next
    case False
    then show "callbacks ?s' u = Claimed p \<Longrightarrow> p < claimed ?s'"
      using bound \<open>claimed s \<le> claimed ?s'\<close> by (auto intro: less_le_trans)
  qed
  moreover have "taken_to s \<le> claimed s" "{..<taken_to s} \<subseteq> published s" using assms by (simp_all add: positions_ok_def)
  ultimately show ?thesis unfolding positions_ok_def using holder by auto
qed

lemma left_waiting_callback:
  assumes "left_waiting (callback_step cap full t s) p"
  shows "left_waiting s p \<or> flag (callback_step cap full t s)"
proof (cases "callbacks s t = Published p")
  case True
  then show ?thesis by (simp add: callback_step_simps)
next
  case False
  let ?s' = "callback_step cap full t s"
  have w: "taken_to s \<le> p" "p < claimed ?s'" "\<And>u. callbacks ?s' u \<noteq> Claimed p \<and> callbacks ?s' u \<noteq> Published p"
    using assms by (simp_all add: left_waiting_def)
  have "p < claimed s"
    using w(2) w(3) [of t] by (cases "callbacks s t") (auto simp: callback_step_simps less_Suc_eq split: if_splits)
  moreover have "callbacks s u \<noteq> Claimed p \<and> callbacks s u \<noteq> Published p" for u
  proof (cases "u = t")
    case True
    have "callbacks s t \<noteq> Claimed p" using w(3) [of t] by (auto simp: callback_step_simps)
    then show ?thesis using True False by simp
  qed (use w(3) [of u] in simp)
  ultimately show ?thesis using w(1) by (simp add: left_waiting_def)
qed

lemma woken_callback:
  assumes "0 < cap" "woken s"
  shows "woken (callback_step cap full t s)"
proof -
  let ?s' = "callback_step cap full t s"
  have others: "about_to_write ?s'" if w: "about_to_write s" "callbacks s t \<noteq> Writing"
  proof (cases "ruby s = Byte")
    case False
    then obtain u where u: "callbacks s u = Writing" using w(1) by (auto simp: about_to_write_def)
    then have "u \<noteq> t" using w(2) by blast
    then show ?thesis using u by (auto simp: about_to_write_def intro!: exI [of _ u])
  qed (simp add: about_to_write_def)
  have "bytes ?s' > 0 \<or> about_to_write ?s'" if "flag ?s'" "\<not> emptied (ruby ?s')"
  proof (cases "callbacks s t = Writing")
    case True
    then show ?thesis using assms(1) by (simp add: callback_step_simps)
  next
    case False
    then have "flag s \<and> bytes ?s' = bytes s \<or> callbacks ?s' t = Writing"
      using that(1) by (cases "callbacks s t") (auto simp: callback_step_simps split: if_splits)
    moreover have "callbacks ?s' t = Writing \<Longrightarrow> about_to_write ?s'" by (auto simp: about_to_write_def)
    moreover have "flag s \<Longrightarrow> bytes s > 0 \<or> about_to_write s" using assms(2) that(2) by (simp add: woken_def)
    ultimately show ?thesis using others [OF _ False] by auto
  qed
  moreover have "flag ?s' \<or> ruby ?s' \<in> {Checking, Notifying}" if "left_waiting ?s' p" for p
  proof -
    have "flag s \<Longrightarrow> flag ?s'" by (cases "callbacks s t") (simp_all add: callback_step_simps)
    then show ?thesis using left_waiting_callback [OF that] assms(2) by (auto simp: woken_def)
  qed
  ultimately show ?thesis unfolding woken_def by blast
qed

lemma closed_callback:
  assumes c: "closed_ok s"
  shows "closed_ok (callback_step cap full t s)"
proof -
  let ?s' = "callback_step cap full t s"
  have claims: "claimed ?s' = claimed s" if "outside (callbacks s t)"
    using that by (auto simp: outside_def callback_step_simps)
  have "outside (callbacks ?s' t)" if "closing s" "outside (callbacks s t)"
    using that by (auto simp: outside_def callback_step_simps)
  then have "outside (callbacks ?s' u)" if "closing s" "\<forall>u. outside (callbacks s u)" for u
    using that by (cases "u = t") simp_all
  then show ?thesis using c claims unfolding closed_ok_def callback_step_frame by auto
qed

lemma counted_ruby: "counted s \<Longrightarrow> counted (ruby_step cap call s)"
  by (simp add: counted_def ruby_step_defs write_byte_def split: ruby_side.splits ruby_call.splits)

lemma positions_ruby: "positions_ok s \<Longrightarrow> positions_ok (ruby_step cap call s)"
  unfolding positions_ok_def ruby_step_defs write_byte_def
  by (cases "ruby s"; cases call) (auto simp: less_Suc_eq)

lemma left_waiting_ruby: "left_waiting (ruby_step cap call s) p \<Longrightarrow> left_waiting s p"
  by (cases "ruby s"; cases call) (auto simp: left_waiting_def ruby_step_defs write_byte_def split: if_splits)

lemma woken_ruby:
  assumes "0 < cap" "woken s"
  shows "woken (ruby_step cap call s)"
proof -
  let ?s' = "ruby_step cap call s"
  have "bytes ?s' > 0 \<or> about_to_write ?s'" if "flag ?s'" "\<not> emptied (ruby ?s')"
    using that assms
    by (cases "ruby s"; cases call)
      (auto simp: woken_def about_to_write_def emptied_def ruby_step_defs write_byte_def split: if_splits)
  moreover have "flag ?s' \<or> ruby ?s' \<in> {Checking, Notifying}" if w: "left_waiting ?s' p" for p
  proof -
    have "flag s \<or> ruby s \<in> {Checking, Notifying}"
      using left_waiting_ruby [OF w] assms(2) by (auto simp: woken_def)
    then show ?thesis using w
      by (cases "ruby s"; cases call) (auto simp: ruby_step_defs write_byte_def left_waiting_def)
  qed
  ultimately show ?thesis by (auto simp: woken_def)
qed

lemma closed_okD:
  assumes "closed_ok s"
  shows "ruby s = Close_Wait \<Longrightarrow> closing s" "ruby s = Close_Work \<Longrightarrow> closing s"
    "closing s \<Longrightarrow> ruby s \<in> {Idle, Notifying, Byte, Close_Wait, Close_Work}"
    "closing s \<Longrightarrow> ruby s \<noteq> Close_Wait \<Longrightarrow> outside (callbacks s t)"
    "closing s \<Longrightarrow> ruby s \<notin> {Close_Wait, Close_Work} \<Longrightarrow> taken_to s = claimed s"
  using assms by (simp_all add: closed_ok_def)

lemma closed_ruby:
  assumes "counted s" "positions_ok s" "closed_ok s"
  shows "closed_ok (ruby_step cap call s)"
proof (cases "closing s")
  case False
  then have "ruby s \<noteq> Close_Wait" "ruby s \<noteq> Close_Work" using closed_okD(1,2) [OF assms(3)] by blast+
  then show ?thesis using False
    by (cases "ruby s"; cases call) (simp_all add: closed_ok_def ruby_step_defs write_byte_def)
next
  case True
  note D = closed_okD [OF assms(3)]
  have "ruby s \<in> {Idle, Notifying, Byte, Close_Wait, Close_Work}" by (rule D(3) [OF True])
  then consider "ruby s = Close_Wait" | "ruby s = Close_Work" | "ruby s \<in> {Idle, Notifying, Byte}" by blast
  then show ?thesis
  proof cases
    case 1
    have "\<forall>t. outside (callbacks s t)" if "active s = 0"
      using that assms(1) by (auto simp: counted_def outside_def)
    then show ?thesis using True 1 by (simp add: closed_ok_def ruby_step_defs)
  next
    case 2
    have out: "\<forall>t. outside (callbacks s t)" using D(4) [OF True] 2 by simp
    have "taken_to s = claimed s" if waits: "taken_to s \<notin> published s"
    proof (rule ccontr)
      assume "taken_to s \<noteq> claimed s"
      then have "taken_to s < claimed s" using assms(2) by (simp add: positions_ok_def)
      then obtain t where "callbacks s t = Claimed (taken_to s)"
        using assms(2) waits unfolding positions_ok_def by blast
      then show False using out [THEN spec, of t] by (simp add: outside_def)
    qed
    then show ?thesis using True 2 out by (simp add: closed_ok_def ruby_step_defs)
  next
    case 3
    then have "taken_to s = claimed s" "\<forall>t. outside (callbacks s t)" using D(4,5) [OF True] by auto
    then show ?thesis using True 3
      by (cases "ruby s"; cases call) (simp_all add: closed_ok_def ruby_step_defs write_byte_def)
  qed
qed

lemma wake_step_inv: "0 < cap \<Longrightarrow> wake_inv s \<Longrightarrow> wake_inv (wake_step cap a s)"
  by (cases a) (simp_all add: wake_inv_def counted_callback positions_callback woken_callback closed_callback
    counted_ruby positions_ruby woken_ruby closed_ruby)

lemma wake_run_inv:
  assumes "0 < cap"
  shows "wake_inv (wake_run cap actions)"
proof -
  have "wake_inv wake_init"
    by (simp add: wake_inv_def counted_def positions_ok_def woken_def closed_ok_def left_waiting_def wake_init_def)
  moreover have "wake_inv s \<Longrightarrow> wake_inv (fold (wake_step cap) as s)" for as s
    by (induction as arbitrary: s) (simp_all add: wake_step_inv [OF assms])
  ultimately show ?thesis by (simp add: wake_run_def)
qed

section \<open>Claims\<close>

text \<open>C6. Closing excludes callbacks: once it has waited, no callback works on the ring or will, whatever the
  order of their steps, and once it has drained the ring, every message that was ever claimed has been
  taken.\<close>

theorem close_excludes_callbacks:
  assumes "0 < cap" and "closing (wake_run cap actions)" "ruby (wake_run cap actions) \<noteq> Close_Wait"
  shows "callbacks (wake_run cap actions) t \<in> {Out, Entered, Refusing} \<and>
    (ruby (wake_run cap actions) \<noteq> Close_Work \<longrightarrow>
      taken_to (wake_run cap actions) = claimed (wake_run cap actions))"
  using wake_run_inv [OF assms(1), of actions] assms(2,3)
  unfolding wake_inv_def closed_ok_def outside_def by blast

definition callback_run :: "nat \<Rightarrow> nat \<Rightarrow> action list" where
  "callback_run t n = replicate n (Callback t False)"

text \<open>A callback is in the middle of its work when closing starts; another one comes later.\<close>

definition closing_run :: "action list" where
  "closing_run = callback_run 1 3 @ [Ruby Close, Ruby Close] @ callback_run 1 4 @ callback_run 2 2 @ callback_run 2 1 @
     [Ruby Close, Ruby Close, Ruby Close]"

lemma closing_run_state:
  "wake_run 16 closing_run = \<lparr>active = 0, closing = True, flag = True, bytes = 1, claimed = 1, published = {0},
     taken_to = 1, callbacks = (\<lambda>t. Out), ruby = Notifying\<rparr>"
  by (simp add: wake_run_def closing_run_def callback_run_def wake_init_def callback_step_def ruby_step_defs
      write_byte_def fun_eq_iff eval_nat_numeral)

theorem close_excludes_callbacks_witness:
  "taken_to (wake_run 16 closing_run) = claimed (wake_run 16 closing_run) \<and> claimed (wake_run 16 closing_run) = 1"
  using close_excludes_callbacks [of 16 closing_run 0] by (simp add: closing_run_state)


text \<open>The message of a second callback arrives after the pipe has been emptied and before the flag is cleared.\<close>

definition racing_run :: "action list" where
  "racing_run = callback_run 1 7 @ [Ruby (Drain 1), Ruby Wake, Ruby Wake] @ callback_run 2 6 @ replicate 6 (Ruby Wake)"

lemma racing_run_state:
  "wake_run 16 racing_run = \<lparr>active = 0, closing = False, flag = True, bytes = 1, claimed = 2, published = {0, 1},
     taken_to = 1, callbacks = (\<lambda>t. Out), ruby = Idle\<rparr>"
  by (simp add: wake_run_def racing_run_def callback_run_def wake_init_def callback_step_def ruby_step_defs
      write_byte_def fun_eq_iff eval_nat_numeral insert_commute)


end
