(* ===== verification/Native_Handshake.thy ===== *)
theory Native_Handshake
  imports Es_Prelude
begin

text \<open>
  The native thread of a client and the Ruby thread that starts and closes it (client.c, client_native_main,
  the end of client_initialize, and client_close_native once the callbacks have left), interleaved at every access to what they share: a mutex, a
  condition variable, four atomic flags. A wait on the condition variable gives up the mutex and sleeps in one
  step, as POSIX has it; a sleeper is woken by a broadcast, or for no reason at all, and a timed wait also
  by its clock. Memory is sequentially consistent. What the threads do between these accesses is modelled elsewhere: the
  rounds in \<open>Watchdog_Thread\<close>, answering and draining in \<open>Client_Close\<close>.
\<close>

section \<open>State\<close>

text \<open>Where the native thread is. It makes the native client and reports the result under the mutex; if that
  went well it runs the watchdog loop with its timed wait; then it waits to be told to delete the client.\<close>

datatype native_at =
    Unstarted
  | Creating
  | Result_Lock
  | Result_Store
  | Result_Broadcast
  | Result_Unlock
  | Loop_Check
  | Round
  | Timer_Lock
  | Timer_Wait
  | Timer_Asleep
  | Timer_Woken
  | Timer_Unlock
  | Loop_Left
  | Delete_Lock
  | Delete_Check
  | Delete_Asleep
  | Delete_Woken
  | Delete_Unlock
  | Deleting
  | Returned

text \<open>Where the Ruby thread is: it starts the native thread, waits for the result, and later closes.\<close>

datatype ruby_at =
    Starting
  | Ready_Lock
  | Ready_Check
  | Ready_Asleep
  | Ready_Woken
  | Ready_Unlock
  | Reading
  | Open
  | Stop_Broadcast
  | Spinning
  | Settling
  | Close_Lock
  | Close_Store
  | Close_Broadcast
  | Close_Unlock
  | Joining
  | Finished

datatype party = Native | Ruby

datatype event = New_Client | Settled | Delete_Client | Joined

record handshake =
  holder :: "party option"
  running :: bool
  stopped :: bool
  ready :: bool
  deletable :: bool
  created :: bool
  native_at :: native_at
  ruby_at :: ruby_at
  events :: "event list"

definition handshake_init :: handshake where
  "handshake_init = \<lparr>holder = None, running = True, stopped = False, ready = False, deletable = False,
     created = False, native_at = Unstarted, ruby_at = Starting, events = []\<rparr>"

section \<open>Steps\<close>

text \<open>A thread that asks for a mutex somebody holds stays where it is.\<close>

definition lock :: "party \<Rightarrow> (handshake \<Rightarrow> handshake) \<Rightarrow> handshake \<Rightarrow> handshake" where
  "lock p go_on s = (if holder s = None then go_on (s\<lparr>holder := Some p\<rparr>) else s)"

definition unlock :: "handshake \<Rightarrow> handshake" where
  "unlock s = s\<lparr>holder := None\<rparr>"

definition broadcast :: "handshake \<Rightarrow> handshake" where
  "broadcast s = s\<lparr>
     native_at := (case native_at s of Timer_Asleep \<Rightarrow> Timer_Woken | Delete_Asleep \<Rightarrow> Delete_Woken | n \<Rightarrow> n),
     ruby_at := (case ruby_at s of Ready_Asleep \<Rightarrow> Ready_Woken | r \<Rightarrow> r)\<rparr>"

text \<open>The next access of the native thread. \<open>ok\<close> is whether \<open>es_new_client\<close> succeeds, \<open>spurious\<close> whether a
  sleep ends for no reason.\<close>

definition native_main_step :: "bool \<Rightarrow> bool \<Rightarrow> handshake \<Rightarrow> handshake" where
  "native_main_step ok spurious s =
     (let at = (\<lambda>n s. s\<lparr>native_at := n\<rparr>)
      in case native_at s of
           Unstarted \<Rightarrow> s
         | Creating \<Rightarrow> at Result_Lock (s\<lparr>created := ok, events := events s @ [New_Client]\<rparr>)
         | Result_Lock \<Rightarrow> lock Native (at Result_Store) s
         | Result_Store \<Rightarrow> at Result_Broadcast (s\<lparr>ready := True\<rparr>)
         | Result_Broadcast \<Rightarrow> at Result_Unlock (broadcast s)
         | Result_Unlock \<Rightarrow> at (if created s then Loop_Check else Returned) (unlock s)
         | Loop_Check \<Rightarrow> at (if running s then Round else Loop_Left) s
         | Round \<Rightarrow> at Timer_Lock s
         | Timer_Lock \<Rightarrow> lock Native (at Timer_Wait) s
         | Timer_Wait \<Rightarrow> at Timer_Asleep (unlock s)
         | Timer_Asleep \<Rightarrow> at Timer_Woken s
         | Timer_Woken \<Rightarrow> lock Native (at Timer_Unlock) s
         | Timer_Unlock \<Rightarrow> at Loop_Check (unlock s)
         | Loop_Left \<Rightarrow> at Delete_Lock (s\<lparr>stopped := True\<rparr>)
         | Delete_Lock \<Rightarrow> lock Native (at Delete_Check) s
         | Delete_Check \<Rightarrow> if deletable s then at Delete_Unlock s else at Delete_Asleep (unlock s)
         | Delete_Asleep \<Rightarrow> if spurious then at Delete_Woken s else s
         | Delete_Woken \<Rightarrow> lock Native (at Delete_Check) s
         | Delete_Unlock \<Rightarrow> at Deleting (unlock s)
         | Deleting \<Rightarrow> at Returned (s\<lparr>events := events s @ [Delete_Client]\<rparr>)
         | Returned \<Rightarrow> s)"

text \<open>The next access of the Ruby thread; a thread that spins or joins stays where it is until it may go on.\<close>

definition opener_step :: "bool \<Rightarrow> handshake \<Rightarrow> handshake" where
  "opener_step spurious s =
     (let at = (\<lambda>r s. s\<lparr>ruby_at := r\<rparr>)
      in case ruby_at s of
           Starting \<Rightarrow> at Ready_Lock (s\<lparr>native_at := Creating\<rparr>)
         | Ready_Lock \<Rightarrow> lock Ruby (at Ready_Check) s
         | Ready_Check \<Rightarrow> if ready s then at Ready_Unlock s else at Ready_Asleep (unlock s)
         | Ready_Asleep \<Rightarrow> if spurious then at Ready_Woken s else s
         | Ready_Woken \<Rightarrow> lock Ruby (at Ready_Check) s
         | Ready_Unlock \<Rightarrow> at Reading (unlock s)
         | Reading \<Rightarrow> at (if created s then Open else Joining) s
         | Open \<Rightarrow> at Stop_Broadcast (s\<lparr>running := False\<rparr>)
         | Stop_Broadcast \<Rightarrow> at Spinning (broadcast s)
         | Spinning \<Rightarrow> if stopped s then at Settling s else s
         | Settling \<Rightarrow> at Close_Lock (s\<lparr>events := events s @ [Settled]\<rparr>)
         | Close_Lock \<Rightarrow> lock Ruby (at Close_Store) s
         | Close_Store \<Rightarrow> at Close_Broadcast (s\<lparr>deletable := True\<rparr>)
         | Close_Broadcast \<Rightarrow> at Close_Unlock (broadcast s)
         | Close_Unlock \<Rightarrow> at Joining (unlock s)
         | Joining \<Rightarrow> if native_at s = Returned then at Finished (s\<lparr>events := events s @ [Joined]\<rparr>) else s
         | Finished \<Rightarrow> s)"

datatype turn = Native_Turn bool bool | Ruby_Turn bool

fun handshake_step :: "turn \<Rightarrow> handshake \<Rightarrow> handshake" where
  "handshake_step (Native_Turn ok spurious) s = native_main_step ok spurious s"
| "handshake_step (Ruby_Turn spurious) s = opener_step spurious s"

definition handshake_run :: "turn list \<Rightarrow> handshake" where
  "handshake_run turns = fold handshake_step turns handshake_init"

text \<open>The two threads take turns \<open>n\<close> times, and nobody wakes up for no reason.\<close>

fun take_turns :: "bool \<Rightarrow> nat \<Rightarrow> handshake \<Rightarrow> handshake" where
  "take_turns ok 0 s = s"
| "take_turns ok (Suc n) s = take_turns ok n (opener_step False (native_main_step ok False s))"

section \<open>The invariant\<close>

text \<open>How far a thread has come, in phases that the flags tell apart, and whether it is inside the mutex.\<close>

fun native_phase :: "native_at \<Rightarrow> nat" where
  "native_phase Unstarted = 0"
| "native_phase Creating = 1"
| "native_phase Result_Lock = 2"
| "native_phase Result_Store = 2"
| "native_phase Result_Broadcast = 3"
| "native_phase Result_Unlock = 4"
| "native_phase Loop_Left = 6"
| "native_phase Delete_Lock = 7"
| "native_phase Delete_Check = 7"
| "native_phase Delete_Asleep = 7"
| "native_phase Delete_Woken = 7"
| "native_phase Delete_Unlock = 8"
| "native_phase Deleting = 8"
| "native_phase Returned = 9"
| "native_phase _ = 5"

fun ruby_phase :: "ruby_at \<Rightarrow> nat" where
  "ruby_phase Starting = 0"
| "ruby_phase Ready_Unlock = 2"
| "ruby_phase Reading = 2"
| "ruby_phase Open = 3"
| "ruby_phase Stop_Broadcast = 4"
| "ruby_phase Spinning = 4"
| "ruby_phase Settling = 5"
| "ruby_phase Close_Lock = 6"
| "ruby_phase Close_Store = 6"
| "ruby_phase Close_Broadcast = 7"
| "ruby_phase Close_Unlock = 7"
| "ruby_phase Joining = 8"
| "ruby_phase Finished = 9"
| "ruby_phase _ = 1"

fun native_holds :: "native_at \<Rightarrow> bool" where
  "native_holds Result_Store = True"
| "native_holds Result_Broadcast = True"
| "native_holds Result_Unlock = True"
| "native_holds Timer_Wait = True"
| "native_holds Timer_Unlock = True"
| "native_holds Delete_Check = True"
| "native_holds Delete_Unlock = True"
| "native_holds _ = False"

fun ruby_holds :: "ruby_at \<Rightarrow> bool" where
  "ruby_holds Ready_Check = True"
| "ruby_holds Ready_Unlock = True"
| "ruby_holds Close_Store = True"
| "ruby_holds Close_Broadcast = True"
| "ruby_holds Close_Unlock = True"
| "ruby_holds _ = False"

text \<open>Where the two can be together: nobody is ahead of the flag it waited for, nobody sleeps who has been
  told, and they are not inside the mutex at once.\<close>

definition together :: "native_at \<Rightarrow> ruby_at \<Rightarrow> bool \<Rightarrow> bool" where
  "together n r c \<longleftrightarrow>
     (native_phase n = 0 \<longleftrightarrow> ruby_phase r = 0) \<and>
     (native_phase n \<le> 1 \<longrightarrow> \<not> c) \<and>
     (5 \<le> native_phase n \<and> native_phase n \<le> 8 \<longrightarrow> c) \<and>
     (3 \<le> ruby_phase r \<and> ruby_phase r \<le> 7 \<longrightarrow> c) \<and>
     (2 \<le> ruby_phase r \<longrightarrow> 3 \<le> native_phase n) \<and>
     (6 \<le> native_phase n \<and> c \<longrightarrow> 4 \<le> ruby_phase r) \<and>
     (5 \<le> ruby_phase r \<and> c \<longrightarrow> 7 \<le> native_phase n) \<and>
     (8 \<le> native_phase n \<and> c \<longrightarrow> 7 \<le> ruby_phase r) \<and>
     (r = Ready_Asleep \<longrightarrow> native_phase n \<le> 3) \<and>
     (n = Delete_Asleep \<and> 7 \<le> ruby_phase r \<longrightarrow> r = Close_Broadcast) \<and>
     (ruby_phase r = 9 \<longrightarrow> native_phase n = 9) \<and>
     \<not> (native_holds n \<and> ruby_holds r)"

text \<open>Everything else follows from where the two are, and whether the native client was made.\<close>

definition state_of :: "native_at \<Rightarrow> ruby_at \<Rightarrow> bool \<Rightarrow> handshake" where
  "state_of n r c = \<lparr>
     holder = (if native_holds n then Some Native else if ruby_holds r then Some Ruby else None),
     running = (ruby_phase r \<le> 3 \<or> \<not> c),
     stopped = (7 \<le> native_phase n \<and> c),
     ready = (3 \<le> native_phase n),
     deletable = (7 \<le> ruby_phase r \<and> c),
     created = c, native_at = n, ruby_at = r,
     events = (if 2 \<le> native_phase n then [New_Client] else []) @
       (if 6 \<le> ruby_phase r \<and> c then [Settled] else []) @
       (if native_phase n = 9 \<and> c then [Delete_Client] else []) @
       (if ruby_phase r = 9 then [Joined] else [])\<rparr>"

definition handshake_inv :: "handshake \<Rightarrow> bool" where
  "handshake_inv s \<longleftrightarrow> together (native_at s) (ruby_at s) (created s) \<and>
     s = state_of (native_at s) (ruby_at s) (created s)"

lemmas handshake_defs = native_main_step_def opener_step_def lock_def unlock_def broadcast_def Let_def
  handshake_inv_def together_def state_of_def

lemma handshake_invE:
  assumes "handshake_inv s"
  obtains n r c where "s = state_of n r c" "together n r c"
  using assms unfolding handshake_inv_def by blast

lemma handshake_inv_init: "handshake_inv handshake_init"
  by (simp add: handshake_defs handshake_init_def)

lemma native_main_step_inv:
  assumes "handshake_inv s"
  shows "handshake_inv (native_main_step ok spurious s)"
proof -
  obtain n r c where s: "s = state_of n r c" "together n r c" using assms by (rule handshake_invE)
  show ?thesis using s(2) unfolding s(1) by (cases n; cases r; cases c; simp add: handshake_defs)
qed

lemma opener_step_inv:
  assumes "handshake_inv s"
  shows "handshake_inv (opener_step spurious s)"
proof -
  obtain n r c where s: "s = state_of n r c" "together n r c" using assms by (rule handshake_invE)
  show ?thesis using s(2) unfolding s(1) by (cases r; cases n; cases c; simp add: handshake_defs)
qed

lemma handshake_run_inv: "handshake_inv (handshake_run turns)"
proof -
  have "handshake_inv (fold handshake_step turns s)" if "handshake_inv s" for s
    using that
  proof (induction turns arbitrary: s)
    case (Cons a turns)
    then show ?case using native_main_step_inv opener_step_inv by (cases a) simp_all
  qed simp
  then show ?thesis using handshake_inv_init by (simp add: handshake_run_def)
qed

section \<open>Progress\<close>

text \<open>What each thread has left, as far as the flags let it see. Going round a wait costs nothing once the
  flag is set, and going round the watchdog loop costs nothing once it is to stop.\<close>

fun native_left :: "native_at \<Rightarrow> bool \<Rightarrow> bool \<Rightarrow> nat" where
  "native_left Unstarted on told = 23"
| "native_left Creating on told = 22"
| "native_left Result_Lock on told = 21"
| "native_left Result_Store on told = 20"
| "native_left Result_Broadcast on told = 19"
| "native_left Result_Unlock on told = 18"
| "native_left Loop_Check on told = (if on then 17 else 10)"
| "native_left Round on told = 16"
| "native_left Timer_Lock on told = 15"
| "native_left Timer_Wait on told = 14"
| "native_left Timer_Asleep on told = 13"
| "native_left Timer_Woken on told = 12"
| "native_left Timer_Unlock on told = 11"
| "native_left Loop_Left on told = 9"
| "native_left Delete_Lock on told = (if told then 4 else 8)"
| "native_left Delete_Woken on told = (if told then 4 else 8)"
| "native_left Delete_Check on told = (if told then 3 else 7)"
| "native_left Delete_Asleep on told = (if told then 5 else 6)"
| "native_left Delete_Unlock on told = 2"
| "native_left Deleting on told = 1"
| "native_left Returned on told = 0"

fun ruby_left :: "ruby_at \<Rightarrow> bool \<Rightarrow> nat" where
  "ruby_left Starting told = 19"
| "ruby_left Ready_Lock told = (if told then 14 else 18)"
| "ruby_left Ready_Woken told = (if told then 14 else 18)"
| "ruby_left Ready_Check told = (if told then 13 else 17)"
| "ruby_left Ready_Asleep told = (if told then 15 else 16)"
| "ruby_left Ready_Unlock told = 12"
| "ruby_left Reading told = 11"
| "ruby_left Open told = 10"
| "ruby_left Stop_Broadcast told = 9"
| "ruby_left Spinning told = 8"
| "ruby_left Settling told = 7"
| "ruby_left Close_Lock told = 6"
| "ruby_left Close_Store told = 5"
| "ruby_left Close_Broadcast told = 4"
| "ruby_left Close_Unlock told = 3"
| "ruby_left Joining told = 2"
| "ruby_left Finished told = 0"

definition steps_left :: "handshake \<Rightarrow> nat" where
  "steps_left s = 24 * ruby_left (ruby_at s) (ready s) + native_left (native_at s) (running s) (deletable s)"

lemma turn_progress:
  assumes "handshake_inv s" and "ruby_at s \<noteq> Finished"
  shows "steps_left (opener_step False (native_main_step ok False s)) < steps_left s"
proof -
  obtain n r c where s: "s = state_of n r c" "together n r c" using assms(1) by (rule handshake_invE)
  have "ruby_at (state_of n r c) \<noteq> Finished" using assms(2) s(1) by simp
  then show ?thesis using s(2) unfolding s(1)
    by (cases n; cases r; cases c; simp add: steps_left_def handshake_defs)
qed

lemma steps_left_bound: "steps_left s \<le> 24 * 19 + 23"
proof -
  have "ruby_left r t \<le> 19" for r t by (cases r) simp_all
  moreover have "native_left n t t' \<le> 23" for n t t' by (cases n) simp_all
  ultimately show ?thesis unfolding steps_left_def by (intro add_mono mult_le_mono) simp_all
qed

lemma finished_native:
  assumes "handshake_inv s" and "ruby_at s = Finished"
  shows "native_at s = Returned"
proof -
  have "native_phase (native_at s) = 9" using assms by (simp add: handshake_inv_def together_def)
  then show ?thesis by (cases "native_at s") simp_all
qed

lemma finished_stays:
  assumes "handshake_inv s" and "ruby_at s = Finished"
  shows "take_turns ok n s = s"
  using finished_native [OF assms] assms(2) by (induction n) (simp_all add: native_main_step_def opener_step_def)

lemma take_turns_ends:
  assumes "handshake_inv s" and "steps_left s \<le> n"
  shows "ruby_at (take_turns ok n s) = Finished \<and> handshake_inv (take_turns ok n s)"
  using assms
proof (induction n arbitrary: s)
  case 0
  then show ?case by (cases "ruby_at s") (auto simp: steps_left_def split: if_splits)
next
  case (Suc n)
  show ?case
  proof (cases "ruby_at s = Finished")
    case True
    then show ?thesis using finished_stays [OF Suc.prems(1) True, of ok "Suc n"] Suc.prems(1) by simp
  next
    case False
    then have "steps_left (opener_step False (native_main_step ok False s)) \<le> n"
      using turn_progress [OF Suc.prems(1)] Suc.prems(2) by (meson less_le_trans less_Suc_eq_le)
    then show ?thesis
      using Suc.IH [OF opener_step_inv [OF native_main_step_inv [OF Suc.prems(1)]]] by simp
  qed
qed

text \<open>What has been done stays done.\<close>

lemma step_events:
  "\<exists>es. events (native_main_step ok spurious s) = events s @ es" "\<exists>es. events (opener_step spurious s) = events s @ es"
  by (cases "native_at s"; simp add: native_main_step_def lock_def unlock_def broadcast_def)
    (cases "ruby_at s"; simp add: opener_step_def lock_def unlock_def broadcast_def)

lemma take_turns_events: "\<exists>es. events (take_turns ok n s) = events s @ es"
proof (induction n arbitrary: s)
  case (Suc n)
  then show ?case using step_events by simp (metis append_assoc)
qed simp

section \<open>Starting and closing always end\<close>

text \<open>C9. However the native thread and the Ruby thread that starts and closes the client have interleaved, with
  whatever spurious wake-ups, no wake-up is lost and neither waits for ever: taking turns from there, both
  end. Then the native client has been asked for once; and if it was made, the messages were settled, and only
  after that it was deleted, once, and joined.\<close>

theorem handshake_completes:
  "let s = handshake_run turns; s' = take_turns ok 479 s
   in native_at s' = Returned \<and> ruby_at s' = Finished \<and> holder s' = None \<and>
     events s' = (if created s' then [New_Client, Settled, Delete_Client, Joined] else [New_Client, Joined]) \<and>
     take (length (events s)) (events s') = events s"
proof -
  define s where "s = handshake_run turns"
  define s' where "s' = take_turns ok 479 s"
  have f: "ruby_at s' = Finished" "handshake_inv s'"
    using take_turns_ends [of s 479 ok] handshake_run_inv steps_left_bound [of s] unfolding s'_def s_def by simp_all
  have n: "native_at s' = Returned" by (rule finished_native [OF f(2,1)])
  have "s' = state_of Returned Finished (created s')"
    using f(2) n f(1) unfolding handshake_inv_def by simp
  then have "holder s' = None"
    "events s' = (if created s' then [New_Client, Settled, Delete_Client, Joined] else [New_Client, Joined])"
    by (auto simp: state_of_def dest: arg_cong [where f = holder] arg_cong [where f = events])
  moreover obtain es where "events s' = events s @ es" using take_turns_events unfolding s'_def by blast
  then have "take (length (events s)) (events s') = events s" by simp
  ultimately show ?thesis
    unfolding Let_def s_def [symmetric] s'_def [symmetric] by (intro conjI n f(1))
qed

end
