(* ===== verification/Release_Acquire.thy ===== *)
theory Release_Acquire
  imports Es_Prelude
begin

text \<open>
  The atomic accesses with the memory orders the code asks for (client.c, queue.c, watchdog.c), on a memory
  in which a read may be stale. A location has a history of writes; a thread has a view, how far it has seen
  each history, and reads that write or a later one; a release write carries the view of its thread, and an
  acquire read takes it over; a read-modify-write reads the last write. Every run of this machine is one the
  C11 orders allow. With fresh reads only, it is the sequential memory of the other theories; with stale
  ones, the handshakes of the code that write one location and then read another can fail on both sides.
\<close>

section \<open>The machine\<close>

datatype order = Relaxed | Acquire | Release | Acq_Rel

text \<open>The locations of the three handshakes: \<open>closed\<close> and \<open>active_callbacks\<close>, \<open>occupied\<close> and \<open>readers\<close> of a
  slot, \<open>notified\<close> and \<open>enqueue_position\<close>.\<close>

datatype location = Closed | Active_Callbacks | Occupied | Readers | Notified | Enqueue_Position

datatype access =
    Load order location
  | Store order location nat
  | Add order location nat
  | Exchange order location nat
  | Compare_Exchange order location nat nat

definition acquires :: "order \<Rightarrow> bool" where
  "acquires ord \<longleftrightarrow> ord = Acquire \<or> ord = Acq_Rel"

definition releases :: "order \<Rightarrow> bool" where
  "releases ord \<longleftrightarrow> ord = Release \<or> ord = Acq_Rel"

type_synonym view = "location \<Rightarrow> nat"

definition join :: "view \<Rightarrow> view \<Rightarrow> view" where
  "join v w = (\<lambda>l. max (v l) (w l))"

text \<open>The two threads are \<open>False\<close> and \<open>True\<close>; \<open>seen\<close> is what each has read, the result of a read-modify-write
  included.\<close>

record memory =
  history :: "location \<Rightarrow> (nat \<times> view) list"
  views :: "bool \<Rightarrow> view"
  seen :: "bool \<Rightarrow> nat list"

definition start_memory :: "(location \<Rightarrow> nat) \<Rightarrow> memory" where
  "start_memory f = \<lparr>history = (\<lambda>l. [(f l, \<lambda>_. 0)]), views = (\<lambda>t l. 0), seen = (\<lambda>t. [])\<rparr>"

definition latest :: "memory \<Rightarrow> location \<Rightarrow> nat" where
  "latest m l = length (history m l) - 1"

text \<open>The write that a read finds which is \<open>stale\<close> writes behind, if its thread has not seen a later one.\<close>

definition found :: "bool \<Rightarrow> nat \<Rightarrow> location \<Rightarrow> memory \<Rightarrow> nat" where
  "found t stale l m = max (views m t l) (latest m l - stale)"

definition read_from :: "bool \<Rightarrow> order \<Rightarrow> location \<Rightarrow> nat \<Rightarrow> memory \<Rightarrow> memory" where
  "read_from t ord l i m =
     (case history m l ! i of (x, w) \<Rightarrow>
        let v = (views m t)(l := i)
        in m\<lparr>views := (views m)(t := if acquires ord then join v w else v), seen := (seen m)(t := seen m t @ [x])\<rparr>)"

text \<open>A write goes to the end of the history. \<open>carried\<close> is the view of the write that a read-modify-write
  continues.\<close>

definition write_to :: "bool \<Rightarrow> order \<Rightarrow> location \<Rightarrow> nat \<Rightarrow> view \<Rightarrow> memory \<Rightarrow> memory" where
  "write_to t ord l x carried m =
     (let i = length (history m l);
          v = (views m t)(l := i)
      in m\<lparr>views := (views m)(t := v),
        history := (history m)(l := history m l @ [(x, join carried (if releases ord then v else (\<lambda>_. 0)(l := i)))])\<rparr>)"

definition modify :: "bool \<Rightarrow> order \<Rightarrow> location \<Rightarrow> (nat \<Rightarrow> nat) \<Rightarrow> memory \<Rightarrow> memory" where
  "modify t ord l f m =
     (case history m l ! latest m l of (x, w) \<Rightarrow> write_to t ord l (f x) w (read_from t ord l (latest m l) m))"

text \<open>A compare-and-exchange that fails is a relaxed read.\<close>

definition access_step :: "bool \<Rightarrow> nat \<Rightarrow> access \<Rightarrow> memory \<Rightarrow> memory" where
  "access_step t stale a m =
     (case a of
        Load ord l \<Rightarrow> read_from t ord l (found t stale l m) m
      | Store ord l x \<Rightarrow> write_to t ord l x (\<lambda>_. 0) m
      | Add ord l n \<Rightarrow> modify t ord l (\<lambda>x. x + n) m
      | Exchange ord l x \<Rightarrow> modify t ord l (\<lambda>_. x) m
      | Compare_Exchange ord l expected x \<Rightarrow>
          if fst (history m l ! found t stale l m) \<noteq> expected then read_from t Relaxed l (found t stale l m) m
          else if fst (history m l ! latest m l) = expected then modify t ord l (\<lambda>_. x) m
          else read_from t Relaxed l (latest m l) m)"

text \<open>Two threads, by a schedule that says for each access whose it is and how stale what it reads may be.\<close>

fun run_accesses :: "(bool \<times> nat) list \<Rightarrow> (bool \<Rightarrow> access list) \<Rightarrow> memory \<Rightarrow> memory" where
  "run_accesses [] code m = m"
| "run_accesses ((t, stale) # schedule) code m =
     (case code t of
        [] \<Rightarrow> run_accesses schedule code m
      | a # as \<Rightarrow> run_accesses schedule (code(t := as)) (access_step t stale a m))"

section \<open>Fresh reads are sequential memory\<close>

record cells =
  cell :: "location \<Rightarrow> nat"
  read :: "bool \<Rightarrow> nat list"

definition cell_step :: "bool \<Rightarrow> access \<Rightarrow> cells \<Rightarrow> cells" where
  "cell_step t a m =
     (let get = (\<lambda>l m. m\<lparr>read := (read m)(t := read m t @ [cell m l])\<rparr>);
          put = (\<lambda>l x m. m\<lparr>cell := (cell m)(l := x)\<rparr>)
      in case a of
           Load ord l \<Rightarrow> get l m
         | Store ord l x \<Rightarrow> put l x m
         | Add ord l n \<Rightarrow> put l (cell m l + n) (get l m)
         | Exchange ord l x \<Rightarrow> put l x (get l m)
         | Compare_Exchange ord l expected x \<Rightarrow> if cell m l = expected then put l x (get l m) else get l m)"

fun run_cells :: "bool list \<Rightarrow> (bool \<Rightarrow> access list) \<Rightarrow> cells \<Rightarrow> cells" where
  "run_cells [] code m = m"
| "run_cells (t # schedule) code m =
     (case code t of
        [] \<Rightarrow> run_cells schedule code m
      | a # as \<Rightarrow> run_cells schedule (code(t := as)) (cell_step t a m))"

text \<open>The memory a history amounts to.\<close>

definition cells_of :: "memory \<Rightarrow> cells" where
  "cells_of m = \<lparr>cell = (\<lambda>l. fst (last (history m l))), read = seen m\<rparr>"

definition view_in :: "memory \<Rightarrow> view \<Rightarrow> bool" where
  "view_in m v \<longleftrightarrow> (\<forall>l. v l < length (history m l))"

definition memory_ok :: "memory \<Rightarrow> bool" where
  "memory_ok m \<longleftrightarrow> (\<forall>t. view_in m (views m t)) \<and> (\<forall>l. history m l \<noteq> []) \<and>
     (\<forall>l. \<forall>p \<in> set (history m l). view_in m (snd p))"

lemma view_in_simps:
  "view_in m v \<Longrightarrow> view_in m w \<Longrightarrow> view_in m (join v w)"
  "view_in m v \<Longrightarrow> i < length (history m l) \<Longrightarrow> view_in m (v(l := i))"
  "memory_ok m \<Longrightarrow> view_in m (\<lambda>_. 0)"
  by (auto simp: view_in_def join_def memory_ok_def)

lemma latest_less: "memory_ok m \<Longrightarrow> latest m l < length (history m l)"
  by (cases "history m l") (simp_all add: latest_def memory_ok_def)

lemma latest_last: "memory_ok m \<Longrightarrow> history m l ! latest m l = last (history m l)"
  by (simp add: latest_def memory_ok_def last_conv_nth)

lemma read_from_ok:
  assumes "memory_ok m" and "i < length (history m l)"
  shows "memory_ok (read_from t ord l i m)"
proof -
  obtain x w where xw: "history m l ! i = (x, w)" by fastforce
  then have "view_in m w" using assms nth_mem [OF assms(2)] unfolding memory_ok_def by force
  then show ?thesis
    using assms view_in_simps [of m] unfolding memory_ok_def read_from_def xw
    by (auto simp: Let_def view_in_def join_def)
qed

lemma write_to_ok:
  assumes "memory_ok m" and "view_in m carried"
  shows "memory_ok (write_to t ord l x carried m)"
  using assms unfolding memory_ok_def write_to_def
  by (auto simp: Let_def view_in_def join_def less_SucI)

lemma read_from_cells:
  assumes "memory_ok m"
  shows "cells_of (read_from t ord l (latest m l) m) =
    (cells_of m)\<lparr>read := (seen m)(t := seen m t @ [cell (cells_of m) l])\<rparr>"
  by (simp add: cells_of_def read_from_def latest_last [OF assms] Let_def split: prod.split)

lemma write_to_cells: "cells_of (write_to t ord l x carried m) = (cells_of m)\<lparr>cell := (cell (cells_of m))(l := x)\<rparr>"
  by (auto simp: cells_of_def write_to_def Let_def)

lemma found_fresh: "memory_ok m \<Longrightarrow> found t 0 l m = latest m l"
  using latest_less [of m l] by (auto simp: found_def memory_ok_def view_in_def latest_def max_def)
    (metis Suc_pred length_greater_0_conv less_Suc_eq_le)

lemma modify_ok:
  assumes "memory_ok m"
  shows "memory_ok (modify t ord l f m)" and "cells_of (modify t ord l f m) =
    (cells_of m)\<lparr>read := (seen m)(t := seen m t @ [cell (cells_of m) l]),
      cell := (cell (cells_of m))(l := f (cell (cells_of m) l))\<rparr>"
proof -
  obtain x w where xw: "history m l ! latest m l = (x, w)" by fastforce
  have r: "memory_ok (read_from t ord l (latest m l) m)" by (rule read_from_ok [OF assms latest_less [OF assms]])
  have "view_in m w" using assms latest_less [OF assms] xw unfolding memory_ok_def by (metis nth_mem snd_conv)
  then have "view_in (read_from t ord l (latest m l) m) w" by (simp add: view_in_def read_from_def xw Let_def)
  then show "memory_ok (modify t ord l f m)" using write_to_ok [OF r] by (simp add: modify_def xw)
  have "cell (cells_of m) l = x" using xw latest_last [OF assms, of l] by (simp add: cells_of_def)
  then show "cells_of (modify t ord l f m) =
    (cells_of m)\<lparr>read := (seen m)(t := seen m t @ [cell (cells_of m) l]),
      cell := (cell (cells_of m))(l := f (cell (cells_of m) l))\<rparr>"
    by (simp add: modify_def xw write_to_cells read_from_cells [OF assms])
qed

lemma access_step_fresh:
  assumes "memory_ok m"
  shows "memory_ok (access_step t 0 a m)" and "cells_of (access_step t 0 a m) = cell_step t a (cells_of m)"
proof -
  have c: "fst (history m l ! latest m l) = cell (cells_of m) l" for l
    by (simp add: cells_of_def latest_last [OF assms])
  have r: "read (cells_of m) = seen m" by (simp add: cells_of_def)
  show "memory_ok (access_step t 0 a m)" "cells_of (access_step t 0 a m) = cell_step t a (cells_of m)"
    using read_from_ok [OF assms latest_less [OF assms]] write_to_ok [OF assms view_in_simps(3) [OF assms]]
    by (cases a; simp add: access_step_def found_fresh [OF assms] modify_ok [OF assms] c r
      read_from_cells [OF assms] write_to_cells cell_step_def Let_def)+
qed

lemma start_memory_ok: "memory_ok (start_memory f)"
  by (simp add: memory_ok_def start_memory_def view_in_def)


section \<open>The handshakes of the code\<close>

text \<open>What each side does, what memory holds before, and the value that tells a side that the other has not
  come.\<close>

record protocol =
  before :: "location \<Rightarrow> nat"
  code :: "bool \<Rightarrow> access list"
  missed :: "bool \<Rightarrow> nat"

text \<open>Closing (client.c:108, 115) and a callback that enters (303, 304).\<close>

definition close_accesses :: "access list" where
  "close_accesses = [Exchange Acq_Rel Closed 1, Load Acquire Active_Callbacks]"

definition callback_accesses :: "access list" where
  "callback_accesses = [Add Acquire Active_Callbacks 1, Load Acquire Closed]"

definition closing_protocol :: protocol where
  "closing_protocol = \<lparr>before = (\<lambda>_. 0), code = (\<lambda>t. if t then callback_accesses else close_accesses),
     missed = (\<lambda>_. 0)\<rparr>"

text \<open>A release that disarms a slot (queue.c:105, 106) and the watchdog that enters it (watchdog.c:194-198).\<close>

definition disarm_accesses :: "access list" where
  "disarm_accesses = [Store Release Occupied 0, Load Acquire Readers]"

definition watchdog_accesses :: "access list" where
  "watchdog_accesses = [Load Acquire Occupied, Add Acquire Readers 1, Load Acquire Occupied]"

definition disarm_protocol :: protocol where
  "disarm_protocol = \<lparr>before = (\<lambda>l. if l = Occupied then 1 else 0),
     code = (\<lambda>t. if t then watchdog_accesses else disarm_accesses), missed = (\<lambda>t. if t then 1 else 0)\<rparr>"

text \<open>The end of a drain (client.c:526, queue.c:121) and a callback that claims a position (queue.c:55) and
  notifies (client.c:254).\<close>

definition drain_accesses :: "access list" where
  "drain_accesses = [Store Release Notified 0, Load Relaxed Enqueue_Position]"

definition notify_accesses :: "access list" where
  "notify_accesses = [Compare_Exchange Relaxed Enqueue_Position 0 1, Compare_Exchange Acq_Rel Notified 0 1]"

definition notify_protocol :: protocol where
  "notify_protocol = \<lparr>before = (\<lambda>l. if l = Notified then 1 else 0),
     code = (\<lambda>t. if t then notify_accesses else drain_accesses), missed = (\<lambda>t. if t then 1 else 0)\<rparr>"

definition run_protocol :: "protocol \<Rightarrow> (bool \<times> nat) list \<Rightarrow> memory" where
  "run_protocol p schedule = run_accesses schedule (code p) (start_memory (before p))"

text \<open>Each side's last look tells it that the other has not come.\<close>

definition both_miss :: "protocol \<Rightarrow> memory \<Rightarrow> bool" where
  "both_miss p m \<longleftrightarrow> last (seen m False) = missed p False \<and> last (seen m True) = missed p True"

text \<open>All interleavings of \<open>n\<close> accesses of the one thread and \<open>k\<close> of the other.\<close>

fun interleavings :: "nat \<Rightarrow> nat \<Rightarrow> bool list list" where
  "interleavings 0 k = [replicate k True]"
| "interleavings (Suc n) 0 = [replicate (Suc n) False]"
| "interleavings (Suc n) (Suc k) =
     map ((#) False) (interleavings n (Suc k)) @ map ((#) True) (interleavings (Suc n) k)"

definition all_interleavings :: "protocol \<Rightarrow> bool list list" where
  "all_interleavings p = interleavings (length (code p False)) (length (code p True))"

lemma count_list_same: "count_list (replicate n x) y = (if x = y then n else 0)"
  by (induction n) auto

lemma interleavings_complete:
  "count_list bs False = n \<Longrightarrow> count_list bs True = k \<Longrightarrow> bs \<in> set (interleavings n k)"
proof (induction n k arbitrary: bs rule: interleavings.induct)
  case (1 k)
  then have "\<forall>b \<in> set bs. b" by (metis (full_types) count_list_0_iff)
  then have "bs = replicate (length bs) True" by (intro replicate_eqI) auto
  moreover have "length bs = k" using 1 calculation by (metis count_list_same)
  ultimately show ?case by simp
next
  case (2 n)
  then have "\<forall>b \<in> set bs. \<not> b" by (metis (full_types) count_list_0_iff)
  then have "bs = replicate (length bs) False" by (intro replicate_eqI) auto
  moreover have "length bs = Suc n" using 2 calculation by (metis count_list_same)
  ultimately show ?case by simp
next
  case (3 n k)
  show ?case
  proof (cases bs)
    case (Cons b cs)
    then show ?thesis using 3 by (cases b) auto
  qed (use 3 in simp)
qed


end
