(* ===== verification/Client_Init.thy ===== *)
theory Client_Init
  imports Client_Close
begin

text \<open>
  Making a client (client.c, client_allocate, raise_new_client_error, client_initialize): the options,
  the resources and their release on every failure, the native thread. Calls that can fail outside the
  program (memory, pipe, fcntl, thread creation) are fields of an \<open>init_env\<close>. The wait for the native
  thread to have made the native client is its step \<open>native_create\<close>.
\<close>

section \<open>Allocation\<close>

text \<open>\<open>TypedData_Make_Struct\<close> zeroes the struct: the enum 0 is \<open>ALLOW\<close>.\<close>

definition client_allocate :: esrb_client where
  "client_allocate = \<lparr>native = None, queue = zero_queue, wakeup_fd = (-1, -1),
     watchdog = zero_watchdog, watchdog_thread_started = False, watchdog_running = False,
     watchdog_stopped = False, delete_ready = False, client_ready = False, creation_result = 0,
     notified = False, closed = True, active_callbacks = 0, dropped = 0, delivered = 0, timeouts = 0,
     response_errors = 0, delete_errors = 0, errors = 0, seq_gaps = 0, leaked_messages = 0,
     last_global_seq = 0, seen_global_seq = False, last_event_seq = replicate ES_EVENT_TYPE_LAST 0,
     seen_event_seq = replicate ES_EVENT_TYPE_LAST False, default_auth = ES_AUTH_RESULT_ALLOW,
     default_cache = False, strict_cache = False, strict_version = False,
     warn_on_truncated_path = False, deadline_margin = Finite 0, min_margin_ticks = 0,
     owner_pid = 0, pipe_bytes = 0, trace = []\<rparr>"

section \<open>Initialisation\<close>

record init_env =
  env_pid :: int
  got_slots :: bool
  got_requests :: bool
  got_heap :: bool
  mutex_ok :: bool
  condition_ok :: bool
  pipe_fds :: "(int \<times> int) option"
  fcntl_ok :: bool
  thread_ok :: bool

text \<open>A computation that may raise, and otherwise goes on; either way with the client as it is by then.\<close>

definition or_raise :: "'a ruby \<Rightarrow> 's \<Rightarrow> ('a \<Rightarrow> 'b ruby \<times> 's) \<Rightarrow> 'b ruby \<times> 's" where
  "or_raise r s f = (case r of Inl e \<Rightarrow> (Inl e, s) | Inr x \<Rightarrow> f x)"

definition unless_nil :: "ruby_value \<Rightarrow> 'a \<Rightarrow> (ruby_value \<Rightarrow> 'a ruby) \<Rightarrow> 'a ruby" where
  "unless_nil v fallback convert = (if v = Qnil then Inr fallback else convert v)"

text \<open>The double nearest to 0.2.\<close>

definition double_0_2 :: c_double where
  "double_0_2 = Finite (3602879701896397 / 18014398509481984)"

definition set_defaults :: "esrb_client \<Rightarrow> esrb_client" where
  "set_defaults s = s\<lparr>default_auth := ES_AUTH_RESULT_ALLOW, default_cache := False,
     strict_cache := False, strict_version := False, warn_on_truncated_path := False,
     deadline_margin := double_0_2\<rparr>"

definition check_on_full :: "ruby_value \<Rightarrow> unit ruby" where
  "check_on_full v =
     (case v of
        Qnil \<Rightarrow> Inr ()
      | RSym name \<Rightarrow>
          if name \<noteq> ''drop'' \<and> name \<noteq> ''respond_default''
          then Inl (Raise ''ArgumentError'' ''on_full must be :drop or :respond_default'') else Inr ()
      | _ \<Rightarrow> Inl (Raise ''TypeError'' ''wrong argument type''))"

definition read_auth_default :: "ruby_value \<Rightarrow> es_auth_result ruby" where
  "read_auth_default v =
     (case v of
        Qnil \<Rightarrow> Inr ES_AUTH_RESULT_ALLOW
      | RSym name \<Rightarrow>
          if name = ''deny'' then Inr ES_AUTH_RESULT_DENY
          else if name \<noteq> ''allow''
          then Inl (Raise ''ArgumentError'' ''auth_default must be :allow or :deny'')
          else Inr ES_AUTH_RESULT_ALLOW
      | _ \<Rightarrow> Inl (Raise ''TypeError'' ''wrong argument type''))"

text \<open>The options of the caller, in the order the code converts them: the queue depth and
  \<open>min_margin_ns\<close>, the rest goes into the client.\<close>

definition read_options ::
    "(string \<times> ruby_value) list option \<Rightarrow> esrb_client \<Rightarrow> (size_t \<times> uint64) ruby \<times> esrb_client" where
  "read_options options s =
     (let s = set_defaults s
      in case options of
        None \<Rightarrow> (Inr (8192, 5000000), s)
      | Some opts \<Rightarrow>
          or_raise (unless_nil (hash_aref opts ''queue_depth'') 8192 num2ulong) s (\<lambda>queue_depth.
          or_raise (unless_nil (hash_aref opts ''deadline_margin'') (deadline_margin s) num2dbl) s (\<lambda>margin.
          let s = s\<lparr>deadline_margin := margin\<rparr>
          in or_raise (unless_nil (hash_aref opts ''min_margin_ns'') 5000000 num2ulong) s (\<lambda>min_margin_ns.
          let s = s\<lparr>strict_cache := rtest (hash_aref opts ''strict_cache''),
                strict_version := rtest (hash_aref opts ''strict_version''),
                default_cache := rtest (hash_aref opts ''default_cache''),
                warn_on_truncated_path := rtest (hash_aref opts ''warn_on_truncated_path'')\<rparr>
          in or_raise (check_on_full (hash_aref opts ''on_full'')) s (\<lambda>_.
             or_raise (read_auth_default (hash_aref opts ''auth_default'')) s (\<lambda>auth.
             (Inr (queue_depth, min_margin_ns), s\<lparr>default_auth := auth\<rparr>)))))))"

fun margin_ok :: "c_double \<Rightarrow> bool" where
  "margin_ok (Finite r) \<longleftrightarrow> 0 \<le> r \<and> r \<le> 1"
| "margin_ok _ \<longleftrightarrow> False"

definition margin_ticks :: "es_host \<Rightarrow> uint64 \<Rightarrow> uint64" where
  "margin_ticks h min_margin_ns =
     (let numer = ucast (fst (host_timebase h)); denom = ucast (snd (host_timebase h))
      in if min_margin_ns > UINT64_MAX div denom then UINT64_MAX
         else min_margin_ns * denom div numer)"

definition reset_counters :: "esrb_client \<Rightarrow> esrb_client" where
  "reset_counters s = s\<lparr>notified := False, active_callbacks := 0, dropped := 0, delivered := 0,
     timeouts := 0, response_errors := 0, delete_errors := 0, errors := 0, seq_gaps := 0,
     leaked_messages := 0, last_global_seq := 0, seen_global_seq := False,
     last_event_seq := replicate ES_EVENT_TYPE_LAST 0,
     seen_event_seq := replicate ES_EVENT_TYPE_LAST False, watchdog_running := True,
     watchdog_stopped := False, delete_ready := False, client_ready := False,
     creation_result := ES_NEW_CLIENT_RESULT_ERR_INTERNAL, closed := False\<rparr>"

text \<open>Undoing a half-made client: descriptors closed, both arrays freed.\<close>

definition discard :: "esrb_client \<Rightarrow> esrb_client" where
  "discard s = s\<lparr>watchdog := esrb_watchdog_destroy (watchdog s), queue := esrb_queue_destroy (queue s)\<rparr>"

definition close_pipe :: "esrb_client \<Rightarrow> esrb_client" where
  "close_pipe s = s\<lparr>wakeup_fd := (-1, -1)\<rparr>"

fun new_client_error :: "int \<Rightarrow> string \<times> string" where
  "new_client_error result =
     (if result = 1 then (''InvalidArgumentError'', ''err_invalid_argument'')
      else if result = 3 then (''NotEntitledError'', ''err_not_entitled'')
      else if result = 4 then (''NotPermittedError'', ''err_not_permitted'')
      else if result = 5 then (''NotPrivilegedError'', ''err_not_privileged'')
      else if result = 6 then (''TooManyClientsError'', ''err_too_many_clients'')
      else (''InternalError'', ''err_internal''))"

definition start_native :: "es_host \<Rightarrow> init_env \<Rightarrow> esrb_client \<Rightarrow> unit ruby \<times> esrb_client" where
  "start_native h env s =
     (if \<not> thread_ok env
      then (Inl (Raise ''RuntimeError'' ''failed to create Endpoint Security watchdog''),
            (discard (close_pipe (s\<lparr>watchdog_running := False\<rparr>)))\<lparr>closed := True\<rparr>)
      else let s = native_create h (s\<lparr>watchdog_thread_started := True\<rparr>)
      in if creation_result s \<noteq> ES_NEW_CLIENT_RESULT_SUCCESS
         then (Inl (case new_client_error (creation_result s) of (klass, name) \<Rightarrow> Raise klass name),
               (discard (close_pipe (s\<lparr>watchdog_thread_started := False\<rparr>)))\<lparr>closed := True\<rparr>)
         else (Inr (), s))"

text \<open>From the point where the options are read: the resources, in order. A fresh pipe is empty.\<close>

definition open_client ::
    "es_host \<Rightarrow> init_env \<Rightarrow> size_t \<Rightarrow> uint64 \<Rightarrow> esrb_client \<Rightarrow> unit ruby \<times> esrb_client" where
  "open_client h env queue_depth min_margin_ns s =
     (case esrb_queue_init (got_slots env) (queue s) queue_depth of (made, q) \<Rightarrow>
      let s = s\<lparr>queue := q\<rparr>
      in if \<not> made
         then (Inl (Raise ''ArgumentError'' ''queue_depth must be a power of two and at least 2''), s)
      else case esrb_watchdog_init (got_requests env) (got_heap env) (mutex_ok env) (condition_ok env)
          (watchdog s) queue_depth of (made, w) \<Rightarrow>
      let s = s\<lparr>watchdog := w\<rparr>
      in if \<not> made
         then (Inl (Raise ''NoMemoryError'' ''failed to allocate Endpoint Security watchdog''),
               s\<lparr>queue := esrb_queue_destroy (queue s)\<rparr>)
      else case pipe_fds env of
        None \<Rightarrow> (Inl (Raise ''SystemCallError'' ''pipe''), discard s)
      | Some fds \<Rightarrow>
          let s = s\<lparr>wakeup_fd := fds, pipe_bytes := 0\<rparr>
          in if \<not> fcntl_ok env
             then (Inl (Raise ''SystemCallError'' ''fcntl''), discard (close_pipe s))
             else start_native h env (reset_counters
               (s\<lparr>min_margin_ticks := margin_ticks h min_margin_ns, owner_pid := env_pid env\<rparr>)))"

definition client_initialize ::
    "es_host \<Rightarrow> init_env \<Rightarrow> (string \<times> ruby_value) list option \<Rightarrow> esrb_client \<Rightarrow> unit ruby \<times> esrb_client" where
  "client_initialize h env options s =
     (case read_options options s of (r, s) \<Rightarrow>
      or_raise r s (\<lambda>(queue_depth, min_margin_ns).
        if \<not> margin_ok (deadline_margin s)
        then (Inl (Raise ''ArgumentError'' ''deadline_margin must be between 0.0 and 1.0''), s)
        else open_client h env queue_depth min_margin_ns s))"

section \<open>What holds of an open client between operations\<close>

definition client_ok :: "esrb_client \<Rightarrow> bool" where
  "client_ok s \<longleftrightarrow> quiet_queue (queue s) \<and> valid_requests (watchdog s) \<and>
     heap_ok (watchdog s, queue s) \<and> wd_capacity (watchdog s) = capacity (queue s) \<and>
     (\<forall>e \<in> set (pending_requests (watchdog s)). entry_slot e < length (slots (queue s))) \<and>
     length (last_event_seq s) = ES_EVENT_TYPE_LAST \<and> length (seen_event_seq s) = ES_EVENT_TYPE_LAST"

text \<open>Nothing is held: no memory, no descriptor, no synchronisation object, no thread.\<close>

definition holds_nothing :: "esrb_client \<Rightarrow> bool" where
  "holds_nothing s \<longleftrightarrow> slots (queue s) = [] \<and> requests (watchdog s) = [] \<and> heap (watchdog s) = [] \<and>
     \<not> mutex_live (watchdog s) \<and> \<not> condition_live (watchdog s) \<and> wakeup_fd s = (-1, -1) \<and>
     \<not> watchdog_thread_started s"

section \<open>The watchdog's memory\<close>

lemma watchdog_init_iff:
  "fst (esrb_watchdog_init a b c d w n) \<longleftrightarrow> a \<and> b \<and> c \<and> d"
  by (auto simp add: esrb_watchdog_init_def Let_def)

lemma watchdog_init_fails:
  "\<not> (a \<and> b \<and> c \<and> d) \<Longrightarrow> \<exists>n m. snd (esrb_watchdog_init a b c d zero_watchdog q) =
    zero_watchdog\<lparr>wd_capacity := n, wd_mask := m\<rparr>"
  by (intro exI [of _ q] exI [of _ "q - 1"]) (auto simp: esrb_watchdog_init_def Let_def zero_watchdog_def)

lemma watchdog_init_made:
  "esrb_watchdog_init True True True True w n = (True, w\<lparr>wd_capacity := n, wd_mask := n - 1, heap_size := 0,
     wd_enqueue_position := 0, wd_dequeue_position := 0,
     requests := map (\<lambda>i. zero_request\<lparr>req_sequence := of_nat i\<rparr>) [0..<unat n],
     heap := replicate (unat n) zero_entry, mutex_live := True, condition_live := True\<rparr>)"
proof -
  have "map (\<lambda>(i, y). y\<lparr>req_sequence := of_nat i\<rparr>) (enumerate 0 (replicate (unat n) zero_request)) =
      map (\<lambda>i. zero_request\<lparr>req_sequence := of_nat i\<rparr>) [0..<unat n]"
    by (intro nth_equalityI) (simp_all add: nth_enumerate_eq)
  then show ?thesis by (simp add: esrb_watchdog_init_def Let_def)
qed

lemma watchdog_init_ring:
  assumes "1 \<le> k" "k \<le> 62" and "esrb_watchdog_init True True True True w (2 ^ k) = (True, w')"
  shows "request_ring k 0 0 w'" and "pending_requests w' = []"
    and "length (slots q) = 2 ^ k \<Longrightarrow> heap_ok (w', q)"
proof -
  have u: "unat (2 ^ k :: size_t) = 2 ^ k" using assms(2) by (intro unat_pow2) simp
  have w': "w' = w\<lparr>wd_capacity := 2 ^ k, wd_mask := 2 ^ k - 1, heap_size := 0,
     wd_enqueue_position := 0, wd_dequeue_position := 0,
     requests := map (\<lambda>i. zero_request\<lparr>req_sequence := of_nat i\<rparr>) [0..<2 ^ k],
     heap := replicate (2 ^ k) zero_entry, mutex_live := True, condition_live := True\<rparr>"
    using assms(3) unfolding watchdog_init_made u by simp
  show r: "request_ring k 0 0 w'"
    using assms(1,2) by (simp add: request_ring_def w' request_at_def)
  show "pending_requests w' = []" by (simp add: pending_requests_ring [OF r])
  have "(2::nat) ^ k \<le> 2 ^ 62" using assms(2) by (intro power_increasing) auto
  then show "length (slots q) = 2 ^ k \<Longrightarrow> heap_ok (w', q)"
    by (simp add: heap_ok_def heap_index_def heap_order_def w' u)
qed

section \<open>Failures\<close>

definition sample_env :: init_env where
  "sample_env = \<lparr>env_pid = 42, got_slots = True, got_requests = True, got_heap = True, mutex_ok = True,
     condition_ok = True, pipe_fds = Some (3, 4), fcntl_ok = True, thread_ok = True\<rparr>"

lemma sample_initialize:
  "client_initialize h sample_env (Some [(''queue_depth'', RInt 2)]) client_allocate =
    start_native h sample_env (let s = set_defaults client_allocate in
      reset_counters (s\<lparr>queue := snd (esrb_queue_init True (queue s) 2),
        watchdog := snd (esrb_watchdog_init True True True True (watchdog s) 2),
        wakeup_fd := (3, 4), pipe_bytes := 0, min_margin_ticks := margin_ticks h 5000000,
        owner_pid := 42\<rparr>))"
proof -
  have ulong: "num2ulong (RInt 2) = Inr 2" by (simp add: num2ulong_def in_range_def)
  show ?thesis
    by (simp add: client_initialize_def read_options_def or_raise_def hash_aref_def unless_nil_def ulong
      set_defaults_def double_0_2_def check_on_full_def read_auth_default_def open_client_def sample_env_def
      esrb_queue_init_def watchdog_init_made Let_def client_allocate_def zero_queue_def rtest_def)
qed

lemma read_options_frame:
  assumes "read_options options s = (r, s')"
  shows "queue s' = queue s \<and> watchdog s' = watchdog s \<and> wakeup_fd s' = wakeup_fd s \<and>
    watchdog_thread_started s' = watchdog_thread_started s \<and> closed s' = closed s \<and> trace s' = trace s"
  using assms
  by (auto simp: read_options_def or_raise_def set_defaults_def Let_def split: option.splits sum.splits)

lemma discard_fields [simp]:
  "queue (discard s) = esrb_queue_destroy (queue s)" "watchdog (discard s) = esrb_watchdog_destroy (watchdog s)"
  "wakeup_fd (discard s) = wakeup_fd s" "trace (discard s) = trace s" "closed (discard s) = closed s"
  "watchdog_thread_started (discard s) = watchdog_thread_started s"
  "wakeup_fd (close_pipe s) = (-1, -1)" "queue (close_pipe s) = queue s" "watchdog (close_pipe s) = watchdog s"
  "trace (close_pipe s) = trace s" "closed (close_pipe s) = closed s"
  "watchdog_thread_started (close_pipe s) = watchdog_thread_started s"
  by (simp_all add: discard_def close_pipe_def)

lemma start_native_fails:
  assumes "start_native h env s = (Inl e, s')" and "\<not> watchdog_thread_started s"
  shows "closed s' \<and> queue s' = esrb_queue_destroy (queue s) \<and>
    watchdog s' = esrb_watchdog_destroy (watchdog s) \<and> wakeup_fd s' = (-1, -1) \<and>
    \<not> watchdog_thread_started s' \<and> set (trace s') \<subseteq> set (trace s) \<union> {Es_new_client}"
  using assms by (auto simp: start_native_def native_create_def Let_def split: if_splits prod.splits)

lemma open_client_fails:
  assumes "open_client h env n ns s = (Inl e, s')" and "slots (queue s) = []" "watchdog s = zero_watchdog"
    and "wakeup_fd s = (-1, -1)" "\<not> watchdog_thread_started s" "closed s"
  shows "closed s' \<and> holds_nothing s' \<and> set (trace s') \<subseteq> set (trace s) \<union> {Es_new_client}"
proof (cases "esrb_queue_init (got_slots env) (queue s) n")
  case (Pair made q)
  show ?thesis
  proof (cases made)
    case False
    then have "slots q = []"
      using Pair assms(2) by (auto simp: esrb_queue_init_def split: if_splits)
    then show ?thesis
      using assms False Pair by (auto simp: open_client_def holds_nothing_def zero_watchdog_def)
  next
    case True
    obtain made' w where w: "esrb_watchdog_init (got_requests env) (got_heap env) (mutex_ok env)
        (condition_ok env) zero_watchdog n = (made', w)" by fastforce
    show ?thesis
    proof (cases made')
      case False
      then have "\<not> (got_requests env \<and> got_heap env \<and> mutex_ok env \<and> condition_ok env)"
        using w watchdog_init_iff by (metis fst_conv)
      from watchdog_init_fails [OF this, of n] w
      have "requests w = []" "heap w = []" "\<not> mutex_live w" "\<not> condition_live w"
        by (auto simp: zero_watchdog_def)
      then show ?thesis
        using assms True False Pair w by (auto simp: open_client_def holds_nothing_def esrb_queue_destroy_def)
    next
      case made': True
      have all: "got_requests env \<and> got_heap env \<and> mutex_ok env \<and> condition_ok env"
        using w made' watchdog_init_iff by (metis fst_conv)
      have "0 < unat n" using Pair True
        by (auto simp: esrb_queue_init_def word_less_nat_alt split: if_splits)
      then have req: "requests w \<noteq> []" using w all by (auto simp: watchdog_init_made)
      have gone: "requests (esrb_watchdog_destroy w) = []" "heap (esrb_watchdog_destroy w) = []"
        "\<not> mutex_live (esrb_watchdog_destroy w)" "\<not> condition_live (esrb_watchdog_destroy w)"
        using req by (simp_all add: esrb_watchdog_destroy_def)
      let ?s = "s\<lparr>queue := q, watchdog := w\<rparr>"
      show ?thesis
      proof (cases "pipe_fds env")
        case None
        then show ?thesis
          using assms True made' Pair w gone
          by (auto simp: open_client_def holds_nothing_def esrb_queue_destroy_def)
      next
        case (Some fds)
        show ?thesis
        proof (cases "fcntl_ok env")
          case False
          then show ?thesis
            using assms True made' Pair w gone Some
            by (auto simp: open_client_def holds_nothing_def esrb_queue_destroy_def)
        next
          case fcntl: True
          define t where "t = reset_counters (?s\<lparr>wakeup_fd := fds, pipe_bytes := 0,
            min_margin_ticks := margin_ticks h ns, owner_pid := env_pid env\<rparr>)"
          have t: "queue t = q" "watchdog t = w" "\<not> watchdog_thread_started t" "trace t = trace s"
            using assms by (simp_all add: t_def reset_counters_def)
          have "start_native h env t = (Inl e, s')"
            using assms True made' Pair w Some fcntl by (simp add: open_client_def t_def)
          from start_native_fails [OF this t(3)] show ?thesis
            using gone by (simp add: holds_nothing_def t esrb_queue_destroy_def)
        qed
      qed
    qed
  qed
qed

text \<open>C21. Whatever fails while a client is made, an option, memory, a mutex, the pipe, the thread or
  the framework, the constructor raises with everything it had acquired given back and the client
  closed; the only framework call it can have made is the one that failed.\<close>

theorem failed_initialize_undone:
  assumes "client_initialize h env options client_allocate = (Inl e, s')"
  shows "closed s' \<and> holds_nothing s' \<and> set (trace s') \<subseteq> {Es_new_client}"
proof -
  obtain r s where o: "read_options options client_allocate = (r, s)" by fastforce
  have f: "slots (queue s) = []" "watchdog s = zero_watchdog" "wakeup_fd s = (-1, -1)"
    "\<not> watchdog_thread_started s" "closed s" "trace s = []"
    using read_options_frame [OF o] by (simp_all add: client_allocate_def zero_queue_def)
  then have "closed s \<and> holds_nothing s \<and> set (trace s) \<subseteq> {Es_new_client}"
    by (simp add: holds_nothing_def zero_watchdog_def)
  then show ?thesis
    using assms open_client_fails [OF _ f(1-5), of h env _ _ e s'] f(6)
    by (auto simp: client_initialize_def o or_raise_def split: sum.splits prod.splits if_splits)
qed

theorem failed_initialize_undone_witness:
  "\<exists>e s'. client_initialize (sample_host\<lparr>host_result := (\<lambda>t c. 3)\<rparr>) sample_env
     (Some [(''queue_depth'', RInt 2)]) client_allocate = (Inl e, s') \<and>
     e = Raise ''NotEntitledError'' ''err_not_entitled'' \<and> closed s' \<and> holds_nothing s'"
proof -
  have "fst (client_initialize (sample_host\<lparr>host_result := (\<lambda>t c. 3)\<rparr>) sample_env
     (Some [(''queue_depth'', RInt 2)]) client_allocate) = Inl (Raise ''NotEntitledError'' ''err_not_entitled'')"
    unfolding sample_initialize by (simp add: start_native_def native_create_def Let_def sample_env_def)
  then show ?thesis
    using failed_initialize_undone [of _ sample_env "Some [(''queue_depth'', RInt 2)]"] by (metis prod.collapse)
qed

section \<open>Success\<close>

text \<open>What a construction that goes through has made: the rings, the pipe, and the client on them.\<close>

lemma open_client_makes:
  assumes o: "open_client h env n ns s = (Inr (), s')"
  shows "\<exists>q w fds. esrb_queue_init (got_slots env) (queue s) n = (True, q) \<and>
    esrb_watchdog_init True True True True (watchdog s) n = (True, w) \<and>
    s' = native_create h ((reset_counters (s\<lparr>queue := q, watchdog := w, wakeup_fd := fds, pipe_bytes := 0,
      min_margin_ticks := margin_ticks h ns, owner_pid := env_pid env\<rparr>))\<lparr>watchdog_thread_started := True\<rparr>)"
proof -
  obtain q where q: "esrb_queue_init (got_slots env) (queue s) n = (True, q)"
    using o by (cases "esrb_queue_init (got_slots env) (queue s) n") (auto simp: open_client_def Let_def split: if_splits)
  obtain w where w: "esrb_watchdog_init (got_requests env) (got_heap env) (mutex_ok env)
      (condition_ok env) (watchdog s) n = (True, w)"
    using o q by (cases "esrb_watchdog_init (got_requests env) (got_heap env) (mutex_ok env)
      (condition_ok env) (watchdog s) n") (auto simp: open_client_def Let_def split: if_splits)
  obtain fds where fds: "pipe_fds env = Some fds" "fcntl_ok env"
    using o q w by (auto simp: open_client_def Let_def split: option.splits if_splits)
  define t where "t = reset_counters (s\<lparr>queue := q, watchdog := w, wakeup_fd := fds, pipe_bytes := 0,
    min_margin_ticks := margin_ticks h ns, owner_pid := env_pid env\<rparr>)"
  have "start_native h env t = (Inr (), s')" using o q w fds by (simp add: open_client_def t_def)
  then have "s' = native_create h (t\<lparr>watchdog_thread_started := True\<rparr>)"
    by (auto simp: start_native_def Let_def split: if_splits prod.splits)
  moreover have "got_requests env \<and> got_heap env \<and> mutex_ok env \<and> condition_ok env"
    using w watchdog_init_iff by (metis fst_conv)
  ultimately show ?thesis using q w unfolding t_def by (intro exI [of _ q] exI [of _ w] exI [of _ fds]) simp
qed

text \<open>Rings just made, of a capacity that fits in memory, are empty and in order.\<close>

lemma fresh_rings:
  assumes q: "esrb_queue_init g queue0 n = (True, q)" and w: "esrb_watchdog_init True True True True w0 n = (True, w)"
    and bound: "n \<le> 2 ^ 62"
  obtains k where "1 \<le> k" "n = 2 ^ k" "capacity q = n" "ring k 0 0 {} {} {} q" "pending_slots q = []"
    "quiet_queue q" "valid_requests w" "pending_requests w = []" "heap_ok (w, q)" "wd_capacity w = capacity q"
proof -
  obtain k where k: "1 \<le> k" "k < 64" "n = 2 ^ k"
    using queue_init_accepts [of g queue0 n] q by auto
  have k62: "k \<le> 62"
  proof (rule ccontr)
    assume "\<not> k \<le> 62"
    then have "k = 63" using k(2) by simp
    then show False using bound by (simp add: k(3))
  qed
  have cap: "capacity q = n" using q by (auto simp: esrb_queue_init_def split: if_splits)
  have rq: "ring k 0 0 {} {} {} q" by (rule esrb_queue_init_ring [OF q [unfolded k(3)] k62])
  have pend: "pending_slots q = []" by (simp add: pending_slots_ring [OF rq])
  have "readers (slot_at q i) = 0" if "i < length (slots q)" for i
    using q that by (auto simp: esrb_queue_init_def slot_at_def init_slot_def split: if_splits)
  then have "quiet_queue q" using rq pend by (auto simp: quiet_queue_def valid_queue_def)
  moreover note W = watchdog_init_ring [OF k(1) k62 w [unfolded k(3)]]
  have "wd_capacity w = capacity q" using request_ringD(3) [OF W(1)] by (simp add: cap k(3))
  moreover have "heap_ok (w, q)" using W(3) ringD(5) [OF rq] .
  moreover have "valid_requests w" using W(1) by (auto simp: valid_requests_def)
  ultimately show thesis using that [of k] k cap rq pend W(2) by blast
qed

text \<open>C22. A constructor that returns leaves an open client with an empty ring of a power-of-two capacity,
  a request ring and a heap of the same capacity, every invariant of the threads in place, a margin
  between 0 and 1, and one framework call made, the successful one. (The bound on the capacity is
  memory: no larger ring can be allocated.)\<close>

theorem initialize_establishes_client:
  assumes "client_initialize h env options client_allocate = (Inr (), s')"
    and "capacity (queue s') \<le> 2 ^ 62"
  shows "client_ok s' \<and> \<not> closed s' \<and> pending_slots (queue s') = [] \<and>
    pending_requests (watchdog s') = [] \<and> (\<exists>k. 1 \<le> k \<and> capacity (queue s') = 2 ^ k) \<and>
    wake_ok s' \<and> active_callbacks s' = 0 \<and> margin_ok (deadline_margin s') \<and>
    owner_pid s' = env_pid env \<and> watchdog_thread_started s' \<and> trace s' = [Es_new_client]"
proof -
  obtain r s where o: "read_options options client_allocate = (r, s)" by fastforce
  have f: "trace s = []" using read_options_frame [OF o] by (simp add: client_allocate_def)
  obtain n ns where r: "margin_ok (deadline_margin s)" "open_client h env n ns s = (Inr (), s')"
    using assms(1) by (auto simp: client_initialize_def o or_raise_def split: sum.splits if_splits)
  obtain q w fds where q: "esrb_queue_init (got_slots env) (queue s) n = (True, q)"
    and w: "esrb_watchdog_init True True True True (watchdog s) n = (True, w)"
    and s': "s' = native_create h ((reset_counters (s\<lparr>queue := q, watchdog := w, wakeup_fd := fds, pipe_bytes := 0,
      min_margin_ticks := margin_ticks h ns, owner_pid := env_pid env\<rparr>))\<lparr>watchdog_thread_started := True\<rparr>)"
    using open_client_makes [OF r(2)] by blast
  have fields: "queue s' = q" "watchdog s' = w" "\<not> closed s'" "\<not> notified s'" "active_callbacks s' = 0"
    "deadline_margin s' = deadline_margin s" "owner_pid s' = env_pid env" "watchdog_thread_started s'"
    "trace s' = [Es_new_client]" "length (last_event_seq s') = ES_EVENT_TYPE_LAST"
    "length (seen_event_seq s') = ES_EVENT_TYPE_LAST"
    by (simp_all add: s' native_create_def call_def reset_counters_def Let_def f)
  have "capacity q = n" using q by (auto simp: esrb_queue_init_def split: if_splits)
  then have bound: "n \<le> 2 ^ 62" using assms(2) by (simp add: fields(1))
  obtain k where k: "1 \<le> k" "n = 2 ^ k" "capacity q = n" "pending_slots q = []" "quiet_queue q"
      "valid_requests w" "pending_requests w = []" "heap_ok (w, q)" "wd_capacity w = capacity q"
    using fresh_rings [OF q w bound] by metis
  then have "client_ok s'" unfolding client_ok_def fields by simp
  then show ?thesis using fields r(1) k by (auto simp: wake_ok_def)
qed

theorem initialize_establishes_client_witness:
  "\<exists>s'. client_initialize sample_host sample_env (Some [(''queue_depth'', RInt 2)]) client_allocate =
     (Inr (), s') \<and> client_ok s' \<and> \<not> closed s' \<and> capacity (queue s') = 2"
proof -
  let ?r = "client_initialize sample_host sample_env (Some [(''queue_depth'', RInt 2)]) client_allocate"
  have "fst ?r = Inr ()" "capacity (queue (snd ?r)) = 2"
    unfolding sample_initialize
    by (simp_all add: start_native_def native_create_def Let_def sample_env_def sample_host_def
      reset_counters_def esrb_queue_init_def)
  then have "?r = (Inr (), snd ?r)" "capacity (queue (snd ?r)) = 2" by (metis prod.collapse)+
  then show ?thesis using initialize_establishes_client by fastforce
qed

end
