(* ===== verification/Client_Control.thy ===== *)
theory Client_Control
  imports Client_Init
begin

text \<open>
  The Ruby methods of a client (client.c, get_client, client_close to esrb_respond_slot) and the
  wrapper a drained message gets (message.c, esrb_message_wrap). A method returns a value or raises,
  in either case with the client as it is by then. The event tables of the Ruby library,
  \<open>EventType.symbol\<close> and \<open>EventType.cacheable?\<close>, are generated; they are fields of a \<open>ruby_world\<close>
  together with the process id.
\<close>

section \<open>Access\<close>

record ruby_world =
  getpid :: int
  event_symbol :: "int \<Rightarrow> ruby_value ruby"
  event_cacheable :: "ruby_value \<Rightarrow> bool"

type_synonym 'a ruby_method = "'a ruby \<times> esrb_client"

definition get_client :: "ruby_world \<Rightarrow> esrb_client \<Rightarrow> unit ruby" where
  "get_client world s =
     (if owner_pid s \<noteq> getpid world
      then Inl (Raise ''ForkedClientError'' ''Endpoint Security clients cannot be used after fork'')
      else Inr ())"

definition get_open_client :: "ruby_world \<Rightarrow> esrb_client \<Rightarrow> unit ruby" where
  "get_open_client world s =
     bind_ruby (get_client world s) (\<lambda>_.
       if closed s then Inl (Raise ''ClientError'' ''client is closed'') else Inr ())"

section \<open>Closing, waking\<close>

definition client_close :: "es_host \<Rightarrow> ruby_world \<Rightarrow> esrb_client \<Rightarrow> ruby_value ruby_method option" where
  "client_close h world s =
     (case get_client world s of
        Inl e \<Rightarrow> Some (Inl e, s)
      | Inr _ \<Rightarrow> map_option (\<lambda>s. (Inr Qnil, s)) (client_close_native h s))"

definition client_closed_p :: "ruby_world \<Rightarrow> esrb_client \<Rightarrow> ruby_value ruby_method" where
  "client_closed_p world s = or_raise (get_client world s) s (\<lambda>_. (Inr (ruby_bool (closed s)), s))"

definition client_wakeup_fd :: "ruby_world \<Rightarrow> esrb_client \<Rightarrow> ruby_value ruby_method" where
  "client_wakeup_fd world s = or_raise (get_open_client world s) s (\<lambda>_. (Inr (RInt (fst (wakeup_fd s))), s))"

definition client_wake :: "es_host \<Rightarrow> ruby_world \<Rightarrow> esrb_client \<Rightarrow> ruby_value ruby_method" where
  "client_wake h world s = or_raise (get_client world s) s (\<lambda>_. (Inr Qnil, esrb_notify h s))"

section \<open>Draining\<close>

text \<open>The wrapper of a message. Its owner and client are the client at hand.\<close>

record esrb_message =
  wrap_slot :: nat
  wrap_valid :: bool
  wrap_held :: bool

definition esrb_message_wrap :: "nat \<Rightarrow> esrb_message" where
  "esrb_message_wrap slot = \<lparr>wrap_slot = slot, wrap_valid = True, wrap_held = False\<rparr>"

text \<open>\<open>rb_ary_new_capa\<close> raises for a capacity no array can have; memory permitting otherwise.\<close>

definition ary_new_capa :: "int \<Rightarrow> unit ruby" where
  "ary_new_capa n =
     (if n < 0 then Inl (Raise ''ArgumentError'' ''negative array size (or size too big)'')
      else if n > (2 ^ 63 - 1) div 8 then Inl (Raise ''ArgumentError'' ''array size too big'')
      else Inr ())"

definition empty_pipe :: "esrb_client \<Rightarrow> esrb_client" where
  "empty_pipe s = s\<lparr>pipe_bytes := 0\<rparr>"

definition deliver :: "nat \<Rightarrow> esrb_client \<Rightarrow> (esrb_message \<times> esrb_client) option" where
  "deliver slot s = Some (esrb_message_wrap slot, s\<lparr>delivered := delivered s + 1\<rparr>)"

definition finish_drain :: "es_host \<Rightarrow> esrb_client \<Rightarrow> esrb_client" where
  "finish_drain h s =
     (let s = s\<lparr>notified := False\<rparr>
      in if esrb_queue_depth (queue s) > 0 then esrb_notify h s else s)"

definition client_drain ::
    "es_host \<Rightarrow> ruby_world \<Rightarrow> ruby_value \<Rightarrow> esrb_client \<Rightarrow> esrb_message list ruby_method option" where
  "client_drain h world maximum_value s =
     (case if maximum_value = Qnil then Inr 256 else num2long maximum_value of
        Inl e \<Rightarrow> Some (Inl e, s)
      | Inr maximum \<Rightarrow>
     (case get_open_client world s of
        Inl e \<Rightarrow> Some (Inl e, s)
      | Inr _ \<Rightarrow>
          let s = empty_pipe s
          in case ary_new_capa maximum of
               Inl e \<Rightarrow> Some (Inl e, s)
             | Inr _ \<Rightarrow>
                 map_option (\<lambda>(messages, s). (Inr messages, finish_drain h s))
                   (for_get client_dequeue deliver (nat maximum) s)))"

section \<open>Subscriptions\<close>

text \<open>\<open>NUM2INT\<close> of every element of an array; the cast to the enum keeps the value.\<close>

definition event_types :: "ruby_value list \<Rightarrow> int list ruby" where
  "event_types values = map_ruby num2int values"

definition client_subscribe :: "es_host \<Rightarrow> ruby_world \<Rightarrow> ruby_value \<Rightarrow> esrb_client \<Rightarrow> ruby_value ruby_method" where
  "client_subscribe h world values s =
     or_raise (get_open_client world s) s (\<lambda>_.
       case values of
         RArr elements \<Rightarrow>
           if length elements = 0 \<or> int (length elements) > 2 ^ 32 - 1
           then (Inl (Raise ''ArgumentError'' ''at least one event is required''), s)
           else or_raise (event_types elements) s (\<lambda>events.
             let result = host_result h (trace s) (Es_subscribe (native s) events);
                 s = call (Es_subscribe (native s) events) s
             in if result \<noteq> ES_RETURN_SUCCESS
                then (Inl (Raise ''SubscriptionError'' ''es_subscribe failed''), s)
                else (Inr Qtrue, s))
       | _ \<Rightarrow> (Inl (Raise ''TypeError'' ''wrong argument type''), s))"

definition client_unsubscribe :: "es_host \<Rightarrow> ruby_world \<Rightarrow> ruby_value \<Rightarrow> esrb_client \<Rightarrow> ruby_value ruby_method" where
  "client_unsubscribe h world values s =
     or_raise (get_open_client world s) s (\<lambda>_.
       case values of
         Qnil \<Rightarrow>
           let result = host_result h (trace s) (Es_unsubscribe_all (native s));
               s = call (Es_unsubscribe_all (native s)) s
           in if result \<noteq> ES_RETURN_SUCCESS
              then (Inl (Raise ''SubscriptionError'' ''es_unsubscribe_all failed''), s)
              else (Inr Qtrue, s)
       | RArr elements \<Rightarrow>
           if int (length elements) > 2 ^ 32 - 1
           then (Inl (Raise ''ArgumentError'' ''too many events''), s)
           else or_raise (event_types elements) s (\<lambda>events.
             let result = host_result h (trace s) (Es_unsubscribe (native s) events);
                 s = call (Es_unsubscribe (native s) events) s
             in if result \<noteq> ES_RETURN_SUCCESS
                then (Inl (Raise ''SubscriptionError'' ''es_unsubscribe failed''), s)
                else (Inr Qtrue, s))
       | _ \<Rightarrow> (Inl (Raise ''TypeError'' ''wrong argument type''), s))"

text \<open>\<open>rb_ensure\<close>: the release runs whether or not the body raises.\<close>

definition rb_ensure :: "'a ruby_method \<Rightarrow> (esrb_client \<Rightarrow> esrb_client) \<Rightarrow> 'a ruby_method" where
  "rb_ensure body release = (fst body, release (snd body))"

abbreviation (input) "free_values \<equiv> call (Es_other None ''free'' [])"

definition copy_subscriptions :: "ruby_world \<Rightarrow> int list \<Rightarrow> ruby_value ruby" where
  "copy_subscriptions world values = bind_ruby (map_ruby (event_symbol world) values) (\<lambda>symbols. Inr (RArr symbols))"

definition client_subscriptions :: "es_host \<Rightarrow> ruby_world \<Rightarrow> esrb_client \<Rightarrow> ruby_value ruby_method" where
  "client_subscriptions h world s =
     or_raise (get_open_client world s) s (\<lambda>_.
       let result = host_result h (trace s) (Es_subscriptions (native s));
           values = host_subscriptions h (trace s);
           s = call (Es_subscriptions (native s)) s
       in if result \<noteq> ES_RETURN_SUCCESS
          then (Inl (Raise ''SubscriptionError'' ''es_subscriptions failed''), s)
          else if length values > 2 ^ 63 - 1
          then (Inl (Raise ''RangeError'' ''subscription count is too large''), free_values s)
          else rb_ensure (copy_subscriptions world values, s) free_values)"

section \<open>Statistics\<close>

definition client_stats :: "ruby_world \<Rightarrow> esrb_client \<Rightarrow> ruby_value ruby_method" where
  "client_stats world s =
     or_raise (get_client world s) s (\<lambda>_. (Inr (RHash
       [(''delivered'', ull2num (delivered s)), (''dropped'', ull2num (dropped s)),
        (''timeouts'', ull2num (timeouts s)), (''response_errors'', ull2num (response_errors s)),
        (''delete_errors'', ull2num (delete_errors s)), (''errors'', ull2num (errors s)),
        (''queue_depth_max'', ull2num (depth_max (queue s))),
        (''queue_depth'', ull2num (esrb_queue_depth (queue s))),
        (''seq_gaps'', ull2num (seq_gaps s)), (''leaked_messages'', ull2num (leaked_messages s))]), s))"

section \<open>Answering from Ruby\<close>

text \<open>The bool returned, the value stored through \<open>response\<close> if any, and the client.\<close>

definition esrb_respond_slot ::
    "es_host \<Rightarrow> nat \<Rightarrow> es_auth_result \<Rightarrow> uint32 \<Rightarrow> bool \<Rightarrow> esrb_client \<Rightarrow> bool \<times> int option \<times> esrb_client" where
  "esrb_respond_slot h slot result flags cache s =
     (if closed s then (False, None, s)
      else case cas_answer slot (queue s) of (won, q) \<Rightarrow>
        if \<not> won then (False, None, s\<lparr>queue := q\<rparr>)
        else let s = s\<lparr>queue := q\<rparr>
        in case esrb_send_response h (slot_client (slot_at (queue s) slot)) (message_in s slot)
            result flags cache s of (code, s) \<Rightarrow> (code = ES_RESPOND_RESULT_SUCCESS, Some code, s))"

end
