(* ===== verification/Watchdog_Thread.thy ===== *)
theory Watchdog_Thread
  imports Client_Init
begin

text \<open>
  The watchdog thread (watchdog.c, answer_due and esrb_watchdog_main): it moves the requests the
  callbacks have armed into its deadline heap, answers every entry that is due, in the order of the
  deadlines, and sleeps for a millisecond. \<open>answer_due\<close> is here the whole function, run with no
  interference; its accesses one by one, among other threads, are the \<open>due_step\<close> of \<open>Answer_Model\<close>.
\<close>

section \<open>Answering one entry\<close>

definition add_readers :: "nat \<Rightarrow> uint32 \<Rightarrow> esrb_client \<Rightarrow> esrb_client" where
  "add_readers slot n s = s\<lparr>queue := set_slot slot (\<lambda>x. x\<lparr>readers := readers x + n\<rparr>) (queue s)\<rparr>"

definition answer_due :: "es_host \<Rightarrow> esrb_watchdog_entry \<Rightarrow> esrb_client \<Rightarrow> esrb_client" where
  "answer_due h entry s =
     (let slot = entry_slot entry
      in if \<not> occupied (slot_at (queue s) slot) then s
      else let s = add_readers slot 1 s
      in if \<not> occupied (slot_at (queue s) slot) \<or> slot_position (slot_at (queue s) slot) \<noteq> entry_position entry
         then add_readers slot (- 1) s
         else case cas_answer slot (queue s) of (won, q) \<Rightarrow>
           let s = s\<lparr>queue := q\<rparr>;
               s = (if won then
                   let s = send_default h (slot_client (slot_at (queue s) slot)) (message_in s slot) s
                   in esrb_notify h (s\<lparr>timeouts := timeouts s + 1\<rparr>)
                 else s)
           in add_readers slot (- 1) s)"

section \<open>One round, and the thread\<close>

definition watch_pop :: "esrb_client \<Rightarrow> (esrb_watchdog_request option \<times> esrb_client) option" where
  "watch_pop s = (case request_pop (watchdog s) of (r, w) \<Rightarrow> Some (r, s\<lparr>watchdog := w\<rparr>))"

definition watch_mem_of :: "esrb_client \<Rightarrow> watch_mem" where
  "watch_mem_of s = (watchdog s, queue s)"

definition set_watch_mem :: "watch_mem \<Rightarrow> esrb_client \<Rightarrow> esrb_client" where
  "set_watch_mem m s = s\<lparr>watchdog := fst m, queue := snd m\<rparr>"

definition watch_set :: "esrb_watchdog_request \<Rightarrow> esrb_client \<Rightarrow> (unit \<times> esrb_client) option" where
  "watch_set r s = Some ((), set_watch_mem (heap_set r (watch_mem_of s)) s)"

definition take_requests :: "esrb_client \<Rightarrow> esrb_client option" where
  "take_requests s = while_get watch_pop (\<lambda>r t. map_option snd (watch_set r t)) s"

lemma heap_up_size [simp]: "size_of (heap_up i m) = size_of m"
proof (induction i m rule: heap_up.induct)
  case (1 i m)
  then show ?case by (subst heap_up.simps) (simp add: Let_def)
qed

lemma heap_down_size [simp]: "size_of (heap_down i m) = size_of m"
proof (induction i m rule: heap_down.induct)
  case (1 i m)
  then show ?case by (subst heap_down.simps) (simp add: Let_def)
qed

lemma heap_remove_size [simp]: "size_of (heap_remove i m) = size_of m - 1"
  by (simp add: heap_remove_def Let_def)

lemma answer_due_watchdog [simp]: "watchdog (answer_due h e s) = watchdog s"
  by (simp add: answer_due_def Let_def add_readers_def split: prod.splits)

text \<open>The loop over the due entries; every turn takes one off the heap.\<close>

function fire_due :: "es_host \<Rightarrow> uint64 \<Rightarrow> esrb_client \<Rightarrow> esrb_client" where
  "fire_due h now s =
     (if heap_size (watchdog s) > 0 \<and> entry_fire_at (heap (watchdog s) ! 0) \<le> now
      then let entry = heap (watchdog s) ! 0;
               s = answer_due h entry (set_watch_mem (heap_remove 0 (watch_mem_of s)) s)
           in fire_due h (host_time h (trace s)) (call Mach_absolute_time s)
      else s)"
  by pat_completeness auto
termination
  by (relation "measure (\<lambda>(h, now, s). heap_size (watchdog s))") (auto simp: set_watch_mem_def watch_mem_of_def)

declare fire_due.simps [simp del]

definition watchdog_round :: "es_host \<Rightarrow> esrb_client \<Rightarrow> esrb_client option" where
  "watchdog_round h s =
     Option.bind (take_requests s) (\<lambda>s. case clock h s of (now, s) \<Rightarrow> Some (fire_due h now s))"

text \<open>The absolute time of the next wake-up, one millisecond on, as a \<open>timespec\<close>.\<close>

definition next_wake :: "int \<times> int \<Rightarrow> int \<times> int" where
  "next_wake t = (case t of (tv_sec, tv_nsec) \<Rightarrow>
     let tv_nsec = tv_nsec + 1000000
     in if tv_nsec \<ge> 1000000000 then (tv_sec + 1, tv_nsec - 1000000000) else (tv_sec, tv_nsec))"

text \<open>The thread, for as long as the list of waits: each wait is what the other threads do meanwhile.
  \<open>None\<close> is a thread still running.\<close>

fun esrb_watchdog_main :: "es_host \<Rightarrow> (esrb_client \<Rightarrow> esrb_client) list \<Rightarrow> esrb_client \<Rightarrow> esrb_client option" where
  "esrb_watchdog_main h waits s =
     (if \<not> watchdog_running s then Some s
      else case waits of [] \<Rightarrow> None
      | wait # waits \<Rightarrow> Option.bind (watchdog_round h s) (\<lambda>s. esrb_watchdog_main h waits (wait s)))"

declare esrb_watchdog_main.simps [simp del]

section \<open>The ring, its watchdog indices apart\<close>

definition erase_index :: "esrb_queue \<Rightarrow> esrb_queue" where
  "erase_index q = q\<lparr>slots := map (\<lambda>x. x\<lparr>watchdog_index := 0\<rparr>) (slots q)\<rparr>"

lemma erase_only_indices:
  assumes "only_indices m m'"
  shows "erase_index (snd m') = erase_index (snd m)"
proof -
  have "map (\<lambda>x. x\<lparr>watchdog_index := 0\<rparr>) (slots (snd m')) = map (\<lambda>x. x\<lparr>watchdog_index := 0\<rparr>) (slots (snd m))"
  proof (rule nth_equalityI)
    fix j assume "j < length (map (\<lambda>x. x\<lparr>watchdog_index := 0\<rparr>) (slots (snd m')))"
    moreover have "(slots (snd m') ! j)\<lparr>watchdog_index := watchdog_index (slots (snd m) ! j)\<rparr> = slots (snd m) ! j"
      using assms by (simp add: only_indices_def slot_at_def)
    then have "(slots (snd m') ! j)\<lparr>watchdog_index := 0\<rparr> = (slots (snd m) ! j)\<lparr>watchdog_index := 0\<rparr>"
      by (metis esrb_slot.update_convs(9) esrb_slot.surjective)
    ultimately show "map (\<lambda>x. x\<lparr>watchdog_index := 0\<rparr>) (slots (snd m')) ! j =
        map (\<lambda>x. x\<lparr>watchdog_index := 0\<rparr>) (slots (snd m)) ! j"
      using assms by (simp add: only_indices_def)
  qed (use assms in \<open>simp add: only_indices_def\<close>)
  moreover have "(snd m')\<lparr>slots := slots (snd m)\<rparr> = snd m" using assms by (simp add: only_indices_def)
  then have "(snd m')\<lparr>slots := xs\<rparr> = (snd m)\<lparr>slots := xs\<rparr>" for xs
    by (metis esrb_queue.update_convs(3) esrb_queue.surjective)
  ultimately show ?thesis by (simp add: erase_index_def)
qed

lemma erase_index_fields [simp]:
  "length (slots (erase_index q)) = length (slots q)" "capacity (erase_index q) = capacity q"
  "queue_mask (erase_index q) = queue_mask q" "enqueue_position (erase_index q) = enqueue_position q"
  "dequeue_position (erase_index q) = dequeue_position q"
  "j < length (slots q) \<Longrightarrow> slot_at (erase_index q) j = (slot_at q j)\<lparr>watchdog_index := 0\<rparr>"
  by (simp_all add: erase_index_def slot_at_def)

lemma erase_index_ring: "ring k e d U C R (erase_index q) \<longleftrightarrow> ring k e d U C R q"
  unfolding ring_def by auto

lemma erase_index_quiet:
  "valid_queue (erase_index q) \<longleftrightarrow> valid_queue q"
  "pending_slots (erase_index q) = pending_slots q"
  "quiet_queue (erase_index q) \<longleftrightarrow> quiet_queue q"
proof -
  show v: "valid_queue (erase_index q) \<longleftrightarrow> valid_queue q"
    by (simp add: valid_queue_def erase_index_ring)
  show p: "pending_slots (erase_index q) = pending_slots q"
    by (simp add: pending_slots_def esrb_queue_depth_def slot_of_def)
  show "quiet_queue (erase_index q) \<longleftrightarrow> quiet_queue q"
    using pending_slots_index [of q] unfolding quiet_queue_def v p by auto
qed

text \<open>A client without what the watchdog thread keeps for itself.\<close>

definition watch_frame :: "esrb_client \<Rightarrow> esrb_client" where
  "watch_frame s = s\<lparr>watchdog := zero_watchdog, queue := erase_index (queue s)\<rparr>"

lemma watch_frameD:
  assumes "watch_frame s' = watch_frame s"
  shows "length (slots (queue s')) = length (slots (queue s))" "capacity (queue s') = capacity (queue s)"
    and "j < length (slots (queue s)) \<Longrightarrow> occupied (slot_at (queue s') j) = occupied (slot_at (queue s) j)"
    and "j < length (slots (queue s)) \<Longrightarrow> slot_position (slot_at (queue s') j) = slot_position (slot_at (queue s) j)"
    and "j < length (slots (queue s)) \<Longrightarrow> unanswered s' j = unanswered s j"
    and "j < length (slots (queue s)) \<Longrightarrow> message_in s' j = message_in s j"
    and "j < length (slots (queue s)) \<Longrightarrow> default_response s' j = default_response s j"
    and "quiet_queue (queue s') = quiet_queue (queue s)"
    and "pending_slots (queue s') = pending_slots (queue s)"
    and "trace s' = trace s" "timeouts s' = timeouts s" "closed s' = closed s" "notified s' = notified s"
    and "watchdog_running s' = watchdog_running s" "wakeup_fd s' = wakeup_fd s" "pipe_bytes s' = pipe_bytes s"
    and "last_event_seq s' = last_event_seq s" "seen_event_seq s' = seen_event_seq s"
    and "default_auth s' = default_auth s" "default_cache s' = default_cache s"
    and "active_callbacks s' = active_callbacks s"
proof -
  have q: "erase_index (queue s') = erase_index (queue s)"
    using arg_cong [OF assms, of queue] by (simp add: watch_frame_def)
  show len: "length (slots (queue s')) = length (slots (queue s))" and "capacity (queue s') = capacity (queue s)"
    using arg_cong [OF q, of "\<lambda>q. length (slots q)"] arg_cong [OF q, of capacity] by simp_all
  have at: "(slot_at (queue s') j)\<lparr>watchdog_index := 0\<rparr> = (slot_at (queue s) j)\<lparr>watchdog_index := 0\<rparr>"
    if "j < length (slots (queue s))" for j
    using arg_cong [OF q, of "\<lambda>q. slot_at q j"] that len by simp
  show "j < length (slots (queue s)) \<Longrightarrow> occupied (slot_at (queue s') j) = occupied (slot_at (queue s) j)"
    "j < length (slots (queue s)) \<Longrightarrow> slot_position (slot_at (queue s') j) = slot_position (slot_at (queue s) j)"
    "j < length (slots (queue s)) \<Longrightarrow> unanswered s' j = unanswered s j"
    "j < length (slots (queue s)) \<Longrightarrow> message_in s' j = message_in s j"
    using arg_cong [OF at, of j occupied] arg_cong [OF at, of j slot_position]
      arg_cong [OF at, of j answer_state] arg_cong [OF at, of j slot_message]
    by (simp_all add: unanswered_def message_in_def)
  show fields: "trace s' = trace s" "timeouts s' = timeouts s" "closed s' = closed s" "notified s' = notified s"
    "watchdog_running s' = watchdog_running s" "wakeup_fd s' = wakeup_fd s" "pipe_bytes s' = pipe_bytes s"
    "last_event_seq s' = last_event_seq s" "seen_event_seq s' = seen_event_seq s"
    "default_auth s' = default_auth s" "default_cache s' = default_cache s"
    "active_callbacks s' = active_callbacks s"
    using arg_cong [OF assms, of trace] arg_cong [OF assms, of timeouts] arg_cong [OF assms, of closed]
      arg_cong [OF assms, of notified] arg_cong [OF assms, of watchdog_running]
      arg_cong [OF assms, of wakeup_fd] arg_cong [OF assms, of pipe_bytes]
      arg_cong [OF assms, of last_event_seq] arg_cong [OF assms, of seen_event_seq]
      arg_cong [OF assms, of default_auth] arg_cong [OF assms, of default_cache]
      arg_cong [OF assms, of active_callbacks]
    by (simp_all add: watch_frame_def)
  show "j < length (slots (queue s)) \<Longrightarrow> default_response s' j = default_response s j"
    using arg_cong [OF at, of j slot_client] arg_cong [OF at, of j slot_message]
    by (simp add: default_response_def message_in_def fields default_flags_def Let_def)
  show "quiet_queue (queue s') = quiet_queue (queue s)" "pending_slots (queue s') = pending_slots (queue s)"
    using erase_index_quiet(2,3) [of "queue s'"] erase_index_quiet(2,3) [of "queue s"] by (simp_all add: q)
qed

section \<open>Taking the requests\<close>

definition watch_ok :: "esrb_client \<Rightarrow> bool" where
  "watch_ok s \<longleftrightarrow> valid_requests (watchdog s) \<and> heap_ok (watch_mem_of s) \<and>
     unat (wd_capacity (watchdog s)) = length (slots (queue s)) \<and>
     (\<forall>e \<in> set (pending_requests (watchdog s)). entry_slot e < length (slots (queue s)))"

definition to_request :: "esrb_watchdog_entry \<Rightarrow> esrb_watchdog_request" where
  "to_request e = zero_request\<lparr>req_slot := entry_slot e, req_position := entry_position e,
     req_fire_at := entry_fire_at e\<rparr>"

text \<open>A request replaces the entry of its slot.\<close>

definition merge :: "esrb_watchdog_entry \<Rightarrow> esrb_watchdog_entry set \<Rightarrow> esrb_watchdog_entry set" where
  "merge e E = insert e {x \<in> E. entry_slot x \<noteq> entry_slot e}"

lemma entry_of_to_request [simp]: "entry_of (to_request e) = e"
  by (simp add: entry_of_def to_request_def)

lemma watch_pop_cases:
  assumes "valid_requests (watchdog s)"
  shows "(pending_requests (watchdog s) = [] \<longrightarrow> watch_pop s = Some (None, s)) \<and>
    (\<forall>e es. pending_requests (watchdog s) = e # es \<longrightarrow> (\<exists>w. watch_pop s = Some (Some (to_request e), s\<lparr>watchdog := w\<rparr>) \<and>
      valid_requests w \<and> pending_requests w = es \<and> heap w = heap (watchdog s) \<and>
      heap_size w = heap_size (watchdog s) \<and> wd_capacity w = wd_capacity (watchdog s)))"
proof -
  obtain k e d where r: "request_ring k e d (watchdog s)" using assms by (auto simp: valid_requests_def)
  show ?thesis
  proof (cases "d < e")
    case True
    obtain q w where q: "request_pop (watchdog s) = (Some q, w)" "request_ring k e (Suc d) w"
        "pending_requests (watchdog s) = request_entry q # pending_requests w"
        "heap w = heap (watchdog s)" "heap_size w = heap_size (watchdog s)"
      using pop_some [OF r True] by blast
    have "req_sequence q = 0" "wd_capacity w = wd_capacity (watchdog s)"
      using q(1) by (auto simp: request_pop_def Let_def zero_request_def split: if_splits)
    then have "q = to_request (request_entry q)"
      by (simp add: to_request_def request_entry_def zero_request_def)
    then show ?thesis
      using q valid_requestsI [OF q(2)] \<open>wd_capacity w = wd_capacity (watchdog s)\<close>
      by (auto simp: watch_pop_def)
  next
    case False
    then have "d = e" using request_ringD(8) [OF r] by simp
    then show ?thesis using r pop_none pending_requests_ring by (auto simp: watch_pop_def)
  qed
qed

lemma heap_ok_watchdog:
  "heap w = heap w' \<Longrightarrow> heap_size w = heap_size w' \<Longrightarrow> wd_capacity w = wd_capacity w' \<Longrightarrow>
    heap_ok (w, q) \<longleftrightarrow> heap_ok (w', q)"
  "heap w = heap w' \<Longrightarrow> heap_size w = heap_size w' \<Longrightarrow> entries (w, q) = entries (w', q)"
  by (simp_all add: heap_ok_def heap_index_def heap_at_def index_at_def entries_def)

lemma watch_set_effect:
  assumes ok: "watch_ok s" and e: "entry_slot e < length (slots (queue s))"
  shows "\<exists>s'. watch_set (to_request e) s = Some ((), s') \<and> watch_ok s' \<and>
    pending_requests (watchdog s') = pending_requests (watchdog s) \<and> watch_frame s' = watch_frame s \<and>
    entries (watch_mem_of s') = merge e (entries (watch_mem_of s))"
proof -
  let ?m = "watch_mem_of s" and ?r = "to_request e"
  have h: "heap_ok ?m" using ok by (simp add: watch_ok_def)
  have slot: "req_slot ?r = entry_slot e" by (simp add: to_request_def)
  have "heap_ok (heap_set ?r ?m) \<and> only_indices ?m (heap_set ?r ?m) \<and>
      entries (heap_set ?r ?m) = merge e (entries ?m)"
  proof (cases "has_entry ?m (req_slot ?r)")
    case True
    then show ?thesis using heap_set_update [OF h True] by (simp add: merge_def slot)
  next
    case False
    have "heap_index ?m" using h by (simp add: heap_ok_def)
    from heap_has_room [OF this _ False] have "size_of ?m < unat (wd_capacity (fst ?m))"
      using ok e by (simp add: slot watch_mem_of_def watch_ok_def)
    moreover have "{x \<in> entries ?m. entry_slot x \<noteq> entry_slot e} = entries ?m"
      using False by (auto simp: has_entry_def slot)
    ultimately show ?thesis
      using heap_set_fresh [OF h _ False] e by (simp add: slot merge_def watch_mem_of_def)
  qed
  then have m: "heap_ok (heap_set ?r ?m)" "only_indices ?m (heap_set ?r ?m)"
    "entries (heap_set ?r ?m) = merge e (entries ?m)" by simp_all
  define s' where "s' = set_watch_mem (heap_set ?r ?m) s"
  have mem: "watch_mem_of s' = heap_set ?r ?m" by (simp add: s'_def set_watch_mem_def watch_mem_of_def)
  have w: "(watchdog s')\<lparr>heap := heap (watchdog s), heap_size := heap_size (watchdog s)\<rparr> = watchdog s"
    and len: "length (slots (queue s')) = length (slots (queue s))"
    using m(2) by (simp_all add: s'_def set_watch_mem_def watch_mem_of_def only_indices_def)
  have same: "requests (watchdog s') = requests (watchdog s)"
    "wd_enqueue_position (watchdog s') = wd_enqueue_position (watchdog s)"
    "wd_dequeue_position (watchdog s') = wd_dequeue_position (watchdog s)"
    "wd_capacity (watchdog s') = wd_capacity (watchdog s)" "wd_mask (watchdog s') = wd_mask (watchdog s)"
    using arg_cong [OF w, of requests] arg_cong [OF w, of wd_enqueue_position]
      arg_cong [OF w, of wd_dequeue_position] arg_cong [OF w, of wd_capacity] arg_cong [OF w, of wd_mask]
    by simp_all
  have pend: "pending_requests (watchdog s') = pending_requests (watchdog s)"
    by (simp add: pending_requests_def request_of_def request_at_def same)
  have "valid_requests (watchdog s') = valid_requests (watchdog s)"
    by (simp add: valid_requests_def request_ring_def request_at_def same)
  then have "watch_ok s'" using ok m(1) by (simp add: watch_ok_def mem same len pend)
  moreover have "watch_frame s' = watch_frame s"
    using erase_only_indices [OF m(2)] by (simp add: watch_frame_def s'_def set_watch_mem_def watch_mem_of_def)
  ultimately show ?thesis using m(3) pend by (simp add: watch_set_def mem flip: s'_def)
qed

lemma watch_pop_source: "source watch_pop watch_ok (\<lambda>s. map to_request (pending_requests (watchdog s)))"
proof unfold_locales
  fix s assume "watch_ok s" "map to_request (pending_requests (watchdog s)) = []"
  then show "watch_pop s = Some (None, s)" using watch_pop_cases [of s] by (simp add: watch_ok_def)
next
  fix s x xs assume ok: "watch_ok s" and cons: "map to_request (pending_requests (watchdog s)) = x # xs"
  then obtain e es where e: "pending_requests (watchdog s) = e # es" "x = to_request e" "xs = map to_request es"
    by auto
  obtain w where w: "watch_pop s = Some (Some (to_request e), s\<lparr>watchdog := w\<rparr>)" "valid_requests w"
      "pending_requests w = es" "heap w = heap (watchdog s)" "heap_size w = heap_size (watchdog s)"
      "wd_capacity w = wd_capacity (watchdog s)"
    using watch_pop_cases [of s] ok e(1) unfolding watch_ok_def by blast
  have "heap_ok (w, queue s)"
    using ok heap_ok_watchdog(1) [OF w(4-6)] by (simp add: watch_ok_def watch_mem_of_def)
  then have "watch_ok (s\<lparr>watchdog := w\<rparr>)" using ok w e(1) by (auto simp: watch_ok_def watch_mem_of_def)
  then show "\<exists>s'. watch_pop s = Some (Some x, s') \<and> watch_ok s' \<and>
      map to_request (pending_requests (watchdog s')) = xs"
    using w(1,3) e(2,3) by (intro exI [of _ "s\<lparr>watchdog := w\<rparr>"]) simp
qed

interpretation armed: source_consumer watch_pop watch_ok
  "\<lambda>s. map to_request (pending_requests (watchdog s))" watch_set
  "\<lambda>s. (watch_frame s, entries (watch_mem_of s))" "\<lambda>r (f, E). (f, merge (entry_of r) E)" "\<lambda>_. ()"
  unfolding source_consumer_def source_consumer_axioms_def
proof (intro conjI allI impI watch_pop_source)
  fix s x xs s'
  assume ok: "watch_ok s" and cons: "map to_request (pending_requests (watchdog s)) = x # xs"
    and get: "watch_pop s = Some (Some x, s')"
  then obtain e es where e: "pending_requests (watchdog s) = e # es" "x = to_request e" by auto
  obtain w where w: "s' = s\<lparr>watchdog := w\<rparr>" "heap w = heap (watchdog s)" "heap_size w = heap_size (watchdog s)"
    using watch_pop_cases [of s] ok e(1) get unfolding watch_ok_def by auto
  have ok': "watch_ok s'" using source.get_Some_iff(3) [OF watch_pop_source ok get] .
  have slot: "entry_slot e < length (slots (queue s'))" using ok e(1) by (simp add: watch_ok_def w(1))
  have "watch_frame s' = watch_frame s" by (simp add: w(1) watch_frame_def)
  moreover have "entries (watch_mem_of s') = entries (watch_mem_of s)"
    using heap_ok_watchdog(2) [OF w(2,3)] by (simp add: watch_mem_of_def w(1))
  ultimately show "\<exists>s''. watch_set x s' = Some ((), s'') \<and> watch_ok s'' \<and>
      map to_request (pending_requests (watchdog s'')) = map to_request (pending_requests (watchdog s')) \<and>
      (watch_frame s'', entries (watch_mem_of s'')) =
        (case (watch_frame s, entries (watch_mem_of s)) of (f, E) \<Rightarrow> (f, merge (entry_of x) E))"
    using watch_set_effect [OF ok' slot] by (auto simp: e(2))
next
  fix s s' assume "watch_ok s" "map to_request (pending_requests (watchdog s)) = []"
    "watch_pop s = Some (None, s')"
  then show "(watch_frame s', entries (watch_mem_of s')) = (watch_frame s, entries (watch_mem_of s))"
    using source.get_empty [OF watch_pop_source] by simp
qed

text \<open>What the requests leave in the heap: for each slot its latest request, else its entry.\<close>

definition merged :: "esrb_client \<Rightarrow> esrb_watchdog_entry set" where
  "merged s = fold merge (pending_requests (watchdog s)) (entries (watch_mem_of s))"

lemma take_requests_effect:
  assumes "watch_ok s"
  shows "\<exists>s'. take_requests s = Some s' \<and> watch_ok s' \<and> pending_requests (watchdog s') = [] \<and>
    watch_frame s' = watch_frame s \<and> entries (watch_mem_of s') = merged s"
proof -
  have "fold (\<lambda>r (f, E). (f, merge (entry_of r) E)) (map to_request es) (f, E) = (f, fold merge es E)"
    for es E and f :: esrb_client
    by (induction es arbitrary: E) simp_all
  then show ?thesis
    using armed.while_get_drains [OF assms] by (auto simp: take_requests_def merged_def)
qed

section \<open>Answering what is due\<close>

text \<open>The heap as an agenda.\<close>

definition due_top :: "esrb_client \<Rightarrow> esrb_watchdog_entry option" where
  "due_top s = (if heap_size (watchdog s) > 0 then Some (heap (watchdog s) ! 0) else None)"

definition due_pop :: "esrb_client \<Rightarrow> esrb_client" where
  "due_pop s = set_watch_mem (heap_remove 0 (watch_mem_of s)) s"

lemma due_pop_mem: "watch_mem_of (due_pop s) = heap_remove 0 (watch_mem_of s)"
  by (simp add: due_pop_def set_watch_mem_def watch_mem_of_def)

lemma due_pop_frame:
  assumes "heap_ok (watch_mem_of s)" and "due_top s = Some e"
  shows "watch_frame (due_pop s) = watch_frame s"
    and "(watchdog (due_pop s))\<lparr>heap := heap (watchdog s), heap_size := heap_size (watchdog s)\<rparr> = watchdog s"
proof -
  have i: "0 < size_of (watch_mem_of s)"
    using assms(2) by (simp add: due_top_def watch_mem_of_def split: if_splits)
  have o: "only_indices (watch_mem_of s) (heap_remove 0 (watch_mem_of s))"
    using heap_remove_ok [OF assms(1) i] by simp
  from erase_only_indices [OF o] show "watch_frame (due_pop s) = watch_frame s"
    by (simp add: watch_frame_def due_pop_def set_watch_mem_def watch_mem_of_def)
  show "(watchdog (due_pop s))\<lparr>heap := heap (watchdog s), heap_size := heap_size (watchdog s)\<rparr> = watchdog s"
    using o by (simp add: only_indices_def due_pop_def set_watch_mem_def watch_mem_of_def)
qed

interpretation deadlines: agenda "\<lambda>s. heap_ok (watch_mem_of s)" "\<lambda>s. entries (watch_mem_of s)"
  entry_fire_at due_top due_pop
proof unfold_locales
  fix s assume "heap_ok (watch_mem_of s)"
  show "due_top s = None \<longleftrightarrow> entries (watch_mem_of s) = {}"
    by (simp add: due_top_def entries_def watch_mem_of_def lessThan_empty_iff)
next
  fix s e assume ok: "heap_ok (watch_mem_of s)" and top: "due_top s = Some e"
  then have e: "e = heap_at (watch_mem_of s) 0" "0 < size_of (watch_mem_of s)"
    by (auto simp: due_top_def heap_at_def watch_mem_of_def split: if_splits)
  then show "e \<in> entries (watch_mem_of s) \<and> (\<forall>x \<in> entries (watch_mem_of s). entry_fire_at e \<le> entry_fire_at x)"
    using heap_root_least [OF ok] by (auto simp: entries_def)
  show "heap_ok (watch_mem_of (due_pop s)) \<and> entries (watch_mem_of (due_pop s)) = entries (watch_mem_of s) - {e}"
    using heap_remove_ok [OF ok e(2)] e(1) by (simp add: due_pop_mem)
qed

text \<open>An entry is live while its slot still holds the message it was armed for, unanswered.\<close>

definition live :: "esrb_client \<Rightarrow> esrb_watchdog_entry \<Rightarrow> bool" where
  "live s e \<longleftrightarrow> occupied (slot_at (queue s) (entry_slot e)) \<and>
     slot_position (slot_at (queue s) (entry_slot e)) = entry_position e \<and> unanswered s (entry_slot e)"

lemma set_slot_set_slot: "set_slot i f (set_slot i g q) = set_slot i (\<lambda>x. f (g x)) q"
  by (cases "i < length (slots q)") (simp_all add: set_slot_def list_update_beyond)

lemma set_slot_id: "(\<And>x. f x = x) \<Longrightarrow> set_slot i f q = q"
  by (simp add: set_slot_def)

lemma move_queue:
  "send_default h c m (s\<lparr>queue := q\<rparr>) = (send_default h c m s)\<lparr>queue := q\<rparr>"
  "esrb_notify h (s\<lparr>queue := q\<rparr>) = (esrb_notify h s)\<lparr>queue := q\<rparr>"
  by (simp_all add: send_default_def esrb_send_response_def call_def esrb_notify_def default_flags_def Let_def)

lemma send_default_timeouts [simp]: "timeouts (send_default h c m s) = timeouts s"
  by (simp add: send_default_def esrb_send_response_def call_def Let_def)

lemma answer_due_eq:
  assumes i: "entry_slot e < length (slots (queue s))"
  shows "answer_due h e s = (if live s e
    then esrb_notify h ((client_answer_slot h (entry_slot e) s)\<lparr>timeouts := timeouts s + 1\<rparr>) else s)"
proof -
  let ?i = "entry_slot e" and ?q = "queue s"
  define q1 where "q1 = set_slot ?i (\<lambda>x. x\<lparr>readers := readers x + 1\<rparr>) ?q"
  define q2 where "q2 = set_slot ?i (\<lambda>x. x\<lparr>answer_state := ESRB_ANSWER_ANSWERED\<rparr>) ?q"
  have at1: "slot_at q1 ?i = (slot_at ?q ?i)\<lparr>readers := readers (slot_at ?q ?i) + 1\<rparr>"
    using i by (simp add: q1_def)
  have leave1: "set_slot ?i (\<lambda>x. x\<lparr>readers := readers x + - 1\<rparr>) q1 = ?q"
    unfolding q1_def set_slot_set_slot by (rule set_slot_id) simp
  have leave2: "set_slot ?i (\<lambda>x. x\<lparr>readers := readers x + - 1\<rparr>)
      (set_slot ?i (\<lambda>x. x\<lparr>answer_state := ESRB_ANSWER_ANSWERED\<rparr>) q1) = q2"
    unfolding q1_def q2_def set_slot_set_slot by (simp add: set_slot_def)
  have s1: "add_readers ?i 1 s = s\<lparr>queue := q1\<rparr>" by (simp add: add_readers_def q1_def)
  have at2: "slot_at (set_slot ?i (\<lambda>x. x\<lparr>answer_state := ESRB_ANSWER_ANSWERED\<rparr>) q1) ?i =
      (slot_at ?q ?i)\<lparr>readers := readers (slot_at ?q ?i) + 1, answer_state := ESRB_ANSWER_ANSWERED\<rparr>"
    using i by (simp add: q1_def)
  show ?thesis
  proof (cases "live s e")
    case True
    let ?c = "slot_client (slot_at ?q ?i)" and ?m = "message_in s ?i"
    define t where "t = esrb_notify h ((send_default h ?c ?m s)\<lparr>timeouts := timeouts s + 1\<rparr>)"
    have move: "esrb_notify h ((send_default h ?c ?m s)\<lparr>queue := q, timeouts := timeouts s + 1\<rparr>) =
        t\<lparr>queue := q\<rparr>" for q
    proof -
      have "(send_default h ?c ?m s)\<lparr>queue := q, timeouts := timeouts s + 1\<rparr> =
          ((send_default h ?c ?m s)\<lparr>timeouts := timeouts s + 1\<rparr>)\<lparr>queue := q\<rparr>" by simp
      then show ?thesis by (simp only: move_queue(2) t_def)
    qed
    have "client_answer_slot h ?i s = (send_default h ?c ?m s)\<lparr>queue := q2\<rparr>"
      using True i by (simp add: live_def unanswered_def client_answer_slot_def cas_answer_def Let_def
        move_queue message_in_def q2_def)
    then have "esrb_notify h ((client_answer_slot h ?i s)\<lparr>timeouts := timeouts s + 1\<rparr>) = t\<lparr>queue := q2\<rparr>"
      by (simp add: move)
    moreover have "answer_due h e s = t\<lparr>queue := q2\<rparr>"
    proof -
      have "add_readers ?i (- 1) (t\<lparr>queue := set_slot ?i (\<lambda>x. x\<lparr>answer_state := ESRB_ANSWER_ANSWERED\<rparr>) q1\<rparr>) =
          t\<lparr>queue := q2\<rparr>"
        using leave2 by (simp add: add_readers_def)
      then show ?thesis
        using True unfolding answer_due_def Let_def s1
        by (simp add: at1 at2 live_def unanswered_def cas_answer_def move_queue message_in_def move [unfolded message_in_def])
    qed
    ultimately show ?thesis using True by simp
  next
    case False
    have "add_readers ?i (- 1) (s\<lparr>queue := q1\<rparr>) = s" using leave1 by (simp add: add_readers_def)
    then show ?thesis
      using False unfolding answer_due_def Let_def s1
      by (auto simp: at1 live_def unanswered_def cas_answer_def)
  qed
qed

text \<open>What a round never changes: the messages in their slots, the request ring, who is in the ring.\<close>

definition keeps :: "esrb_client \<Rightarrow> esrb_client \<Rightarrow> bool" where
  "keeps s s' \<longleftrightarrow> length (slots (queue s')) = length (slots (queue s)) \<and>
     capacity (queue s') = capacity (queue s) \<and>
     (\<forall>j < length (slots (queue s)). occupied (slot_at (queue s') j) = occupied (slot_at (queue s) j) \<and>
        slot_position (slot_at (queue s') j) = slot_position (slot_at (queue s) j) \<and>
        message_in s' j = message_in s j) \<and>
     (quiet_queue (queue s) \<longrightarrow> quiet_queue (queue s') \<and> pending_slots (queue s') = pending_slots (queue s)) \<and>
     pending_requests (watchdog s') = pending_requests (watchdog s) \<and>
     valid_requests (watchdog s') = valid_requests (watchdog s) \<and>
     wd_capacity (watchdog s') = wd_capacity (watchdog s) \<and>
     last_event_seq s' = last_event_seq s \<and> seen_event_seq s' = seen_event_seq s \<and>
     closed s' = closed s \<and> watchdog_running s' = watchdog_running s"

lemma keeps_refl [simp]: "keeps s s"
  by (simp add: keeps_def)

lemma keeps_trans:
  assumes "keeps s t" and "keeps t u"
  shows "keeps s u"
proof -
  have "j < length (slots (queue t))" if "j < length (slots (queue s))" for j
    using assms(1) that by (simp add: keeps_def)
  then show ?thesis using assms unfolding keeps_def by simp
qed

lemma keeps_call: "keeps s (call c s)"
  by (simp add: keeps_def message_in_def call_def)

lemma pending_requests_heap:
  assumes "w'\<lparr>heap := x, heap_size := n\<rparr> = w"
  shows "pending_requests w' = pending_requests w" "valid_requests w' = valid_requests w"
    "wd_capacity w' = wd_capacity w"
  using assms[symmetric]
  by (simp_all add: pending_requests_def request_of_def request_at_def valid_requests_def request_ring_def)

lemma keeps_due_pop:
  assumes "heap_ok (watch_mem_of s)" and "due_top s = Some e"
  shows "keeps s (due_pop s)"
  using watch_frameD [OF due_pop_frame(1) [OF assms]] pending_requests_heap [OF due_pop_frame(2) [OF assms]]
  unfolding keeps_def by blast

lemma client_answer_slot_keeps:
  assumes "i < length (slots (queue s))"
  shows "keeps s (client_answer_slot h i s)"
proof -
  obtain p t n where "client_answer_slot h i s = s\<lparr>queue := answer_with p (queue s), trace := t, response_errors := n\<rparr>"
    using client_answer_slot_answers [OF assms, of h] by (auto simp: answers_only_def)
  then show ?thesis
    using answer_with_quiet [where p = p and q = "queue s"] by (auto simp: keeps_def message_in_def quiet_queue_def)
qed

lemma answer_due_effect:
  assumes i: "entry_slot e < length (slots (queue s))"
  shows "keeps s (answer_due h e s)"
    and "unanswered (answer_due h e s) j \<longleftrightarrow> unanswered s j \<and> \<not> (j = entry_slot e \<and> live s e)"
    and "trace (answer_due h e s) = trace s @ (if live s e then [default_response s (entry_slot e)] else [])"
    and "timeouts (answer_due h e s) = timeouts s + (if live s e then 1 else 0)"
    and "watch_mem_of (answer_due h e s) = (watchdog s, if live s e
      then queue (client_answer_slot h (entry_slot e) s) else queue s)"
proof -
  let ?t = "client_answer_slot h (entry_slot e) s"
  define u where "u = esrb_notify h (?t\<lparr>timeouts := timeouts s + 1\<rparr>)"
  have eq: "answer_due h e s = (if live s e then u else s)" by (simp add: answer_due_eq [OF i] u_def)
  have u: "queue u = queue ?t" "watchdog u = watchdog s" "trace u = trace ?t" "timeouts u = timeouts s + 1"
    "closed u = closed ?t" "watchdog_running u = watchdog_running ?t" "last_event_seq u = last_event_seq ?t"
    "seen_event_seq u = seen_event_seq ?t"
    using answers_onlyD(12) [OF client_answer_slot_answers [OF i, of h]]
    by (simp_all add: u_def esrb_notify_def)
  have "keeps ?t u" by (simp add: keeps_def u message_in_def answers_onlyD(12) [OF client_answer_slot_answers [OF i, of h]])
  with client_answer_slot_keeps [OF i] have "keeps s u" by (rule keeps_trans)
  then show "keeps s (answer_due h e s)" by (simp add: eq)
  show "unanswered (answer_due h e s) j \<longleftrightarrow> unanswered s j \<and> \<not> (j = entry_slot e \<and> live s e)"
    using client_answer_slot_unanswered(1) [OF i, of h j] by (auto simp: eq unanswered_def u)
  show "trace (answer_due h e s) = trace s @ (if live s e then [default_response s (entry_slot e)] else [])"
    using client_answer_slot_unanswered(2) [OF i, of h] by (simp add: eq u live_def)
  show "timeouts (answer_due h e s) = timeouts s + (if live s e then 1 else 0)" by (simp add: eq u)
  show "watch_mem_of (answer_due h e s) = (watchdog s, if live s e
      then queue (client_answer_slot h (entry_slot e) s) else queue s)"
    by (simp add: eq u watch_mem_of_def)
qed

lemma heap_ok_answer:
  "heap_ok (w, answer_with p q) \<longleftrightarrow> heap_ok (w, q)"
proof -
  have "(\<forall>i < heap_size w. P i (entry_slot (heap w ! i)) \<and> Q i (slot_at (answer_with p q) (entry_slot (heap w ! i)))) =
      (\<forall>i < heap_size w. P i (entry_slot (heap w ! i)) \<and> Q i (slot_at q (entry_slot (heap w ! i))))"
    if "\<And>i j. P i j \<Longrightarrow> j < length (slots q)" "\<And>i x a. Q i (x\<lparr>answer_state := a\<rparr>) = Q i x" for P Q
    using that by auto
  from this [of "\<lambda>i j. j < length (slots q)" "\<lambda>i x. watchdog_index x = of_nat i"]
  show ?thesis by (simp add: heap_ok_def heap_index_def heap_at_def index_at_def)
qed

lemma heap_ok_answer_due:
  assumes "entry_slot e < length (slots (queue s))" and "heap_ok (watch_mem_of s)"
  shows "heap_ok (watch_mem_of (answer_due h e s))"
    and "entries (watch_mem_of (answer_due h e s)) = entries (watch_mem_of s)"
proof -
  obtain p t n where "client_answer_slot h (entry_slot e) s =
      s\<lparr>queue := answer_with p (queue s), trace := t, response_errors := n\<rparr>"
    using client_answer_slot_answers [OF assms(1), of h] by (auto simp: answers_only_def)
  then show "heap_ok (watch_mem_of (answer_due h e s))"
    using assms(2) by (simp add: answer_due_effect(5) [OF assms(1)] heap_ok_answer) (simp add: watch_mem_of_def)
  show "entries (watch_mem_of (answer_due h e s)) = entries (watch_mem_of s)"
    by (simp add: answer_due_effect(5) [OF assms(1)] watch_mem_of_def entries_def heap_at_def)
qed

text \<open>The time of the last clock reading, when it is the last call.\<close>

definition read_at :: "es_host \<Rightarrow> esrb_client \<Rightarrow> uint64" where
  "read_at h s = host_time h (butlast (trace s))"

definition clock_forward :: "es_host \<Rightarrow> bool" where
  "clock_forward h \<longleftrightarrow> (\<forall>t u. host_time h t \<le> host_time h (t @ u))"

lemma response_to_default [simp]: "response_to (default_response s i) = Some (message_in s i)"
  by (simp add: default_response_def Let_def)

text \<open>What the loop over the due entries does, by the entries it takes off, in order.\<close>

definition fires_all :: "es_host \<Rightarrow> esrb_watchdog_entry list \<Rightarrow> esrb_client \<Rightarrow> esrb_client \<Rightarrow> bool" where
  "fires_all h fired s s' \<longleftrightarrow>
     heap_ok (watch_mem_of s') \<and> keeps s s' \<and> distinct fired \<and> set fired \<subseteq> entries (watch_mem_of s) \<and>
     entries (watch_mem_of s') = entries (watch_mem_of s) - set fired \<and>
     sorted (map entry_fire_at fired) \<and>
     (\<forall>j < length (slots (queue s)). unanswered s' j \<longleftrightarrow> unanswered s j \<and> \<not> (\<exists>e \<in> set fired. entry_slot e = j \<and> live s e)) \<and>
     responses_in (trace s') = responses_in (trace s) @
       map (\<lambda>e. message_in s (entry_slot e)) (filter (live s) fired) \<and>
     timeouts s' = timeouts s + of_nat (length (filter (live s) fired)) \<and>
     (\<forall>e \<in> set fired. entry_fire_at e \<le> read_at h s') \<and>
     (\<forall>e \<in> entries (watch_mem_of s'). read_at h s' < entry_fire_at e) \<and> read_at h s \<le> read_at h s'"

lemma entry_slot_bound:
  assumes "heap_ok (watch_mem_of s)" and "e \<in> entries (watch_mem_of s)"
  shows "entry_slot e < length (slots (queue s))"
  using assms by (auto simp: heap_ok_def heap_index_def entries_def watch_mem_of_def)

lemma entry_slot_inj:
  assumes "heap_ok (watch_mem_of s)" and "e \<in> entries (watch_mem_of s)" "e' \<in> entries (watch_mem_of s)"
    and "entry_slot e = entry_slot e'"
  shows "e = e'"
  using assms heap_slots_distinct [of "watch_mem_of s"] by (auto simp: heap_ok_def entries_def)

lemma due_pop_trace [simp]: "trace (due_pop s) = trace s" "timeouts (due_pop s) = timeouts s"
  by (simp_all add: due_pop_def set_watch_mem_def)

text \<open>One turn of the loop.\<close>

definition due_turn :: "es_host \<Rightarrow> esrb_watchdog_entry \<Rightarrow> esrb_client \<Rightarrow> esrb_client" where
  "due_turn h e s = call Mach_absolute_time (answer_due h e (due_pop s))"

lemma due_turn_effect:
  assumes ok: "heap_ok (watch_mem_of s)" and top: "due_top s = Some e"
    and t_eq: "t = due_turn h e s"
  shows "heap_ok (watch_mem_of t)" and "entries (watch_mem_of t) = entries (watch_mem_of s) - {e}"
    and "keeps s t"
    and "j < length (slots (queue s)) \<Longrightarrow> unanswered t j \<longleftrightarrow> unanswered s j \<and> \<not> (entry_slot e = j \<and> live s e)"
    and "responses_in (trace t) = responses_in (trace s) @ (if live s e then [message_in s (entry_slot e)] else [])"
    and "timeouts t = timeouts s + (if live s e then 1 else 0)"
    and "x \<in> entries (watch_mem_of t) \<Longrightarrow> live t x = live s x \<and> message_in t (entry_slot x) = message_in s (entry_slot x)"
    and "clock_forward h \<Longrightarrow> trace s \<noteq> [] \<Longrightarrow> read_at h s \<le> read_at h t"
proof -
  let ?p = "due_pop s"
  have t_def: "t = call Mach_absolute_time (answer_due h e ?p)" by (simp add: t_eq due_turn_def)
  have pop: "heap_ok (watch_mem_of ?p)" "entries (watch_mem_of ?p) = entries (watch_mem_of s) - {e}"
    using deadlines.pop_items [OF ok top] by simp_all
  have e: "e \<in> entries (watch_mem_of s)" using deadlines.top_least [OF ok top] by simp
  have i: "entry_slot e < length (slots (queue s))" using entry_slot_bound [OF ok e] .
  note F = watch_frameD [OF due_pop_frame(1) [OF ok top]]
  have i': "entry_slot e < length (slots (queue ?p))" using i F(1) by simp
  note A = answer_due_effect [OF i', of h]
  have live: "live ?p x = live s x" if "entry_slot x < length (slots (queue s))" for x
    using F(3-5) that by (simp add: live_def)
  have mem: "watch_mem_of t = watch_mem_of (answer_due h e ?p)" by (simp add: t_def watch_mem_of_def)
  show "heap_ok (watch_mem_of t)" "entries (watch_mem_of t) = entries (watch_mem_of s) - {e}"
    using heap_ok_answer_due [OF i' pop(1), of h] by (simp_all add: mem pop(2))
  show keeps: "keeps s t"
    unfolding t_def using keeps_due_pop [OF ok top] A(1) keeps_call by (blast intro: keeps_trans)
  have un: "j < length (slots (queue s)) \<Longrightarrow> unanswered t j \<longleftrightarrow> unanswered s j \<and> \<not> (entry_slot e = j \<and> live s e)" for j
    using A(2) [of j] F(5) [of j] live [OF i] by (auto simp: t_def unanswered_def)
  then show "j < length (slots (queue s)) \<Longrightarrow> unanswered t j \<longleftrightarrow> unanswered s j \<and> \<not> (entry_slot e = j \<and> live s e)" .
  show "responses_in (trace t) = responses_in (trace s) @ (if live s e then [message_in s (entry_slot e)] else [])"
    by (simp add: t_def A(3) live [OF i] F(6) [OF i])
  show "timeouts t = timeouts s + (if live s e then 1 else 0)"
    by (simp add: t_def A(4) live [OF i])
  show "live t x = live s x \<and> message_in t (entry_slot x) = message_in s (entry_slot x)"
    if x: "x \<in> entries (watch_mem_of t)"
  proof -
    have x': "x \<in> entries (watch_mem_of s)" "x \<noteq> e"
      using x heap_ok_answer_due(2) [OF i' pop(1), of h] by (auto simp: mem pop(2))
    then have "entry_slot x \<noteq> entry_slot e" using entry_slot_inj [OF ok _ e] by blast
    moreover have j: "entry_slot x < length (slots (queue s))" using entry_slot_bound [OF ok x'(1)] .
    ultimately show ?thesis using un [OF j] keeps by (simp add: live_def keeps_def)
  qed
  show "read_at h s \<le> read_at h t" if c: "clock_forward h" and "trace s \<noteq> []"
  proof -
    have "trace s = butlast (trace s) @ [last (trace s)]" using that(2) by simp
    then obtain u where "trace (answer_due h e ?p) = butlast (trace s) @ u"
      unfolding A(3) due_pop_trace by (metis append.assoc)
    then show ?thesis using c by (simp add: read_at_def t_def clock_forward_def butlast_append)
  qed
qed

text \<open>One turn for the top entry, then the rest.\<close>

lemma fires_all_cons:
  assumes "clock_forward h" and ok: "heap_ok (watch_mem_of s)" and "trace s \<noteq> []"
    and top: "due_top s = Some e" and t: "t = due_turn h e s" and due: "entry_fire_at e \<le> read_at h s"
    and f: "fires_all h fired t s'"
  shows "fires_all h (e # fired) s s'"
proof -
  note T = due_turn_effect [OF ok top t]
  have mem: "x \<in> entries (watch_mem_of s)" "x \<noteq> e" "entry_fire_at e \<le> entry_fire_at x"
    "live t x = live s x" "message_in t (entry_slot x) = message_in s (entry_slot x)"
    if "x \<in> set fired" for x
  proof -
    have x: "x \<in> entries (watch_mem_of t)" using f that by (auto simp: fires_all_def)
    then show "x \<in> entries (watch_mem_of s)" "x \<noteq> e" by (simp_all add: T(2))
    then show "entry_fire_at e \<le> entry_fire_at x" using deadlines.top_least [OF ok top] by blast
    show "live t x = live s x" "message_in t (entry_slot x) = message_in s (entry_slot x)"
      using T(7) [OF x] by auto
  qed
  have filt: "filter (live t) fired = filter (live s) fired" by (rule filter_cong) (simp_all add: mem)
  have msgs: "map (\<lambda>x. message_in t (entry_slot x)) (filter (live s) fired) =
      map (\<lambda>x. message_in s (entry_slot x)) (filter (live s) fired)"
    by (rule map_cong) (simp_all add: mem)
  have later: "read_at h s \<le> read_at h t" "read_at h t \<le> read_at h s'"
    using T(8) assms(1,3) f by (auto simp: fires_all_def)
  show ?thesis
    unfolding fires_all_def
  proof (intro conjI)
    show "set (e # fired) \<subseteq> entries (watch_mem_of s)" using deadlines.top_least [OF ok top] mem(1) by auto
    show "\<forall>j < length (slots (queue s)). unanswered s' j \<longleftrightarrow> unanswered s j \<and>
        \<not> (\<exists>x \<in> set (e # fired). entry_slot x = j \<and> live s x)"
    proof (intro allI impI)
      fix j assume j: "j < length (slots (queue s))"
      then have "j < length (slots (queue t))" using T(3) by (simp add: keeps_def)
      then have "unanswered s' j \<longleftrightarrow> unanswered t j \<and> \<not> (\<exists>x \<in> set fired. entry_slot x = j \<and> live t x)"
        using f by (simp add: fires_all_def)
      then show "unanswered s' j \<longleftrightarrow> unanswered s j \<and>
          \<not> (\<exists>x \<in> set (e # fired). entry_slot x = j \<and> live s x)"
        using T(4) [OF j] mem(4) by auto
    qed
    show "responses_in (trace s') = responses_in (trace s) @
        map (\<lambda>x. message_in s (entry_slot x)) (filter (live s) (e # fired))"
      using f by (simp add: fires_all_def T(5) filt msgs)
    show "timeouts s' = timeouts s + of_nat (length (filter (live s) (e # fired)))"
      using f by (simp add: fires_all_def T(6) filt)
    show "keeps s s'" using T(3) f by (auto simp: fires_all_def intro: keeps_trans)
  qed (use f mem(2,3) T(2) due later in \<open>auto simp: fires_all_def\<close>)
qed

lemma fire_due_fires:
  assumes "clock_forward h" and "heap_ok (watch_mem_of s)" and "now = read_at h s" "trace s \<noteq> []"
  shows "\<exists>fired. fires_all h fired s (fire_due h now s)"
  using assms
proof (induction h now s rule: fire_due.induct)
  case (1 h now s)
  note ok = \<open>heap_ok (watch_mem_of s)\<close> and clock = \<open>clock_forward h\<close> and some = \<open>trace s \<noteq> []\<close>
  show ?case
  proof (cases "heap_size (watchdog s) > 0 \<and> entry_fire_at (heap (watchdog s) ! 0) \<le> now")
    case False
    then have "fire_due h now s = s" by (subst fire_due.simps) auto
    moreover have "\<forall>x \<in> entries (watch_mem_of s). read_at h s < entry_fire_at x"
    proof -
      have "now < entry_fire_at e" if "due_top s = Some e" for e
        using that False by (auto simp: due_top_def split: if_splits)
      from deadlines.none_due [OF ok this] show ?thesis using 1(4) by blast
    qed
    ultimately have "fires_all h [] s (fire_due h now s)" using ok by (simp add: fires_all_def)
    then show ?thesis by blast
  next
    case True
    define e where "e = heap (watchdog s) ! 0"
    define t where "t = due_turn h e s"
    have top: "due_top s = Some e" using True by (simp add: due_top_def e_def)
    note T = due_turn_effect [OF ok top t_def]
    have fire: "fire_due h now s = fire_due h (read_at h t) t"
      using True by (subst fire_due.simps) (simp add: Let_def t_def due_turn_def e_def due_pop_def read_at_def)
    have "\<exists>fired. fires_all h fired t (fire_due h (read_at h t) t)"
      using "1.IH" [OF True refl refl, folded e_def, folded due_pop_def] clock T(1)
      by (simp add: t_def due_turn_def read_at_def)
    then obtain fired where "fires_all h fired t (fire_due h now s)" unfolding fire by blast
    moreover have "entry_fire_at e \<le> read_at h s" using True 1(4) by (simp add: e_def)
    ultimately show ?thesis using fires_all_cons [OF clock ok some top t_def] by blast
  qed
qed

section \<open>A round\<close>

lemma client_ok_watch:
  assumes "client_ok s"
  shows "watch_ok s"
proof -
  obtain k e d R where r: "ring k e d {} {} R (queue s)"
    using assms by (auto simp: client_ok_def quiet_queue_def valid_queue_def)
  then have "unat (capacity (queue s)) = length (slots (queue s))"
    using ringD(2,3,5) [OF r] by (simp add: unat_pow2)
  then show ?thesis using assms by (simp add: client_ok_def watch_ok_def watch_mem_of_def)
qed

lemma fires_all_call:
  assumes "fires_all h fired (call Mach_absolute_time s) s'"
  shows "distinct fired \<and> set fired \<subseteq> entries (watch_mem_of s) \<and> heap_ok (watch_mem_of s') \<and>
    entries (watch_mem_of s') = entries (watch_mem_of s) - set fired \<and> keeps s s' \<and>
    sorted (map entry_fire_at fired) \<and>
    (\<forall>j < length (slots (queue s)). unanswered s' j \<longleftrightarrow> unanswered s j \<and> \<not> (\<exists>e \<in> set fired. entry_slot e = j \<and> live s e)) \<and>
    responses_in (trace s') = responses_in (trace s) @ map (\<lambda>e. message_in s (entry_slot e)) (filter (live s) fired) \<and>
    timeouts s' = timeouts s + of_nat (length (filter (live s) fired))"
proof -
  have l: "live (call Mach_absolute_time s) = live s" by (simp add: live_def unanswered_def fun_eq_iff)
  have m: "message_in (call Mach_absolute_time s) = message_in s" by (simp add: message_in_def fun_eq_iff)
  have w: "watch_mem_of (call Mach_absolute_time s) = watch_mem_of s" by (simp add: watch_mem_of_def)
  have "keeps s s'" using assms keeps_call keeps_trans unfolding fires_all_def by blast
  then show ?thesis using assms unfolding fires_all_def l m w by (simp add: unanswered_def)
qed

lemma watchdog_round_effect:
  assumes "clock_forward h" and "client_ok s"
  shows "\<exists>fired s'. watchdog_round h s = Some s' \<and> client_ok s' \<and> pending_requests (watchdog s') = [] \<and>
    distinct fired \<and> sorted (map entry_fire_at fired) \<and>
    set fired = {e \<in> merged s. entry_fire_at e \<le> read_at h s'} \<and>
    entries (watch_mem_of s') = {e \<in> merged s. read_at h s' < entry_fire_at e} \<and>
    responses_in (trace s') = responses_in (trace s) @
      map (\<lambda>e. message_in s (entry_slot e)) (filter (live s) fired) \<and>
    {j. j < length (slots (queue s)) \<and> unanswered s' j} =
      {j. j < length (slots (queue s)) \<and> unanswered s j} - entry_slot ` {e \<in> set fired. live s e} \<and>
    timeouts s' = timeouts s + of_nat (length (filter (live s) fired))"
proof -
  obtain t where t: "take_requests s = Some t" "watch_ok t" "pending_requests (watchdog t) = []"
      "watch_frame t = watch_frame s" "entries (watch_mem_of t) = merged s"
    using take_requests_effect [OF client_ok_watch [OF assms(2)]] by blast
  note F = watch_frameD [OF t(4)]
  have ok: "heap_ok (watch_mem_of (call Mach_absolute_time t))"
    using t(2) by (simp add: watch_ok_def watch_mem_of_def)
  have now: "host_time h (trace t) = read_at h (call Mach_absolute_time t)" by (simp add: read_at_def)
  define s' where "s' = fire_due h (host_time h (trace t)) (call Mach_absolute_time t)"
  obtain fired where f: "fires_all h fired (call Mach_absolute_time t) s'"
    using fire_due_fires [OF assms(1) ok now] by (auto simp: s'_def)
  note E = fires_all_call [OF f]
  have run: "watchdog_round h s = Some s'" by (simp add: watchdog_round_def t(1) clock_def s'_def)
  have bound: "entry_slot e < length (slots (queue s))" if "e \<in> merged s" for e
    using entry_slot_bound [of t e] t(2,5) that F(1) by (simp add: watch_ok_def)
  have same: "live t e = live s e" "message_in t (entry_slot e) = message_in s (entry_slot e)"
    if "e \<in> set fired" for e
    using bound [of e] E that t(5) F(3-6) by (auto simp: live_def)
  have filt: "filter (live t) fired = filter (live s) fired" by (rule filter_cong) (simp_all add: same)
  have msgs: "map (\<lambda>e. message_in t (entry_slot e)) (filter (live s) fired) =
      map (\<lambda>e. message_in s (entry_slot e)) (filter (live s) fired)"
    by (rule map_cong) (simp_all add: same)
  have cap: "unat (wd_capacity (watchdog t)) = unat (capacity (queue t))"
    using t(2) F(1,2) client_ok_watch [OF assms(2)] assms(2) by (simp add: watch_ok_def client_ok_def)
  have "client_ok s'"
    using assms(2) t(2,3) E F(1,2,8,17,18) cap
    unfolding client_ok_def keeps_def watch_ok_def by (simp add: watch_mem_of_def word_unat_eq_iff)
  moreover have "set fired = {e \<in> merged s. entry_fire_at e \<le> read_at h s'}"
    "entries (watch_mem_of s') = {e \<in> merged s. read_at h s' < entry_fire_at e}"
    using E f t(5) by (auto simp: fires_all_def not_le dest: leD)
  moreover have "pending_requests (watchdog s') = []" using E t(3) by (simp add: keeps_def)
  moreover have "{j. j < length (slots (queue s)) \<and> unanswered s' j} =
      {j. j < length (slots (queue s)) \<and> unanswered s j} - entry_slot ` {e \<in> set fired. live s e}"
    using E F(1,5) same(1) by auto
  moreover have "responses_in (trace s') = responses_in (trace s) @
      map (\<lambda>e. message_in s (entry_slot e)) (filter (live s) fired)"
    using E by (simp add: filt msgs F(10))
  moreover have "timeouts s' = timeouts s + of_nat (length (filter (live s) fired))"
    using E by (simp add: filt F(11))
  ultimately show ?thesis using run E by blast
qed

text \<open>C11. One round of the watchdog returns, keeps every invariant and answers exactly what is due. It
  takes the armed requests into the heap, each replacing the entry of its slot, and takes off, in the
  order of their deadlines, exactly the entries that are due by its last clock reading; of these, each
  whose slot still holds its message unanswered gets one default response and counts as a timeout.\<close>

theorem watchdog_round_answers_due:
  assumes "clock_forward h" and "client_ok s"
  shows "\<exists>fired s'. watchdog_round h s = Some s' \<and> client_ok s' \<and> pending_requests (watchdog s') = [] \<and>
    distinct fired \<and> sorted (map entry_fire_at fired) \<and>
    set fired = {e \<in> merged s. entry_fire_at e \<le> read_at h s'} \<and>
    entries (watch_mem_of s') = {e \<in> merged s. read_at h s' < entry_fire_at e} \<and>
    responses_in (trace s') = responses_in (trace s) @
      map (\<lambda>e. message_in s (entry_slot e)) (filter (live s) fired) \<and>
    {j. j < length (slots (queue s)) \<and> unanswered s' j} =
      {j. j < length (slots (queue s)) \<and> unanswered s j} - entry_slot ` {e \<in> set fired. live s e} \<and>
    timeouts s' = timeouts s + of_nat (length (filter (live s) fired))"
  using watchdog_round_effect [OF assms] .

definition still_host :: es_host where
  "still_host = sample_host\<lparr>host_time := (\<lambda>t. 100)\<rparr>"

text \<open>A client with one AUTH message in the ring, armed in the request ring.\<close>

definition overdue_entry :: esrb_watchdog_entry where
  "overdue_entry = \<lparr>entry_slot = 0, entry_position = 0, entry_fire_at = 50\<rparr>"

definition armed_client :: esrb_client where
  "armed_client = sample_client\<lparr>queue := loaded_queue, watchdog := sample_watchdog
     \<lparr>wd_enqueue_position := 1,
      requests := [to_request overdue_entry\<lparr>req_sequence := 1\<rparr>, zero_request\<lparr>req_sequence := 1\<rparr>]\<rparr>\<rparr>"

lemma still_host_forward: "clock_forward still_host"
  by (simp add: still_host_def clock_forward_def)

lemma armed_client_ring: "request_ring 1 1 0 (watchdog armed_client)"
proof -
  have "0 \<le> p \<and> p < 0 + 2 ^ 1 \<longleftrightarrow> p = 0 \<or> p = 1" for p :: nat by auto
  then show ?thesis
    unfolding request_ring_def
    by (auto simp: armed_client_def sample_watchdog_def to_request_def zero_request_def request_at_def)
qed

lemma armed_client_pending: "pending_requests (watchdog armed_client) = [overdue_entry]"
  unfolding pending_requests_ring [OF armed_client_ring]
  by (simp add: request_at_def armed_client_def request_entry_def to_request_def overdue_entry_def)

lemma armed_client_ok: "client_ok armed_client"
proof -
  have "valid_requests (watchdog armed_client)" using armed_client_ring by (rule valid_requestsI)
  moreover have "quiet_queue (queue armed_client)" using loaded_queue_quiet by (simp add: armed_client_def)
  moreover have "heap_ok (watchdog armed_client, queue armed_client)"
    by (simp add: heap_ok_def heap_index_def heap_order_def armed_client_def sample_watchdog_def)
  moreover have "length (slots (queue armed_client)) = 2" by (simp add: armed_client_def loaded_queue_def)
  moreover have "length (last_event_seq armed_client) = ES_EVENT_TYPE_LAST"
    "length (seen_event_seq armed_client) = ES_EVENT_TYPE_LAST"
    "wd_capacity (watchdog armed_client) = capacity (queue armed_client)"
    by (simp_all add: armed_client_def sample_client_def sample_watchdog_def loaded_queue_def sample_queue_def)
  ultimately show ?thesis
    unfolding client_ok_def armed_client_pending by (simp add: overdue_entry_def)
qed

theorem watchdog_round_answers_due_witness:
  "\<exists>s'. watchdog_round still_host armed_client = Some s' \<and> responses_in (trace s') = [sample_message] \<and>
     timeouts s' = 1 \<and> entries (watch_mem_of s') = {}"
proof -
  have "entries (watch_mem_of armed_client) = {}"
    by (simp add: entries_def watch_mem_of_def armed_client_def sample_watchdog_def)
  then have merged: "merged armed_client = {overdue_entry}"
    by (simp add: merged_def armed_client_pending merge_def)
  have due: "entry_fire_at overdue_entry \<le> read_at still_host s'" for s'
    by (simp add: read_at_def still_host_def overdue_entry_def)
  obtain fired s' where f: "watchdog_round still_host armed_client = Some s'" "distinct fired"
      "set fired = {e \<in> merged armed_client. entry_fire_at e \<le> read_at still_host s'}"
      "entries (watch_mem_of s') = {e \<in> merged armed_client. read_at still_host s' < entry_fire_at e}"
      "responses_in (trace s') = responses_in (trace armed_client) @
        map (\<lambda>e. message_in armed_client (entry_slot e)) (filter (live armed_client) fired)"
      "timeouts s' = timeouts armed_client + of_nat (length (filter (live armed_client) fired))"
    using watchdog_round_answers_due [OF still_host_forward armed_client_ok] by blast
  have "set fired = {overdue_entry}" using f(3) due by (auto simp: merged)
  then have "fired = [overdue_entry]"
    using f(2) by (cases fired; cases "tl fired") (auto simp: insert_eq_iff)
  moreover have "live armed_client overdue_entry" "message_in armed_client 0 = sample_message"
    "trace armed_client = []" "timeouts armed_client = 0"
    by (simp_all add: live_def unanswered_def message_in_def armed_client_def loaded_queue_def slot_at_def
      overdue_entry_def sample_client_def)
  moreover have "entries (watch_mem_of s') = {}"
    using f(4) due by (auto simp: merged dest: leD)
  ultimately show ?thesis using f(1,5,6) by (auto simp: overdue_entry_def)
qed

section \<open>The thread\<close>

text \<open>C23. The thread stops: if what the other threads do during its waits keeps the invariants, then as
  soon as a wait ends with the running flag cleared, it returns, with the invariants in place.\<close>

theorem watchdog_thread_stops:
  assumes "clock_forward h" and "client_ok s"
    and "\<forall>wait \<in> set (waits @ [stop]). \<forall>s. client_ok s \<longrightarrow> client_ok (wait s)"
    and "\<forall>s. \<not> watchdog_running (stop s)"
  shows "\<exists>s'. esrb_watchdog_main h (waits @ [stop]) s = Some s' \<and> client_ok s' \<and> \<not> watchdog_running s'"
  using assms(2,3)
proof (induction waits arbitrary: s)
  case Nil
  show ?case
  proof (cases "watchdog_running s")
    case True
    obtain t where "watchdog_round h s = Some t" "client_ok t"
      using watchdog_round_effect [OF assms(1) Nil(1)] by blast
    then show ?thesis
      using True Nil(2) assms(4) by (subst esrb_watchdog_main.simps) (simp add: esrb_watchdog_main.simps)
  next
    case False
    then show ?thesis using Nil(1) by (subst esrb_watchdog_main.simps) simp
  qed
next
  case (Cons wait waits)
  show ?case
  proof (cases "watchdog_running s")
    case True
    obtain t where "watchdog_round h s = Some t" "client_ok t"
      using watchdog_round_effect [OF assms(1) Cons.prems(1)] by blast
    then show ?thesis
      using True Cons.IH [of "wait t"] Cons.prems(2) by (subst esrb_watchdog_main.simps) simp
  next
    case False
    then show ?thesis using Cons.prems(1) by (subst esrb_watchdog_main.simps) simp
  qed
qed

lemma client_ok_running [simp]: "client_ok (s\<lparr>watchdog_running := b\<rparr>) = client_ok s"
  by (simp add: client_ok_def)

theorem watchdog_thread_stops_witness:
  "\<exists>s'. esrb_watchdog_main still_host ([\<lambda>s. s] @ [\<lambda>s. s\<lparr>watchdog_running := False\<rparr>]) armed_client = Some s' \<and>
     \<not> watchdog_running s'"
  using watchdog_thread_stops [OF still_host_forward armed_client_ok, of "[\<lambda>s. s]"
      "\<lambda>s. s\<lparr>watchdog_running := False\<rparr>"] by auto

text \<open>The wake-up time is a normalised \<open>timespec\<close> exactly one millisecond on.\<close>

lemma next_wake_one_millisecond:
  assumes "0 \<le> tv_nsec" and "tv_nsec < 1000000000"
  shows "0 \<le> snd (next_wake (tv_sec, tv_nsec)) \<and> snd (next_wake (tv_sec, tv_nsec)) < 1000000000 \<and>
    fst (next_wake (tv_sec, tv_nsec)) * 1000000000 + snd (next_wake (tv_sec, tv_nsec)) =
      tv_sec * 1000000000 + tv_nsec + 1000000"
  using assms by (simp add: next_wake_def Let_def)

lemma next_wake_one_millisecond_example:
  "next_wake (7, 999500000) = (8, 500000) \<and> snd (next_wake (7, 999500000)) < 1000000000"
  using next_wake_one_millisecond [of 999500000 7] by (simp add: next_wake_def)

end
