(* ===== verification/Control_Laws.thy ===== *)
theory Control_Laws
  imports Client_Control Watchdog_Thread
begin

text \<open>
  What the Ruby methods of a client guarantee: a drain hands out the oldest messages and never loses
  a wake-up, refused calls change nothing, subscriptions reach the framework as given, a response from
  Ruby wins the slot at most once.
\<close>

section \<open>Draining\<close>

text \<open>\<open>deliver\<close> as a consumer of the ring: what it changes besides the ring is the counter.\<close>

definition drain_frame :: "esrb_client \<Rightarrow> esrb_client" where
  "drain_frame s = s\<lparr>queue := (queue s)\<lparr>dequeue_position := 0\<rparr>\<rparr>"

interpretation handout: source_consumer client_dequeue "\<lambda>s. quiet_queue (queue s)"
  "\<lambda>s. pending_slots (queue s)" deliver drain_frame "\<lambda>_ f. f\<lparr>delivered := delivered f + 1\<rparr>" esrb_message_wrap
  unfolding source_consumer_def source_consumer_axioms_def
proof (intro conjI allI impI client_dequeue_source)
  fix s :: esrb_client and x xs s'
  assume q: "quiet_queue (queue s)" and cons: "pending_slots (queue s) = x # xs"
    and get: "client_dequeue s = Some (Some x, s')"
  obtain k e d R where r: "ring k e d {} {} R (queue s)" using q by (auto simp: quiet_queue_def valid_queue_def)
  have "d < e" using cons by (cases "d < e") (simp_all add: pending_slots_ring [OF r])
  then have "s' = s\<lparr>queue := (queue s)\<lparr>dequeue_position := of_nat d + 1\<rparr>\<rparr>"
    using get dequeue_takes [OF r] by (auto simp: client_dequeue_def)
  then show "\<exists>s''. deliver x s' = Some (esrb_message_wrap x, s'') \<and> quiet_queue (queue s'') \<and>
      pending_slots (queue s'') = pending_slots (queue s') \<and>
      drain_frame s'' = (drain_frame s)\<lparr>delivered := delivered (drain_frame s) + 1\<rparr>"
    using source.get_Some_iff(3) [OF client_dequeue_source q get] by (simp add: deliver_def drain_frame_def)
next
  fix s s' :: esrb_client
  assume "quiet_queue (queue s)" "pending_slots (queue s) = []" "client_dequeue s = Some (None, s')"
  then show "drain_frame s' = drain_frame s" using source.get_empty [OF client_dequeue_source] by simp
qed

lemma depth_positive:
  assumes "valid_queue q"
  shows "esrb_queue_depth q > 0 \<longleftrightarrow> pending_slots q \<noteq> []"
proof -
  obtain k e d R where r: "ring k e d {} {} R q" using assms by (auto simp: valid_queue_def)
  show ?thesis
    using depth_ring [OF r] ringD(8) [OF r] unat_eq_zero [of "esrb_queue_depth q"]
    by (auto simp: pending_slots_ring [OF r] word_gt_0)
qed

text \<open>The invariant survives what changes only the consumer's end and the bookkeeping.\<close>

lemma heap_ok_slots: "slots q' = slots q \<Longrightarrow> heap_ok (w, q') \<longleftrightarrow> heap_ok (w, q)"
  by (simp add: heap_ok_def heap_index_def index_at_def slot_at_def heap_at_def)

lemma client_ok_drain_frame:
  assumes "drain_frame s' = (drain_frame s)\<lparr>delivered := n, pipe_bytes := b, notified := f\<rparr>"
    and "quiet_queue (queue s')" and "client_ok s"
  shows "client_ok s'"
proof -
  have w: "watchdog s' = watchdog s" "last_event_seq s' = last_event_seq s" "seen_event_seq s' = seen_event_seq s"
    using arg_cong [OF assms(1), of watchdog] arg_cong [OF assms(1), of last_event_seq]
      arg_cong [OF assms(1), of seen_event_seq] by (simp_all add: drain_frame_def)
  have q: "(queue s')\<lparr>dequeue_position := 0\<rparr> = (queue s)\<lparr>dequeue_position := 0\<rparr>"
    using arg_cong [OF assms(1), of queue] by (simp add: drain_frame_def)
  have "slots (queue s') = slots (queue s)" "capacity (queue s') = capacity (queue s)"
    using arg_cong [OF q, of slots] arg_cong [OF q, of capacity] by simp_all
  then show ?thesis
    using assms(2,3) heap_ok_slots [of "queue s'" "queue s" "watchdog s"] by (simp add: client_ok_def w)
qed

lemma finish_drain_fields [simp]:
  "queue (finish_drain h s) = queue s" "delivered (finish_drain h s) = delivered s"
  "trace (finish_drain h s) = trace s" "closed (finish_drain h s) = closed s"
  "drain_frame (finish_drain h s) = (drain_frame s)\<lparr>notified := notified (finish_drain h s),
     pipe_bytes := pipe_bytes (finish_drain h s)\<rparr>"
  by (simp_all add: finish_drain_def esrb_notify_def Let_def drain_frame_def)

text \<open>C15. A drain of an open client for a valid maximum returns the wrappers of the oldest messages, as
  many as asked for and there are, in order; the rest stay. It keeps every invariant, counts what it
  delivered, and loses no wake-up: messages are left exactly when the flag is set, and then a byte is
  in the pipe.\<close>

theorem drain_takes_oldest:
  assumes "client_ok s" and "\<not> closed s" "owner_pid s = getpid world"
    and "maximum_value = Qnil \<and> maximum = 256 \<or>
      maximum_value = RInt maximum \<and> 0 \<le> maximum \<and> maximum \<le> (2 ^ 63 - 1) div 8"
    and "0 \<le> snd (wakeup_fd s)" "0 < pipe_capacity h"
  shows "\<exists>s'. client_drain h world maximum_value s =
      Some (Inr (map esrb_message_wrap (take (nat maximum) (pending_slots (queue s)))), s') \<and>
    client_ok s' \<and> \<not> closed s' \<and> pending_slots (queue s') = drop (nat maximum) (pending_slots (queue s)) \<and>
    delivered s' = delivered s + of_nat (length (take (nat maximum) (pending_slots (queue s)))) \<and>
    trace s' = trace s \<and> (notified s' \<longleftrightarrow> pending_slots (queue s') \<noteq> []) \<and> wake_ok s'"
proof -
  let ?n = "nat maximum" and ?p = "pending_slots (queue s)"
  have q: "quiet_queue (queue (empty_pipe s))" using assms(1) by (simp add: empty_pipe_def client_ok_def)
  obtain t where t: "for_get client_dequeue deliver ?n (empty_pipe s) = Some (map esrb_message_wrap (take ?n ?p), t)"
      "quiet_queue (queue t)" "pending_slots (queue t) = drop ?n ?p"
      "drain_frame t = fold (\<lambda>_ f. f\<lparr>delivered := delivered f + 1\<rparr>) (take ?n ?p) (drain_frame (empty_pipe s))"
    using handout.for_get_takes [OF q, of ?n] by (auto simp: empty_pipe_def)
  have "fold (\<lambda>_ f. f\<lparr>delivered := delivered f + 1\<rparr>) xs f = f\<lparr>delivered := delivered f + of_nat (length xs)\<rparr>"
    for xs :: "nat list" and f :: esrb_client
    by (induction xs arbitrary: f) (simp_all add: algebra_simps)
  then have f: "drain_frame t = (drain_frame s)\<lparr>delivered := delivered s + of_nat (length (take ?n ?p)), pipe_bytes := 0\<rparr>"
    unfolding t(4) by (simp add: drain_frame_def empty_pipe_def)
  have fields: "delivered t = delivered s + of_nat (length (take ?n ?p))" "trace t = trace s"
    "closed t = closed s" "wakeup_fd t = wakeup_fd s"
    using arg_cong [OF f, of delivered] arg_cong [OF f, of trace] arg_cong [OF f, of closed]
      arg_cong [OF f, of wakeup_fd] by (simp_all add: drain_frame_def)
  have pipe: "pipe_bytes t = 0" using arg_cong [OF f, of pipe_bytes] by (simp add: drain_frame_def)
  have long: "(if maximum_value = Qnil then Inr 256 else num2long maximum_value) = Inr maximum"
    "ary_new_capa maximum = Inr ()"
    using assms(4) by (auto simp: num2long_def in_range_def ary_new_capa_def)
  have "get_open_client world s = Inr ()"
    using assms(2,3) by (simp add: get_open_client_def get_client_def)
  then have run: "client_drain h world maximum_value s =
      Some (Inr (map esrb_message_wrap (take ?n ?p)), finish_drain h t)"
    by (simp add: client_drain_def long t(1) Let_def)
  have "drain_frame (finish_drain h t) = (drain_frame s)\<lparr>delivered := delivered s + of_nat (length (take ?n ?p)),
      pipe_bytes := pipe_bytes (finish_drain h t), notified := notified (finish_drain h t)\<rparr>"
    by (simp add: f)
  then have "client_ok (finish_drain h t)"
    using client_ok_drain_frame [OF _ _ assms(1)] t(2) by simp
  moreover have "notified (finish_drain h t) \<longleftrightarrow> pending_slots (queue t) \<noteq> []" "wake_ok (finish_drain h t)"
    using depth_positive [of "queue t"] t(2) assms(5,6) fields(4) pipe
    by (auto simp: finish_drain_def Let_def quiet_queue_def wake_ok_def esrb_notify_def)
  ultimately show ?thesis using run t(3) fields assms(2) by (intro exI [of _ "finish_drain h t"]) simp
qed

theorem drain_takes_oldest_witness:
  "\<exists>s'. client_drain sample_host \<lparr>getpid = 42, event_symbol = (\<lambda>n. Inr (RInt n)), event_cacheable = (\<lambda>v. True)\<rparr>
     (RInt 0) armed_client = Some (Inr [], s') \<and> pending_slots (queue s') = [0] \<and> notified s'"
proof -
  let ?w = "\<lparr>getpid = 42, event_symbol = (\<lambda>n. Inr (RInt n)), event_cacheable = (\<lambda>v. True)\<rparr>"
  have "\<not> closed armed_client" "owner_pid armed_client = getpid ?w" "0 \<le> snd (wakeup_fd armed_client)"
    "0 < pipe_capacity sample_host" "queue armed_client = loaded_queue"
    by (simp_all add: armed_client_def sample_client_def sample_host_def)
  then show ?thesis
    using drain_takes_oldest [OF armed_client_ok, of ?w "RInt 0" 0 sample_host] loaded_queue_quiet(2)
    by auto
qed

text \<open>C34. A drain with a negative maximum raises only after it has emptied the pipe: whatever was
  signalled stays in the ring with the flag set and no byte in the pipe, so no later notification
  writes one until the next drain.\<close>

theorem negative_drain_loses_wakeup:
  assumes "\<not> closed s" "owner_pid s = getpid world" and "- (2 ^ 63) \<le> maximum" "maximum < 0"
  shows "\<exists>s'. client_drain h world (RInt maximum) s =
      Some (Inl (Raise ''ArgumentError'' ''negative array size (or size too big)''), s') \<and>
    queue s' = queue s \<and> notified s' = notified s \<and> pipe_bytes s' = 0 \<and>
    (notified s = (esrb_notify h s' = s' \<and> \<not> wake_ok s'))"
proof -
  have "num2long (RInt maximum) = Inr maximum" "ary_new_capa maximum =
      Inl (Raise ''ArgumentError'' ''negative array size (or size too big)'')"
    using assms(3,4) by (simp_all add: num2long_def in_range_def ary_new_capa_def)
  then have "client_drain h world (RInt maximum) s =
      Some (Inl (Raise ''ArgumentError'' ''negative array size (or size too big)''), empty_pipe s)"
    using assms(1,2) by (simp add: client_drain_def get_open_client_def get_client_def Let_def)
  then show ?thesis
    by (intro exI [of _ "empty_pipe s"]) (auto simp: empty_pipe_def esrb_notify_def wake_ok_def)
qed

theorem negative_drain_loses_wakeup_witness:
  "\<exists>s'. client_drain sample_host \<lparr>getpid = 42, event_symbol = (\<lambda>n. Inr (RInt n)), event_cacheable = (\<lambda>v. True)\<rparr>
     (RInt (- 1)) (armed_client\<lparr>notified := True, pipe_bytes := 1\<rparr>) =
       Some (Inl (Raise ''ArgumentError'' ''negative array size (or size too big)''), s') \<and>
     notified s' \<and> pipe_bytes s' = 0 \<and> queue s' = loaded_queue"
proof -
  let ?w = "\<lparr>getpid = 42, event_symbol = (\<lambda>n. Inr (RInt n)), event_cacheable = (\<lambda>v. True)\<rparr>"
  let ?s = "armed_client\<lparr>notified := True, pipe_bytes := 1\<rparr>"
  have "\<not> closed ?s" "owner_pid ?s = getpid ?w" "queue ?s = loaded_queue" "notified ?s"
    by (simp_all add: armed_client_def sample_client_def)
  then show ?thesis using negative_drain_loses_wakeup [of ?s ?w "- 1" sample_host] by auto
qed

section \<open>Refusals\<close>

text \<open>After a fork every method refuses, and after closing every method that needs the framework:
  each raises its one error, makes no call and leaves the client as it was.\<close>

lemma refused_calls_change_nothing:
  assumes "owner_pid s \<noteq> getpid world \<or> closed s"
  defines "e \<equiv> (if owner_pid s \<noteq> getpid world
    then Raise ''ForkedClientError'' ''Endpoint Security clients cannot be used after fork''
    else Raise ''ClientError'' ''client is closed'')"
  shows "client_drain h world Qnil s = Some (Inl e, s) \<and> client_wakeup_fd world s = (Inl e, s) \<and>
    client_subscribe h world v s = (Inl e, s) \<and> client_unsubscribe h world v s = (Inl e, s) \<and>
    client_subscriptions h world s = (Inl e, s) \<and>
    (owner_pid s \<noteq> getpid world \<longrightarrow> client_close h world s = Some (Inl e, s) \<and>
      client_wake h world s = (Inl e, s) \<and> client_stats world s = (Inl e, s) \<and> client_closed_p world s = (Inl e, s))"
proof -
  have o: "get_open_client world s = Inl e"
    using assms(1) by (auto simp: get_open_client_def get_client_def e_def)
  have c: "get_client world s = Inl e" if "owner_pid s \<noteq> getpid world"
    using that by (simp add: get_client_def e_def)
  show ?thesis
    by (simp add: client_drain_def client_wakeup_fd_def client_subscribe_def client_unsubscribe_def
      client_subscriptions_def client_close_def client_wake_def client_stats_def client_closed_p_def
      or_raise_def o c)
qed

definition sample_world :: ruby_world where
  "sample_world = \<lparr>getpid = 42, event_symbol = (\<lambda>n. Inr (RInt n)), event_cacheable = (\<lambda>v. v = RInt 0)\<rparr>"

lemma refused_calls_change_nothing_example:
  "client_subscribe sample_host (sample_world\<lparr>getpid := 43\<rparr>) (RArr [RInt 0]) sample_client =
    (Inl (Raise ''ForkedClientError'' ''Endpoint Security clients cannot be used after fork''), sample_client)"
proof -
  have f: "owner_pid sample_client \<noteq> getpid (sample_world\<lparr>getpid := 43\<rparr>)"
    by (simp add: sample_world_def sample_client_def)
  then show ?thesis
    using refused_calls_change_nothing [of sample_client "sample_world\<lparr>getpid := 43\<rparr>"] by simp
qed

section \<open>Subscriptions\<close>

text \<open>Subscribing makes exactly one framework call, with exactly the events given, in order, whatever
  their number up to the limit of the framework; true is returned if and only if the call succeeds.\<close>

lemma subscribe_passes_events:
  assumes "\<not> closed s" "owner_pid s = getpid world" and "events \<noteq> []" "int (length events) \<le> 2 ^ 32 - 1"
    and "\<forall>n \<in> set events. - (2 ^ 31) \<le> n \<and> n < 2 ^ 31"
  shows "snd (client_subscribe h world (RArr (map RInt events)) s) = call (Es_subscribe (native s) events) s \<and>
    (fst (client_subscribe h world (RArr (map RInt events)) s) = Inr Qtrue \<longleftrightarrow>
      host_result h (trace s) (Es_subscribe (native s) events) = ES_RETURN_SUCCESS)"
proof -
  have "map_ruby num2int (map RInt events) = Inr (map (\<lambda>v. case v of RInt n \<Rightarrow> n) (map RInt events))"
    using assms(5) by (intro map_ruby_total) (auto simp: num2int_def in_range_def)
  also have "map (\<lambda>v. case v of RInt n \<Rightarrow> n) (map RInt events) = events" by (simp add: comp_def)
  finally have "event_types (map RInt events) = Inr events" by (simp add: event_types_def)
  moreover have "get_open_client world s = Inr ()" using assms(1,2) by (simp add: get_open_client_def get_client_def)
  ultimately show ?thesis using assms(3,4) by (simp add: client_subscribe_def or_raise_def Let_def)
qed

lemma subscribe_passes_events_example:
  "trace (snd (client_subscribe sample_host sample_world (RArr [RInt 0, RInt 9]) sample_client)) =
    [Es_subscribe (Some 7) [0, 9]]"
  using subscribe_passes_events [of sample_client sample_world "[0, 9]" sample_host]
  by (simp add: sample_client_def sample_world_def)

section \<open>Answering from Ruby\<close>

lemma cas_answer_pending:
  "unanswered s i \<Longrightarrow> cas_answer i (queue s) =
    (True, set_slot i (\<lambda>x. x\<lparr>answer_state := ESRB_ANSWER_ANSWERED\<rparr>) (queue s))"
  "\<not> unanswered s i \<Longrightarrow> cas_answer i (queue s) = (False, queue s)"
  by (simp_all add: cas_answer_def unanswered_def)

lemma respond_slot_result:
  assumes "\<not> closed s" and "i < length (slots (queue s))" "unanswered s i"
  shows "\<exists>code c s'. esrb_respond_slot h i r f b s = (code = ES_RESPOND_RESULT_SUCCESS, Some code, s') \<and>
    response_to c = Some (message_in s i) \<and> trace s' = trace s @ [c] \<and> \<not> closed s' \<and>
    (\<forall>j. unanswered s' j \<longleftrightarrow> unanswered s j \<and> j \<noteq> i) \<and>
    queue s' = set_slot i (\<lambda>x. x\<lparr>answer_state := ESRB_ANSWER_ANSWERED\<rparr>) (queue s) \<and>
    s' = s\<lparr>queue := queue s', trace := trace s', response_errors := response_errors s'\<rparr>"
proof -
  let ?q = "set_slot i (\<lambda>x. x\<lparr>answer_state := ESRB_ANSWER_ANSWERED\<rparr>) (queue s)"
  let ?s = "s\<lparr>queue := ?q\<rparr>"
  have m: "message_in ?s i = message_in s i" using assms(2) by (simp add: message_in_def)
  let ?r = "esrb_send_response h (slot_client (slot_at ?q i)) (message_in s i) r f b ?s"
  obtain c where c: "response_to c = Some (message_in s i)" "snd ?r = ?s\<lparr>trace := trace ?s @ [c],
      response_errors := response_errors ?s + (if fst ?r = ES_RESPOND_RESULT_SUCCESS then 0 else 1)\<rparr>"
    using send_response_effect by blast
  have "esrb_respond_slot h i r f b s = (fst ?r = ES_RESPOND_RESULT_SUCCESS, Some (fst ?r), snd ?r)"
    using assms(1) by (simp add: esrb_respond_slot_def cas_answer_pending(1) [OF assms(3)] m split_beta Let_def)
  moreover define s' where "s' = snd ?r"
  have "\<exists>d. s' = ?s\<lparr>trace := trace ?s @ [c], response_errors := d\<rparr>"
    unfolding s'_def using c(2) by (rule exI)
  then obtain d where s': "s' = s\<lparr>queue := ?q, trace := trace s @ [c], response_errors := d\<rparr>" by auto
  have q: "queue s' = ?q" "trace s' = trace s @ [c]" "closed s' = closed s" by (simp_all add: s')
  moreover have "unanswered s' j \<longleftrightarrow> unanswered s j \<and> j \<noteq> i" for j
    using assms(2) by (simp add: unanswered_def q(1))
  moreover have "s' = s\<lparr>queue := queue s', trace := trace s', response_errors := response_errors s'\<rparr>"
    by (simp add: s')
  ultimately show ?thesis using c(1) assms(1)
    by (intro exI [of _ "fst ?r"] exI [of _ c] exI [of _ s']) (simp add: s'_def [symmetric])
qed

text \<open>C16. A slot is answered once from Ruby: on an open client the first answer to an unanswered slot
  makes one response, for the slot's message, and reports its success; after it neither another answer
  from Ruby nor the default one does anything, even if the response failed.\<close>

theorem ruby_answers_slot_once:
  assumes "\<not> closed s" and "i < length (slots (queue s))" "unanswered s i"
  shows "\<exists>code s'. esrb_respond_slot h i r f b s = (code = ES_RESPOND_RESULT_SUCCESS, Some code, s') \<and>
    responses_in (trace s') = responses_in (trace s) @ [message_in s i] \<and>
    esrb_respond_slot h i r' f' b' s' = (False, None, s') \<and> client_answer_slot h i s' = s'"
proof -
  obtain code c s' where r: "esrb_respond_slot h i r f b s = (code = ES_RESPOND_RESULT_SUCCESS, Some code, s')"
      "response_to c = Some (message_in s i)" "trace s' = trace s @ [c]" "\<not> closed s'"
      "\<forall>j. unanswered s' j \<longleftrightarrow> unanswered s j \<and> j \<noteq> i"
    using respond_slot_result [OF assms, of h r f b] by blast
  then have "cas_answer i (queue s') = (False, queue s')" by (intro cas_answer_pending(2)) simp
  then have "esrb_respond_slot h i r' f' b' s' = (False, None, s')" "client_answer_slot h i s' = s'"
    using r(4) by (simp_all add: esrb_respond_slot_def client_answer_slot_def)
  then show ?thesis using r by auto
qed

theorem ruby_answers_slot_once_witness:
  "\<exists>s'. esrb_respond_slot sample_host 0 ES_AUTH_RESULT_DENY 0 False armed_client = (True, Some 0, s') \<and>
     responses_in (trace s') = [sample_message] \<and> client_answer_slot sample_host 0 s' = s'"
proof -
  have s: "\<not> closed armed_client" "0 < length (slots (queue armed_client))" "unanswered armed_client 0"
    "message_in armed_client 0 = sample_message" "trace armed_client = []"
    by (simp_all add: armed_client_def sample_client_def loaded_queue_def unanswered_def message_in_def slot_at_def)
  have "fst (snd (esrb_respond_slot sample_host 0 ES_AUTH_RESULT_DENY 0 False armed_client)) = Some 0"
    using s(1) cas_answer_pending(1) [OF s(3)]
    by (simp add: esrb_respond_slot_def split_beta esrb_send_response_def Let_def sample_host_def)
  moreover obtain code s' where "esrb_respond_slot sample_host 0 ES_AUTH_RESULT_DENY 0 False armed_client =
      (code = ES_RESPOND_RESULT_SUCCESS, Some code, s')" "responses_in (trace s') = [sample_message]"
      "client_answer_slot sample_host 0 s' = s'"
    using ruby_answers_slot_once [OF s(1-3), where h = sample_host and r = ES_AUTH_RESULT_DENY and f = 0 and
      b = False and r' = ES_AUTH_RESULT_ALLOW and f' = 0 and b' = True] s(4,5) by auto
  ultimately show ?thesis by simp
qed

section \<open>The callback keeps the invariants\<close>

text \<open>Changes to the ring that leave the watchdog's side of the slots alone.\<close>

definition calm :: "esrb_queue \<Rightarrow> esrb_queue \<Rightarrow> bool" where
  "calm q q' \<longleftrightarrow> length (slots q') = length (slots q) \<and> capacity q' = capacity q \<and>
     (\<forall>j < length (slots q). readers (slot_at q' j) = readers (slot_at q j) \<and>
        watchdog_index (slot_at q' j) = watchdog_index (slot_at q j) \<and>
        (occupied (slot_at q j) \<longrightarrow> occupied (slot_at q' j)))"

lemma calm_refl [simp]: "calm q q"
  by (simp add: calm_def)

lemma calm_trans:
  assumes "calm q q1" and "calm q1 q2"
  shows "calm q q2"
  using assms by (simp add: calm_def)

lemma calm_heap_ok:
  assumes "calm q q'" and "heap_ok (w, q)"
  shows "heap_ok (w, q')"
  using assms by (auto simp: calm_def heap_ok_def heap_index_def index_at_def heap_at_def)

lemma calm_set_slot:
  assumes "i < length (slots q)"
    and "readers (f (slot_at q i)) = readers (slot_at q i)"
    and "watchdog_index (f (slot_at q i)) = watchdog_index (slot_at q i)"
    and "occupied (slot_at q i) \<longrightarrow> occupied (f (slot_at q i))"
  shows "calm q (set_slot i f q)"
  using assms by (auto simp: calm_def)

lemma calm_client_answer_slot:
  assumes "i < length (slots (queue s))"
  shows "calm (queue s) (queue (client_answer_slot h i s))"
proof -
  obtain p t n where "client_answer_slot h i s = s\<lparr>queue := answer_with p (queue s), trace := t, response_errors := n\<rparr>"
    using client_answer_slot_answers [OF assms, of h] by (auto simp: answers_only_def)
  then show ?thesis by (simp add: calm_def)
qed

lemma record_gaps_lengths [simp]:
  "length (last_event_seq (record_sequence_gaps m s)) = length (last_event_seq s)"
  "length (seen_event_seq (record_sequence_gaps m s)) = length (seen_event_seq s)"
  by (simp_all add: record_sequence_gaps_def Let_def)

text \<open>What the callback's stages leave of the invariant, apart from the ring itself.\<close>

definition callback_ok :: "nat set \<Rightarrow> esrb_client \<Rightarrow> bool" where
  "callback_ok I s \<longleftrightarrow> valid_requests (watchdog s) \<and> heap_ok (watchdog s, queue s) \<and>
     wd_capacity (watchdog s) = capacity (queue s) \<and>
     (\<forall>j < length (slots (queue s)). readers (slot_at (queue s) j) = 0) \<and>
     (\<forall>j \<in> I. j < length (slots (queue s)) \<and> occupied (slot_at (queue s) j)) \<and>
     (\<forall>e \<in> set (pending_requests (watchdog s)). entry_slot e < length (slots (queue s))) \<and>
     length (last_event_seq s) = ES_EVENT_TYPE_LAST \<and> length (seen_event_seq s) = ES_EVENT_TYPE_LAST"

lemma callback_ok_calm:
  assumes "callback_ok I s" and "calm (queue s) (queue s')" "watchdog s' = watchdog s"
    and "length (last_event_seq s') = length (last_event_seq s)"
    and "length (seen_event_seq s') = length (seen_event_seq s)"
  shows "callback_ok I s'"
proof -
  have "heap_ok (watchdog s', queue s')"
    using assms(1,3) calm_heap_ok [OF assms(2)] by (simp add: callback_ok_def)
  then show ?thesis using assms by (auto simp: callback_ok_def calm_def)
qed

lemma client_ok_callback:
  "client_ok s \<longleftrightarrow> valid_queue (queue s) \<and> callback_ok (set (pending_slots (queue s))) s"
  using pending_slots_index [of "queue s"] by (auto simp: client_ok_def callback_ok_def quiet_queue_def)

lemma client_answer_slot_seq [simp]:
  "last_event_seq (client_answer_slot h i s) = last_event_seq s"
  "seen_event_seq (client_answer_slot h i s) = seen_event_seq s"
  by (simp_all add: client_answer_slot_def send_default_def esrb_send_response_def call_def Let_def
      cas_answer_def)

lemma fill_message_ok:
  assumes "callback_ok I s" and i: "i < length (slots (queue s))"
  shows "callback_ok (insert i I) (fill_message h n m i s)"
proof -
  define f where "f = (if is_auth m then fst (deadline_fire_time h (msg_deadline m) s) else UINT64_MAX)"
  have q: "queue (fill_message h n m i s) = set_slot i (\<lambda>x. x\<lparr>occupied := True\<rparr>)
      (set_slot i (fill_slot m n f) (queue s))"
    and w: "watchdog (fill_message h n m i s) = watchdog s"
    and e: "last_event_seq (fill_message h n m i s) = last_event_seq s"
      "seen_event_seq (fill_message h n m i s) = seen_event_seq s"
    by (cases "deadline_fire_time h (msg_deadline m) s";
        use deadline_fire_time_cases [of h "msg_deadline m" s] in
          \<open>auto simp: fill_message_def f_def call_def Let_def\<close>)+
  have c: "calm (queue s) (queue (fill_message h n m i s))"
    unfolding q by (rule calm_trans [OF calm_set_slot calm_set_slot]) (use i in simp_all)
  have "callback_ok I (fill_message h n m i s)"
    by (rule callback_ok_calm [OF assms(1) c w]) (simp_all add: e)
  moreover have "occupied (slot_at (queue (fill_message h n m i s)) i)"
    "i < length (slots (queue (fill_message h n m i s)))" unfolding q using i by simp_all
  ultimately show ?thesis by (simp add: callback_ok_def)
qed

lemma arm_message_ok:
  assumes ok: "callback_ok I s" and i: "i < length (slots (queue s))"
  shows "\<exists>s'. arm_message h m i s = Some s' \<and> callback_ok I s'"
proof (cases "is_auth m")
  case False
  then show ?thesis using ok by (simp add: arm_message_def)
next
  case auth: True
  obtain k e d where w: "request_ring k e d (watchdog s)"
    using ok by (auto simp: callback_ok_def valid_requests_def)
  show ?thesis
  proof (cases "e < d + 2 ^ k")
    case True
    obtain w' where w': "esrb_watchdog_arm (watchdog s) i (slot_at (queue s) i) = Some (True, w')"
        "request_ring k (Suc e) d w'" "pending_requests w' = pending_requests (watchdog s) @
          [\<lparr>entry_slot = i, entry_position = slot_position (slot_at (queue s) i),
            entry_fire_at = slot_fire_at (slot_at (queue s) i)\<rparr>]"
        "heap w' = heap (watchdog s)" "heap_size w' = heap_size (watchdog s)"
        "wd_capacity w' = wd_capacity (watchdog s)"
      using arm_room [OF w True] by blast
    have "heap_ok (w', queue s)" using ok heap_ok_watchdog(1) [OF w'(4-6)] by (simp add: callback_ok_def)
    then have "callback_ok I (s\<lparr>watchdog := w'\<rparr>)"
      using ok i w' valid_requestsI [OF w'(2)] by (auto simp: callback_ok_def)
    then show ?thesis using auth w'(1) by (simp add: arm_message_def)
  next
    case False
    then have "e = d + 2 ^ k" using request_ringD(9) [OF w] by simp
    then have "arm_message h m i s = Some (client_answer_slot h i s)"
      using auth arm_full [OF w] by (simp add: arm_message_def)
    moreover have "callback_ok I (client_answer_slot h i s)"
      using answers_onlyD(12) [OF client_answer_slot_answers [OF i, of h]]
      by (intro callback_ok_calm [OF ok calm_client_answer_slot [OF i]]) simp_all
    ultimately show ?thesis by blast
  qed
qed

lemma arm_message_ring:
  assumes "arm_message h m i s = Some s'" and "ring k e d U C R (queue s)" "i < length (slots (queue s))"
  shows "ring k e d U C R (queue s')"
proof -
  have "ring k e d U C R (queue (client_answer_slot h i (s\<lparr>watchdog := w\<rparr>)))" for w
    using assms(2,3) by (intro client_answer_slot_effect(1)) simp_all
  then show ?thesis
    using assms by (auto simp: arm_message_def Let_def split: if_splits bind_splits prod.splits)
qed

text \<open>Updates of the counters and of the trace.\<close>

lemma callback_ok_fields [simp]:
  "callback_ok I (call c s) = callback_ok I s" "callback_ok I (leave_callback s) = callback_ok I s"
  "callback_ok I (esrb_notify h s) = callback_ok I s" "callback_ok I (send_default h c' m s) = callback_ok I s"
  "callback_ok I (s\<lparr>active_callbacks := n\<rparr>) = callback_ok I s" "callback_ok I (s\<lparr>dropped := d\<rparr>) = callback_ok I s"
  "callback_ok I (record_sequence_gaps m s) = callback_ok I s"
  by (simp_all add: callback_ok_def leave_callback_def esrb_notify_def call_def send_default_def
      esrb_send_response_def Let_def record_sequence_gaps_def)

lemma rejected_client_ok:
  assumes ok: "client_ok s" and "\<not> closed s" and full: "esrb_queue_enqueue (queue s) = Some (None, queue s)"
  shows "\<exists>s'. handle_message h n m s = Some s' \<and> client_ok s'"
proof -
  let ?I = "set (pending_slots (queue s))"
  define s0 where "s0 = call (Es_retain_message m) (record_sequence_gaps m
    (s\<lparr>active_callbacks := active_callbacks s + 1\<rparr>))"
  have s0: "callback_ok ?I s0" "queue s0 = queue s" using ok by (simp_all add: s0_def client_ok_callback)
  then have same: "s0\<lparr>queue := queue s\<rparr> = s0" by (metis esrb_client.surjective esrb_client.update_convs(2))
  have "handle_message h n m s = Some (leave_callback (reject_message h n m s0))"
    using assms(2) full s0(2) by (simp add: handle_message_def Let_def same flip: s0_def)
  moreover have "callback_ok ?I (reject_message h n m s0)" "queue (reject_message h n m s0) = queue s"
    using s0 by (simp_all add: reject_message_def Let_def)
  ultimately show ?thesis using ok by (simp add: client_ok_callback)
qed

lemma claimed_client_ok:
  assumes ok: "client_ok s" and "\<not> closed s" and r: "ring k e d {} {} R (queue s)" and c: "can_claim k e R"
  shows "\<exists>s'. handle_message h n m s = Some s' \<and> client_ok s'"
proof -
  let ?I = "set (pending_slots (queue s))" and ?i = "e mod 2 ^ k"
  define s0 where "s0 = call (Es_retain_message m) (record_sequence_gaps m
    (s\<lparr>active_callbacks := active_callbacks s + 1\<rparr>))"
  have s0: "callback_ok ?I s0" "queue s0 = queue s" using ok by (simp_all add: s0_def client_ok_callback)
  define s1 where "s1 = callback_claimed k e m s"
  have s1_eq: "s1 = s0\<lparr>queue := claimed_slot k e (queue s)\<rparr>" by (simp add: s1_def s0_def callback_claimed_def)
  have r1: "ring k (Suc e) d {} {e} R (queue s1)" using ring_claimed_slot [OF r c] by (simp add: s1_def)
  have i: "?i < length (slots (queue s))" and i1: "?i < length (slots (queue s1))"
    using ring_index [OF r] ring_index [OF r1] by auto
  have "calm (queue s) (claimed_slot k e (queue s))" using i by (auto simp: calm_def claimed_slot_def)
  then have c1: "callback_ok ?I s1"
    by (intro callback_ok_calm [OF s0(1)]) (simp_all add: s0(2) s1_eq)
  define s2 where "s2 = fill_message h n m ?i s1"
  note F = fill_message_effect [OF r1 i1, where h = h and n = n and m = m, folded s2_def]
  have c2: "callback_ok (insert ?i ?I) s2" unfolding s2_def by (rule fill_message_ok [OF c1 i1])
  have i2: "?i < length (slots (queue s2))" by (rule ring_index [OF F(1)])
  obtain s3 where s3: "arm_message h m ?i s2 = Some s3" "callback_ok (insert ?i ?I) s3"
    using arm_message_ok [OF c2 i2] by blast
  have r3: "ring k (Suc e) d {} {e} R (queue s3)" by (rule arm_message_ring [OF s3(1) F(1) i2])
  obtain q where q: "handle_message h n m s = Some (leave_callback (esrb_notify h (s3\<lparr>queue := q\<rparr>)))"
      "ring k (Suc e) d {} {} R q" "pending_slots q = pending_slots (queue s) @ [?i]"
      "\<forall>j. slot_at q j = (if j = ?i then (slot_at (queue s3) j)\<lparr>sequence := of_nat e + 1\<rparr> else slot_at (queue s3) j)"
    using callback_goes_on [OF r c assms(2) s3(1) [unfolded s2_def s1_def] r3] by blast
  have "calm (queue s3) q" using q(4) ringD(3,5) [OF q(2)] ringD(3,5) [OF r3] by (simp add: calm_def)
  then have "callback_ok (insert ?i ?I) (s3\<lparr>queue := q\<rparr>)" by (intro callback_ok_calm [OF s3(2)]) simp_all
  moreover have "valid_queue q" using q(2) by (auto simp: valid_queue_def)
  ultimately show ?thesis using q(1,3) by (simp add: client_ok_callback)
qed

lemma callback_client_ok:
  assumes ok: "client_ok s"
  shows "\<exists>s'. handle_message h n m s = Some s' \<and> client_ok s'"
proof (cases "closed s")
  case True
  then show ?thesis using ok by (auto simp: handle_message_def client_ok_callback Let_def)
next
  case False
  obtain k e d R where r: "ring k e d {} {} R (queue s)"
    using ok by (auto simp: client_ok_callback valid_queue_def)
  show ?thesis
    using claimed_client_ok [OF ok False r] rejected_client_ok [OF ok False] enqueue_full [OF r]
    by (cases "can_claim k e R") blast+
qed

text \<open>C17. The callback always returns and keeps every invariant of the client, on every path: closed,
  full, queued and armed, queued and answered at once.\<close>

theorem callback_keeps_invariants:
  assumes "client_ok s"
  shows "\<exists>s'. handle_message h n m s = Some s' \<and> client_ok s'"
  using callback_client_ok [OF assms, of h n m] .

theorem callback_keeps_invariants_witness:
  "\<exists>s'. handle_message sample_host (Some 7) sample_message armed_client = Some s' \<and> client_ok s'"
  using callback_keeps_invariants [OF armed_client_ok] .

end
