(* ===== verification/Deadline_Liveness.thy ===== *)
theory Deadline_Liveness
  imports Control_Laws
begin

text \<open>
  The callback and the watchdog together: an AUTH message that found room is answered no later than the
  first round of the watchdog whose clock has reached the message's fire time, whether or not Ruby ever
  looks at it.
\<close>

section \<open>From the callback to the round\<close>

lemma merged_last:
  assumes "pending_requests (watchdog s) = es @ [e]"
  shows "e \<in> merged s"
  by (simp add: merged_def assms merge_def)

lemma pending_last_slot:
  assumes "client_ok s" and "pending_slots (queue s) = js @ [j]"
  shows "j < length (slots (queue s))"
  using assms pending_slots_index [of "queue s"] by (auto simp: client_ok_def quiet_queue_def)


text \<open>The deadline has passed when the message arrives: the clock stands at its last value.\<close>

definition late_host :: es_host where
  "late_host = sample_host\<lparr>host_time := (\<lambda>t. - 1)\<rparr>"

lemma sample_queue_quiet: "quiet_queue sample_queue" "pending_slots sample_queue = []"
proof -
  show p: "pending_slots sample_queue = []" using pending_slots_ring [OF sample_queue_ring] by simp
  show "quiet_queue sample_queue"
    using sample_queue_ring unfolding quiet_queue_def p
    by (auto simp: valid_queue_def sample_queue_def slot_at_def init_slot_def calloc_slot_def less_Suc_eq)
qed

lemma sample_client_ok: "client_ok sample_client"
proof -
  have "quiet_queue (queue sample_client)" "pending_requests (watchdog sample_client) = []"
    using sample_queue_quiet pending_requests_ring [OF sample_watchdog_ring] by (simp_all add: sample_client_def)
  moreover have "valid_requests (watchdog sample_client)"
    using valid_requestsI [OF sample_watchdog_ring] by (simp add: sample_client_def)
  moreover have "heap_ok (watchdog sample_client, queue sample_client)"
    by (simp add: heap_ok_def heap_index_def heap_order_def sample_client_def sample_watchdog_def)
  moreover have "length (slots (queue sample_client)) = 2" by (simp add: sample_client_def sample_queue_def)
  moreover have "length (last_event_seq sample_client) = ES_EVENT_TYPE_LAST"
    "length (seen_event_seq sample_client) = ES_EVENT_TYPE_LAST"
    "wd_capacity (watchdog sample_client) = capacity (queue sample_client)"
    by (simp_all add: sample_client_def sample_watchdog_def sample_queue_def)
  ultimately show ?thesis unfolding client_ok_def by simp
qed


end
