(* ===== verification/Deadline_Map.thy ===== *)
theory Deadline_Map
  imports Client_Callback
begin

text \<open>
  The deadline heap against its reference (watchdog.c, heap_set and heap_remove): a map from slots to
  entries, read through the index each slot keeps, as \<open>heap_set\<close> reads it. Setting is a map update, removing a
  map deletion, and the root is an entry of least fire time.
\<close>

definition armed_for :: "watch_mem \<Rightarrow> nat \<rightharpoonup> esrb_watchdog_entry" where
  "armed_for m slot =
     (let i = unat (index_at m slot)
      in if i < size_of m \<and> entry_slot (heap_at m i) = slot then Some (heap_at m i) else None)"

lemma armed_for_iff:
  assumes "heap_index m"
  shows "armed_for m slot = Some e \<longleftrightarrow> e \<in> entries m \<and> entry_slot e = slot"
proof
  assume "armed_for m slot = Some e"
  then have "unat (index_at m slot) < size_of m" "e = heap_at m (unat (index_at m slot))" "entry_slot e = slot"
    by (simp_all add: armed_for_def Let_def split: if_splits)
  then show "e \<in> entries m \<and> entry_slot e = slot" by (simp add: entries_def)
next
  assume "e \<in> entries m \<and> entry_slot e = slot"
  then obtain i where "i < size_of m" "e = heap_at m i" "entry_slot (heap_at m i) = slot"
    by (auto simp: entries_def)
  then show "armed_for m slot = Some e" using heap_indexD(4,5) [OF assms, of i] by (auto simp: armed_for_def Let_def)
qed

lemma armed_for_eqI:
  assumes "heap_index m" and "\<And>slot e. f slot = Some e \<longleftrightarrow> e \<in> entries m \<and> entry_slot e = slot"
  shows "armed_for m = f"
proof
  fix slot
  have "armed_for m slot = Some e \<longleftrightarrow> f slot = Some e" for e
    by (simp only: armed_for_iff [OF assms(1)] assms(2))
  then show "armed_for m slot = f slot" by (metis not_Some_eq)
qed

lemma armed_for_unique:
  assumes "heap_index m" and "e \<in> entries m" "e' \<in> entries m" "entry_slot e = entry_slot e'"
  shows "e = e'"
  using armed_for_iff [OF assms(1)] assms(2-4) by (metis option.inject)

lemma heap_set_entries:
  assumes ok: "heap_ok m" and slot: "req_slot r < length (slots (snd m))"
    and cap: "unat (wd_capacity (fst m)) = length (slots (snd m))"
  shows "heap_ok (heap_set r m)"
    and "entries (heap_set r m) = insert (entry_of r) {e \<in> entries m. entry_slot e \<noteq> req_slot r}"
proof -
  have hi: "heap_index m" using ok by (simp add: heap_ok_def)
  have "heap_ok (heap_set r m) \<and>
    entries (heap_set r m) = insert (entry_of r) {e \<in> entries m. entry_slot e \<noteq> req_slot r}"
  proof (cases "has_entry m (req_slot r)")
    case True
    then show ?thesis using heap_set_update [OF ok] by simp
  next
    case False
    have "size_of m < unat (wd_capacity (fst m))" using heap_has_room [OF hi slot False] cap by simp
    moreover have "{e \<in> entries m. entry_slot e \<noteq> req_slot r} = entries m" using False by (auto simp: has_entry_def)
    ultimately show ?thesis using heap_set_fresh [OF ok slot False] by simp
  qed
  then show "heap_ok (heap_set r m)"
    "entries (heap_set r m) = insert (entry_of r) {e \<in> entries m. entry_slot e \<noteq> req_slot r}" by auto
qed

text \<open>C12. The heap of deadlines, with the index each slot keeps, is equivalent to a map from slots to
  entries: setting a request is a map update, also when the slot already has an entry; removing at any
  index is the deletion of that entry's slot; and the root has the least fire time of the map.\<close>

theorem heap_is_slot_map:
  assumes ok: "heap_ok m" and cap: "unat (wd_capacity (fst m)) = length (slots (snd m))"
    and slot: "req_slot r < length (slots (snd m))" and i: "i < size_of m"
  shows "armed_for (heap_set r m) = (armed_for m)(req_slot r \<mapsto> entry_of r) \<and> heap_ok (heap_set r m) \<and>
    armed_for (heap_remove i m) = (armed_for m)(entry_slot (heap_at m i) := None) \<and> heap_ok (heap_remove i m) \<and>
    (\<forall>e \<in> ran (armed_for m). entry_fire_at (heap_at m 0) \<le> entry_fire_at e)"
proof -
  have hi: "heap_index m" using ok by (simp add: heap_ok_def)
  note S = heap_set_entries [OF ok slot cap] and R = heap_remove_ok [OF ok i]
  have at: "heap_at m i \<in> entries m" using i by (auto simp: entries_def)
  have "armed_for (heap_set r m) = (armed_for m)(req_slot r \<mapsto> entry_of r)"
  proof (rule armed_for_eqI)
    show "heap_index (heap_set r m)" using S(1) by (simp add: heap_ok_def)
  qed (auto simp: S(2) armed_for_iff [OF hi] entry_of_def)
  moreover have "armed_for (heap_remove i m) = (armed_for m)(entry_slot (heap_at m i) := None)"
  proof (rule armed_for_eqI)
    show "heap_index (heap_remove i m)" using R by (simp add: heap_ok_def)
  qed (use R armed_for_unique [OF hi _ at] in \<open>auto simp: armed_for_iff [OF hi]\<close>)
  moreover have "entry_fire_at (heap_at m 0) \<le> entry_fire_at e" if "e \<in> ran (armed_for m)" for e
    using that heap_root_least [OF ok] armed_for_iff [OF hi] by (auto simp: ran_def)
  ultimately show ?thesis using S(1) R by blast
qed

text \<open>Two slots with an entry each; the entry of the first is set again, to a later time.\<close>

definition two_entries :: watch_mem where
  "two_entries = (sample_watchdog\<lparr>heap_size := 2, heap :=
     [\<lparr>entry_slot = 1, entry_position = 1, entry_fire_at = 10\<rparr>,
      \<lparr>entry_slot = 0, entry_position = 0, entry_fire_at = 20\<rparr>]\<rparr>,
     sample_queue\<lparr>slots := [(init_slot 0)\<lparr>watchdog_index := 1\<rparr>, (init_slot 1)\<lparr>watchdog_index := 0\<rparr>]\<rparr>)"

lemma two_entries_ok: "heap_ok two_entries"
proof -
  have two: "i < 2 \<Longrightarrow> i = 0 \<or> i = 1" for i :: nat by auto
  have "heap_index two_entries" unfolding heap_index_def
  proof (intro conjI allI impI)
    fix i assume "i < size_of two_entries"
    then have "i = 0 \<or> i = 1" using two [of i] by (simp add: two_entries_def)
    then show "entry_slot (heap_at two_entries i) < length (slots (snd two_entries))"
      "index_at two_entries (entry_slot (heap_at two_entries i)) = of_nat i"
      by (elim disjE; simp add: two_entries_def heap_at_def index_at_def slot_at_def)+
  qed (simp_all add: two_entries_def)
  moreover have "heap_order (fires two_entries) (size_of two_entries)" unfolding heap_order_def
  proof (intro allI impI)
    fix j assume "0 < j \<and> j < size_of two_entries"
    then have "j = 1" using two [of j] by (simp add: two_entries_def)
    then show "fires two_entries ((j - 1) div 2) \<le> fires two_entries j"
      by (simp add: two_entries_def heap_at_def)
  qed
  ultimately show ?thesis by (simp add: heap_ok_def) (simp add: two_entries_def sample_watchdog_def)
qed

theorem heap_is_slot_map_witness:
  "armed_for (heap_set \<lparr>req_sequence = 1, req_slot = 1, req_position = 3, req_fire_at = 30\<rparr> two_entries) 1 =
     Some \<lparr>entry_slot = 1, entry_position = 3, entry_fire_at = 30\<rparr> \<and>
   armed_for (heap_remove 0 two_entries) 1 = None"
proof -
  let ?r = "\<lparr>req_sequence = 1, req_slot = 1, req_position = 3, req_fire_at = 30\<rparr>"
  have f: "unat (wd_capacity (fst two_entries)) = length (slots (snd two_entries))"
    "req_slot ?r < length (slots (snd two_entries))" "0 < size_of two_entries" "entry_slot (heap_at two_entries 0) = 1"
    by (simp_all add: two_entries_def sample_watchdog_def heap_at_def)
  show ?thesis using heap_is_slot_map [OF two_entries_ok f(1-3)] by (simp add: entry_of_def f(4))
qed

end
