(* ===== verification/Message_Model.thy ===== *)
theory Message_Model
  imports Control_Laws
begin

text \<open>
  The Ruby object of a message (message.c). Its wrapper points to the slot of the ring that holds the
  message, is valid until it gives the slot back, and may be held across the dispatch. Methods take
  the wrapper and its client; each either reads, answers the slot, or releases it. A warning printed
  by \<open>rb_warn\<close> is not modelled.
\<close>

section \<open>Ownership and release\<close>

definition message_owned_here :: "ruby_world \<Rightarrow> esrb_client \<Rightarrow> bool" where
  "message_owned_here world s \<longleftrightarrow> owner_pid s = getpid world"

text \<open>\<open>None\<close> is a release that waits for a watchdog reader that does not leave.\<close>

definition message_release ::
    "es_host \<Rightarrow> ruby_world \<Rightarrow> esrb_message \<Rightarrow> esrb_client \<Rightarrow> (esrb_message \<times> esrb_client) option" where
  "message_release h world message s =
     (if \<not> wrap_valid message then Some (message, s)
      else if \<not> message_owned_here world s then Some (message\<lparr>wrap_valid := False\<rparr>, s)
      else let slot = wrap_slot message;
               flags = default_flags s;
               s = snd (snd (esrb_respond_slot h slot (default_auth s) flags (default_cache s) s))
      in Option.bind (esrb_queue_disarm (queue s) slot) (\<lambda>q.
         let s = call (Es_release_message (message_in (s\<lparr>queue := q\<rparr>) slot)) (s\<lparr>queue := q\<rparr>)
         in Option.bind (esrb_queue_release (queue s) slot) (\<lambda>q.
         Some (message\<lparr>wrap_valid := False\<rparr>, s\<lparr>queue := q\<rparr>))))"

definition message_free ::
    "es_host \<Rightarrow> ruby_world \<Rightarrow> esrb_message \<Rightarrow> esrb_client \<Rightarrow> (esrb_message \<times> esrb_client) option" where
  "message_free h world message s =
     (let s = (if wrap_valid message \<and> wrap_held message \<and> message_owned_here world s
            then s\<lparr>leaked_messages := leaked_messages s + 1\<rparr> else s)
      in message_release h world message s)"

definition check_owned :: "ruby_world \<Rightarrow> esrb_client \<Rightarrow> unit ruby" where
  "check_owned world s =
     (if \<not> message_owned_here world s
      then Inl (Raise ''ForkedClientError'' ''Endpoint Security messages cannot be used after fork'')
      else Inr ())"

definition get_message :: "ruby_world \<Rightarrow> esrb_message \<Rightarrow> esrb_client \<Rightarrow> es_message ruby" where
  "get_message world message s =
     bind_ruby (check_owned world s) (\<lambda>_.
       if \<not> wrap_valid message
       then Inl (Raise ''MessageInvalidatedError'' ''message has been released'')
       else Inr (message_in s (wrap_slot message)))"

section \<open>Reading\<close>

definition message_version :: "ruby_world \<Rightarrow> esrb_message \<Rightarrow> esrb_client \<Rightarrow> ruby_value ruby" where
  "message_version world w s = bind_ruby (get_message world w s) (\<lambda>m. Inr (uint2num (msg_version m)))"

definition message_event_type :: "ruby_world \<Rightarrow> esrb_message \<Rightarrow> esrb_client \<Rightarrow> ruby_value ruby" where
  "message_event_type world w s = bind_ruby (get_message world w s) (\<lambda>m. event_symbol world (msg_event_type m))"

definition message_action_type :: "ruby_world \<Rightarrow> esrb_message \<Rightarrow> esrb_client \<Rightarrow> ruby_value ruby" where
  "message_action_type world w s =
     bind_ruby (get_message world w s) (\<lambda>m. Inr (case msg_action_type m of
       ES_ACTION_TYPE_AUTH \<Rightarrow> RSym ''auth''
     | ES_ACTION_TYPE_NOTIFY \<Rightarrow> RSym ''notify''
     | ES_ACTION_TYPE_OTHER n \<Rightarrow> RInt n))"

definition message_auth_p :: "ruby_world \<Rightarrow> esrb_message \<Rightarrow> esrb_client \<Rightarrow> ruby_value ruby" where
  "message_auth_p world w s = bind_ruby (get_message world w s) (\<lambda>m. Inr (ruby_bool (is_auth m)))"

definition message_deadline :: "ruby_world \<Rightarrow> esrb_message \<Rightarrow> esrb_client \<Rightarrow> ruby_value ruby" where
  "message_deadline world w s = bind_ruby (get_message world w s) (\<lambda>m. Inr (ull2num (msg_deadline m)))"

definition message_mach_time :: "ruby_world \<Rightarrow> esrb_message \<Rightarrow> esrb_client \<Rightarrow> ruby_value ruby" where
  "message_mach_time world w s = bind_ruby (get_message world w s) (\<lambda>m. Inr (ull2num (msg_mach_time m)))"

definition message_seq_num :: "ruby_world \<Rightarrow> esrb_message \<Rightarrow> esrb_client \<Rightarrow> ruby_value ruby" where
  "message_seq_num world w s = bind_ruby (get_message world w s) (\<lambda>m.
     Inr (if msg_version m \<ge> 2 then ull2num (msg_seq_num m) else Qnil))"

definition message_global_seq_num :: "ruby_world \<Rightarrow> esrb_message \<Rightarrow> esrb_client \<Rightarrow> ruby_value ruby" where
  "message_global_seq_num world w s = bind_ruby (get_message world w s) (\<lambda>m.
     Inr (if msg_version m \<ge> 4 then ull2num (msg_global_seq_num m) else Qnil))"

definition message_time :: "ruby_world \<Rightarrow> esrb_message \<Rightarrow> esrb_client \<Rightarrow> ruby_value ruby" where
  "message_time world w s = bind_ruby (get_message world w s) (\<lambda>m.
     Inr (RObject ''Time'' [RInt (fst (msg_time m)), RInt (snd (msg_time m))]))"

definition message_result :: "ruby_world \<Rightarrow> esrb_message \<Rightarrow> esrb_client \<Rightarrow> ruby_value ruby" where
  "message_result world w s = bind_ruby (get_message world w s) (\<lambda>m.
     Inr (if msg_action_type m = ES_ACTION_TYPE_AUTH then Qnil
          else if msg_action_type m \<noteq> ES_ACTION_TYPE_NOTIFY then Qnil
          else case msg_notify_result m of
            ES_RESULT_TYPE_FLAGS flags \<Rightarrow> uint2num flags
          | ES_RESULT_TYPE_AUTH auth \<Rightarrow>
              (case auth of
                 ES_AUTH_RESULT_ALLOW \<Rightarrow> RSym ''allow''
               | ES_AUTH_RESULT_DENY \<Rightarrow> RSym ''deny''
               | ES_AUTH_RESULT_OTHER n \<Rightarrow> RInt n)
          | ES_RESULT_TYPE_OTHER n \<Rightarrow> RInt n))"

definition message_raw_pointer :: "ruby_world \<Rightarrow> esrb_message \<Rightarrow> esrb_client \<Rightarrow> ruby_value ruby" where
  "message_raw_pointer world w s = bind_ruby (get_message world w s) (\<lambda>m. Inr (ull2num (msg_address m)))"

text \<open>\<open>seconds\<close> stands for the floating-point conversion of ticks to seconds.\<close>

definition message_time_left ::
    "es_host \<Rightarrow> (uint64 \<Rightarrow> c_double) \<Rightarrow> ruby_world \<Rightarrow> esrb_message \<Rightarrow> esrb_client \<Rightarrow> ruby_value ruby_method" where
  "message_time_left h seconds world w s =
     or_raise (get_message world w s) s (\<lambda>m.
       case clock h s of (now, s) \<Rightarrow>
         (Inr (RFloat (if msg_deadline m \<le> now then Finite 0 else seconds (msg_deadline m - now))), s))"

definition message_answered_p :: "ruby_world \<Rightarrow> esrb_message \<Rightarrow> esrb_client \<Rightarrow> ruby_value ruby" where
  "message_answered_p world w s = bind_ruby (get_message world w s) (\<lambda>m.
     Inr (ruby_bool (answer_state (slot_at (queue s) (wrap_slot w)) = ESRB_ANSWER_ANSWERED)))"

definition message_valid_p :: "ruby_world \<Rightarrow> esrb_message \<Rightarrow> esrb_client \<Rightarrow> ruby_value ruby" where
  "message_valid_p world w s = bind_ruby (check_owned world s) (\<lambda>_. Inr (ruby_bool (wrap_valid w)))"

definition message_warn_on_truncated_path :: "ruby_world \<Rightarrow> esrb_message \<Rightarrow> esrb_client \<Rightarrow> ruby_value ruby" where
  "message_warn_on_truncated_path world w s =
     bind_ruby (get_message world w s) (\<lambda>m. Inr (ruby_bool (warn_on_truncated_path s)))"

text \<open>For an object that is no message, the C function returns false without raising: \<open>None\<close>.\<close>

definition esrb_message_valid_object :: "ruby_world \<Rightarrow> esrb_message option \<Rightarrow> esrb_client \<Rightarrow> bool ruby" where
  "esrb_message_valid_object world object s =
     (case object of None \<Rightarrow> Inr False
      | Some w \<Rightarrow> bind_ruby (check_owned world s) (\<lambda>_. Inr (wrap_valid w)))"

section \<open>Answering\<close>

definition respond_slot ::
    "es_host \<Rightarrow> esrb_message \<Rightarrow> es_auth_result \<Rightarrow> uint32 \<Rightarrow> bool \<Rightarrow> esrb_client \<Rightarrow> ruby_value ruby_method" where
  "respond_slot h w result flags cache s =
     (case esrb_respond_slot h (wrap_slot w) result flags cache s of (sent, response, s) \<Rightarrow>
      let response = (case response of None \<Rightarrow> ES_RESPOND_RESULT_SUCCESS | Some code \<Rightarrow> code)
      in if response \<noteq> ES_RESPOND_RESULT_SUCCESS
         then (Inl (Raise ''MessageError'' (''Endpoint Security response failed ('' @ signed_decimal response @ '')'')), s)
         else (Inr (ruby_bool sent), s))"

definition cache_option :: "(string \<times> ruby_value) list \<Rightarrow> bool" where
  "cache_option options = (let v = hash_aref options ''cache'' in v = Qnil \<or> rtest v)"

definition cache_wanted :: "(string \<times> ruby_value) list option \<Rightarrow> bool" where
  "cache_wanted options = (case options of None \<Rightarrow> True | Some opts \<Rightarrow> cache_option opts)"

text \<open>Whether an answer may be cached: the event must be cacheable, else it is sent uncached, or, under
  \<open>strict_cache\<close>, not at all.\<close>

definition check_cache :: "ruby_world \<Rightarrow> es_message \<Rightarrow> bool \<Rightarrow> esrb_client \<Rightarrow> bool ruby" where
  "check_cache world m cache s =
     (if \<not> cache then Inr False
      else bind_ruby (event_symbol world (msg_event_type m)) (\<lambda>event.
        if event_cacheable world event then Inr True
        else if strict_cache s then Inl (Raise ''NonCacheableEventError'' ''event cannot be cached'')
        else Inr False))"

definition respond_auth ::
    "es_host \<Rightarrow> ruby_world \<Rightarrow> (string \<times> ruby_value) list option \<Rightarrow> es_auth_result \<Rightarrow> esrb_message \<Rightarrow>
      esrb_client \<Rightarrow> ruby_value ruby_method" where
  "respond_auth h world options result w s =
     (let cache = cache_wanted options
      in or_raise (get_message world w s) s (\<lambda>m.
         if \<not> is_auth m
         then (Inl (Raise ''MessageError'' ''authorization responses require an AUTH event''), s)
         else or_raise (check_cache world m cache s) s (\<lambda>cache.
           let flags = (if result = ES_AUTH_RESULT_ALLOW then UINT32_MAX else 0)
           in respond_slot h w result flags cache s)))"

definition message_allow ::
    "es_host \<Rightarrow> ruby_world \<Rightarrow> (string \<times> ruby_value) list option \<Rightarrow> esrb_message \<Rightarrow> esrb_client \<Rightarrow>
      ruby_value ruby_method" where
  "message_allow h world options = respond_auth h world options ES_AUTH_RESULT_ALLOW"

definition message_deny ::
    "es_host \<Rightarrow> ruby_world \<Rightarrow> (string \<times> ruby_value) list option \<Rightarrow> esrb_message \<Rightarrow> esrb_client \<Rightarrow>
      ruby_value ruby_method" where
  "message_deny h world options = respond_auth h world options ES_AUTH_RESULT_DENY"

text \<open>\<open>options\<close> is the hash of keywords. A call with none passes \<open>nil\<close> to \<open>rb_hash_fetch\<close>, which
  dereferences it as a hash: that call has no model.\<close>

definition message_respond ::
    "es_host \<Rightarrow> ruby_world \<Rightarrow> (string \<times> ruby_value) list \<Rightarrow> esrb_message \<Rightarrow> esrb_client \<Rightarrow>
      ruby_value ruby_method" where
  "message_respond h world options w s =
     or_raise (hash_fetch options ''flags'') s (\<lambda>flags.
     or_raise (get_message world w s) s (\<lambda>m.
       if \<not> is_auth m \<or> msg_event_type m \<noteq> ES_EVENT_TYPE_AUTH_OPEN
       then (Inl (Raise ''MessageError'' ''flags responses are only valid for AUTH_OPEN''), s)
       else or_raise (num2uint flags) s (\<lambda>flags.
         respond_slot h w ES_AUTH_RESULT_ALLOW flags (cache_option options) s)))"

definition message_respond_default ::
    "es_host \<Rightarrow> ruby_world \<Rightarrow> esrb_message \<Rightarrow> esrb_client \<Rightarrow> ruby_value ruby_method" where
  "message_respond_default h world w s =
     or_raise (get_message world w s) s (\<lambda>m.
       case esrb_respond_slot h (wrap_slot w) (default_auth s) (default_flags s) (default_cache s) s of
         (sent, response, s) \<Rightarrow> (Inr (ruby_bool sent), s))"

section \<open>Holding and giving back\<close>

definition message_retain :: "ruby_world \<Rightarrow> esrb_message \<Rightarrow> esrb_client \<Rightarrow> unit ruby \<times> esrb_message" where
  "message_retain world w s = or_raise (get_message world w s) w (\<lambda>m. (Inr (), w\<lparr>wrap_held := True\<rparr>))"

definition message_release_bang ::
    "es_host \<Rightarrow> ruby_world \<Rightarrow> esrb_message \<Rightarrow> esrb_client \<Rightarrow>
      (ruby_value ruby \<times> esrb_message \<times> esrb_client) option" where
  "message_release_bang h world w s =
     (case check_owned world s of
        Inl e \<Rightarrow> Some (Inl e, w, s)
      | Inr _ \<Rightarrow> map_option (\<lambda>r. (Inr Qnil, r)) (message_release h world w s))"

definition message_auto_release ::
    "es_host \<Rightarrow> ruby_world \<Rightarrow> esrb_message \<Rightarrow> esrb_client \<Rightarrow>
      (ruby_value ruby \<times> esrb_message \<times> esrb_client) option" where
  "message_auto_release h world w s =
     (if \<not> wrap_held w then map_option (\<lambda>r. (Inr Qnil, r)) (message_release h world w s)
      else Some (Inr Qnil, w, s))"

section \<open>Giving a slot back\<close>

text \<open>The wrapper holds the slot of a position that has been taken and not released.\<close>

definition holds_slot :: "esrb_message \<Rightarrow> esrb_client \<Rightarrow> bool" where
  "holds_slot w s \<longleftrightarrow> wrap_valid w \<and> (\<exists>k e d R p. ring k e d {} {} R (queue s) \<and> p < d \<and> p \<notin> R \<and>
     wrap_slot w = p mod 2 ^ k \<and> readers (slot_at (queue s) (p mod 2 ^ k)) = 0)"

text \<open>How \<open>message_release\<close> answers: with the client's defaults, if the slot is still unanswered.\<close>

lemma respond_slot_default:
  assumes "\<not> closed s" and "i < length (slots (queue s))"
  shows "snd (snd (esrb_respond_slot h i (default_auth s) (default_flags s) (default_cache s) s)) =
    client_answer_slot h i s"
  using assms
  by (auto simp: esrb_respond_slot_def client_answer_slot_def cas_answer_def Let_def send_default_def
      default_flags_def split_beta)

lemma message_release_effect:
  assumes "holds_slot w s" and own: "owner_pid s = getpid world" and "\<not> closed s"
  shows "\<exists>s'. message_release h world w s = Some (w\<lparr>wrap_valid := False\<rparr>, s') \<and>
    trace s' = trace s @ (if unanswered s (wrap_slot w) then [default_response s (wrap_slot w)] else []) @
      [Es_release_message (message_in s (wrap_slot w))] \<and>
    \<not> unanswered s' (wrap_slot w) \<and> \<not> occupied (slot_at (queue s') (wrap_slot w)) \<and>
    valid_queue (queue s') \<and> pending_slots (queue s') = pending_slots (queue s)"
proof -
  obtain k e d R p where r: "ring k e d {} {} R (queue s)" and p: "p < d" "p \<notin> R"
      "wrap_slot w = p mod 2 ^ k" "readers (slot_at (queue s) (p mod 2 ^ k)) = 0" and v: "wrap_valid w"
    using assms(1) by (auto simp: holds_slot_def)
  let ?i = "p mod 2 ^ k"
  have i: "?i < length (slots (queue s))" by (rule ring_index [OF r])
  define s1 where "s1 = client_answer_slot h ?i s"
  note E = client_answer_slot_effect [OF r i, where h = h, folded s1_def]
  have at1: "slot_at (queue s1) ?i = (slot_at (queue s) ?i)\<lparr>answer_state := answer_state (slot_at (queue s1) ?i)\<rparr>"
    by (simp add: E(2))
  have r1: "readers (slot_at (queue s1) ?i) = 0" using p(4) by (subst at1) simp
  have i1: "?i < length (slots (queue s1))" by (rule ring_index [OF E(1)])
  define q1 where "q1 = set_slot ?i (\<lambda>s. s\<lparr>occupied := False\<rparr>) (queue s1)"
  have d: "esrb_queue_disarm (queue s1) ?i = Some q1" using disarm_result [OF r1 i1] by (simp add: q1_def)
  have rq1: "ring k e d {} {} R q1" unfolding q1_def by (rule ring_write [OF E(1)]) simp_all
  have atq: "slot_at q1 j = (if ?i = j then (slot_at (queue s1) j)\<lparr>occupied := False\<rparr> else slot_at (queue s1) j)" for j
    using i1 by (simp add: q1_def)
  have rd: "readers (slot_at q1 ?i) = 0" using r1 by (simp add: atq)
  obtain q2 where q2: "esrb_queue_release q1 ?i = Some q2" "ring k e d {} {} (insert p R) q2"
      "\<And>j. slot_at q2 j = (if j = ?i then (slot_at q1 j)\<lparr>occupied := False, sequence := of_nat p + 2 ^ k\<rparr>
        else slot_at q1 j)"
    using release_result [OF rq1 p(1,2) rd] by auto
  have msg: "message_in (s1\<lparr>queue := q1\<rparr>) ?i = message_in s ?i"
    by (simp add: message_in_def atq E(2))
  let ?s' = "(call (Es_release_message (message_in s ?i)) (s1\<lparr>queue := q1\<rparr>))\<lparr>queue := q2\<rparr>"
  have "message_release h world w s = Some (w\<lparr>wrap_valid := False\<rparr>, ?s')"
    unfolding message_release_def Let_def p(3) respond_slot_default [OF assms(3) i] s1_def [symmetric]
    using v own d q2(1) msg by (simp add: message_owned_here_def)
  moreover have "trace ?s' = trace s @ (if unanswered s ?i then [default_response s ?i] else []) @
      [Es_release_message (message_in s ?i)]"
    using client_answer_slot_unanswered(2) [OF i, of h] by (simp add: s1_def)
  moreover have "\<not> unanswered ?s' ?i" "\<not> occupied (slot_at q2 ?i)"
    by (simp_all add: unanswered_def q2(3) atq E(2))
  moreover have "valid_queue q2" using q2(2) by (auto simp: valid_queue_def)
  moreover have "pending_slots q2 = pending_slots (queue s)"
    by (simp add: pending_slots_ring [OF q2(2)] pending_slots_ring [OF r])
  ultimately show ?thesis unfolding p(3) by (intro exI [of _ ?s']) simp
qed


definition taken_client :: esrb_client where
  "taken_client = armed_client\<lparr>queue := loaded_queue\<lparr>dequeue_position := 1\<rparr>\<rparr>"

lemma taken_client_holds: "holds_slot (esrb_message_wrap 0) taken_client"
proof -
  have r: "ring 1 1 1 {} {} {} (queue taken_client)"
    using ring_take [OF loaded_queue_ring] by (simp add: taken_client_def)
  show ?thesis
    unfolding holds_slot_def
    by (intro conjI exI [of _ 1] exI [of _ "{}"] exI [of _ 0])
      (use r in \<open>simp_all add: esrb_message_wrap_def taken_client_def loaded_queue_def slot_at_def\<close>)
qed

lemma taken_client_fields: "owner_pid taken_client = getpid sample_world" "\<not> closed taken_client"
  "trace taken_client = []" "unanswered taken_client 0" "message_in taken_client 0 = sample_message"
  "default_response taken_client 0 = Es_respond_auth_result (Some 7) sample_message ES_AUTH_RESULT_ALLOW False"
  by (simp_all add: taken_client_def armed_client_def sample_client_def sample_world_def unanswered_def
      message_in_def loaded_queue_def slot_at_def default_response_def Let_def sample_message_def)


text \<open>C27. A message object in a forked child is inert: releasing or freeing it invalidates it, touching
  neither the ring, the framework nor the leak counter, and every other use raises.\<close>

theorem forked_message_inert:
  assumes "owner_pid s \<noteq> getpid world"
  shows "message_release h world w s = Some (w\<lparr>wrap_valid := False\<rparr>, s) \<and>
    message_free h world w s = Some (w\<lparr>wrap_valid := False\<rparr>, s) \<and>
    (\<exists>e. message_version world w s = Inl e \<and> message_auth_p world w s = Inl e \<and>
      message_retain world w s = (Inl e, w) \<and> message_allow h world options w s = (Inl e, s) \<and>
      message_deny h world options w s = (Inl e, s) \<and> message_respond_default h world w s = (Inl e, s) \<and>
      message_release_bang h world w s = Some (Inl e, w, s) \<and> message_valid_p world w s = Inl e)"
  using assms
  by (cases w) (auto simp: message_release_def message_free_def message_owned_here_def Let_def
      message_version_def message_auth_p_def message_retain_def message_allow_def message_deny_def
      respond_auth_def message_respond_default_def message_release_bang_def message_valid_p_def
      get_message_def check_owned_def or_raise_def)

theorem forked_message_inert_witness:
  "\<exists>w'. message_free sample_host (sample_world\<lparr>getpid := 43\<rparr>) (esrb_message_wrap 0) taken_client =
     Some (w', taken_client) \<and> \<not> wrap_valid w'"
proof -
  have f: "owner_pid taken_client \<noteq> getpid (sample_world\<lparr>getpid := 43\<rparr>)"
    using taken_client_fields(1) by (simp add: sample_world_def)
  show ?thesis
    using forked_message_inert [OF f, of sample_host "esrb_message_wrap 0"] by simp
qed

section \<open>Answering from Ruby\<close>

lemma respond_slot_trace:
  assumes "\<not> closed s" and "wrap_slot w < length (slots (queue s))" "unanswered s (wrap_slot w)"
  shows "trace (snd (respond_slot h w r f b s)) = trace s @
    [let c = slot_client (slot_at (queue s) (wrap_slot w)); m = message_in s (wrap_slot w)
     in if msg_event_type m = ES_EVENT_TYPE_AUTH_OPEN then Es_respond_flags_result c m f b
        else Es_respond_auth_result c m r b]"
  using assms
  by (simp add: respond_slot_def esrb_respond_slot_def cas_answer_pending(1) split_beta Let_def
      esrb_send_response_def message_in_def)



end
