(* ===== verification/Mute_Model.thy ===== *)
theory Mute_Model
  imports Message_Model
begin

text \<open>
  Muting (mute.c): Ruby arguments to framework calls, and the framework's mute sets copied to Ruby
  values before their mandatory release. The framework's answers come from the \<open>es_host\<close> and a
  \<open>mute_host\<close>, an audit token's fields from the functions of libbsm, a record \<open>libbsm\<close>; what the
  development relies on of them is \<open>libbsm_documented\<close>. The Ruby values copied are those of
  lib/endpoint_security/object_model.rb.
\<close>

section \<open>String tokens\<close>

text \<open>An \<open>es_string_token_t\<close>: a length and the bytes at its data pointer, \<open>None\<close> for NULL. A Ruby string
  is its bytes; its encoding label is not modelled.\<close>

record es_string_token =
  token_length :: uint64
  token_data :: "string option"

definition LONG_MAX :: int where
  "LONG_MAX = 2 ^ 63 - 1"

definition esrb_string_token_value :: "es_string_token \<Rightarrow> ruby_value" where
  "esrb_string_token_value token =
     (if uint (token_length token) > LONG_MAX then Qnil
      else case token_data token of
        None \<Rightarrow> RStr ''''
      | Some data \<Rightarrow> RStr (take (unat (token_length token)) data))"

section \<open>Audit tokens\<close>

type_synonym audit_token = "uint32 list"

record libbsm =
  audit_token_to_auid :: "audit_token \<Rightarrow> uint32"
  audit_token_to_euid :: "audit_token \<Rightarrow> uint32"
  audit_token_to_egid :: "audit_token \<Rightarrow> uint32"
  audit_token_to_ruid :: "audit_token \<Rightarrow> uint32"
  audit_token_to_rgid :: "audit_token \<Rightarrow> uint32"
  audit_token_to_pid :: "audit_token \<Rightarrow> uint32"
  audit_token_to_asid :: "audit_token \<Rightarrow> uint32"
  audit_token_to_pidversion :: "audit_token \<Rightarrow> uint32"

text \<open>The documented layout of the eight words of a token.\<close>

definition libbsm_documented :: "libbsm \<Rightarrow> bool" where
  "libbsm_documented bsm \<longleftrightarrow> (\<forall>token. length token = 8 \<longrightarrow>
     [audit_token_to_auid bsm token, audit_token_to_euid bsm token, audit_token_to_egid bsm token,
      audit_token_to_ruid bsm token, audit_token_to_rgid bsm token, audit_token_to_pid bsm token,
      audit_token_to_asid bsm token, audit_token_to_pidversion bsm token] = token)"

text \<open>The members of the Ruby class, in order, and reading one of an object.\<close>

definition audit_members :: "string list" where
  "audit_members = [''pid'', ''pidversion'', ''ruid'', ''euid'', ''rgid'', ''egid'', ''asid'', ''auid'']"

definition audit_member :: "ruby_value \<Rightarrow> string \<Rightarrow> ruby_value ruby" where
  "audit_member v name =
     (case v of
        RObject klass values \<Rightarrow>
          if klass = ''AuditToken''
          then (case map_of (zip audit_members values) name of
                  Some x \<Rightarrow> Inr x | None \<Rightarrow> Inl (Raise ''NoMethodError'' name))
          else Inl (Raise ''NoMethodError'' name)
      | _ \<Rightarrow> Inl (Raise ''NoMethodError'' name))"

definition audit_token_from_value :: "ruby_value \<Rightarrow> audit_token ruby" where
  "audit_token_from_value value =
     map_ruby (\<lambda>name. bind_ruby (audit_member value name) num2uint)
       [''auid'', ''euid'', ''egid'', ''ruid'', ''rgid'', ''pid'', ''asid'', ''pidversion'']"

definition audit_token_value :: "libbsm \<Rightarrow> audit_token \<Rightarrow> ruby_value" where
  "audit_token_value bsm token = RObject ''AuditToken''
     [uint2num (audit_token_to_pid bsm token), uint2num (audit_token_to_pidversion bsm token),
      uint2num (audit_token_to_ruid bsm token), uint2num (audit_token_to_euid bsm token),
      uint2num (audit_token_to_rgid bsm token), uint2num (audit_token_to_egid bsm token),
      uint2num (audit_token_to_asid bsm token), uint2num (audit_token_to_auid bsm token)]"

section \<open>Muting\<close>

definition mute_client :: "ruby_world \<Rightarrow> esrb_client \<Rightarrow> unit ruby" where
  "mute_client world s =
     (if owner_pid s \<noteq> getpid world
      then Inl (Raise ''ForkedClientError'' ''Endpoint Security clients cannot be used after fork'')
      else if closed s then Inl (Raise ''ClientError'' ''client is closed'') else Inr ())"

text \<open>An empty list is the NULL pointer with count 0.\<close>

definition event_values :: "ruby_value \<Rightarrow> int list ruby" where
  "event_values values =
     (case values of
        RArr elements \<Rightarrow>
          if elements = [] then Inr []
          else if int (length elements) > LONG_MAX div 4
          then Inl (Raise ''ArgumentError'' ''too many events'')
          else map_ruby num2int elements
      | _ \<Rightarrow> Inl (Raise ''TypeError'' ''wrong argument type''))"

definition check_mute_result :: "int \<Rightarrow> unit ruby" where
  "check_mute_result result =
     (if result \<noteq> ES_RETURN_SUCCESS
      then Inl (Raise ''MuteError'' ''Endpoint Security mute operation failed'') else Inr ())"

fun sym2id :: "ruby_value \<Rightarrow> string ruby" where
  "sym2id (RSym name) = Inr name"
| "sym2id _ = Inl (Raise ''TypeError'' ''not a symbol'')"

fun string_value_cstr :: "ruby_value \<Rightarrow> string ruby" where
  "string_value_cstr (RStr bytes) =
     (if CHR 0x00 \<in> set bytes then Inl (Raise ''ArgumentError'' ''string contains null byte'') else Inr bytes)"
| "string_value_cstr _ = Inl (Raise ''TypeError'' ''no implicit conversion into String'')"

text \<open>A framework call of a control method and the check of its result; the value is true.\<close>

definition mute_call :: "es_host \<Rightarrow> string \<Rightarrow> ruby_value list \<Rightarrow> esrb_client \<Rightarrow> ruby_value ruby_method" where
  "mute_call h name arguments s =
     (let c = Es_other (native s) name arguments;
          result = host_result h (trace s) c;
          s = call c s
      in or_raise (check_mute_result result) s (\<lambda>_. (Inr Qtrue, s)))"

definition mute_path ::
    "es_host \<Rightarrow> ruby_world \<Rightarrow> ruby_value \<Rightarrow> ruby_value \<Rightarrow> ruby_value \<Rightarrow> ruby_value \<Rightarrow> esrb_client \<Rightarrow>
      ruby_value ruby_method" where
  "mute_path h world action path type_value values s =
     or_raise (mute_client world s) s (\<lambda>_.
     or_raise (sym2id action) s (\<lambda>action_id.
     or_raise (num2int type_value) s (\<lambda>type.
     or_raise (string_value_cstr path) s (\<lambda>path_string.
     or_raise (event_values values) s (\<lambda>events.
       let events_value = RArr (map RInt events)
       in if action_id = ''mute''
          then (if events = [] then mute_call h ''es_mute_path'' [RStr path_string, RInt type] s
                else mute_call h ''es_mute_path_events'' [RStr path_string, RInt type, events_value] s)
          else (if events = [] then mute_call h ''es_unmute_path'' [RStr path_string, RInt type] s
                else mute_call h ''es_unmute_path_events'' [RStr path_string, RInt type, events_value] s))))))"

definition mute_process ::
    "es_host \<Rightarrow> ruby_world \<Rightarrow> ruby_value \<Rightarrow> ruby_value \<Rightarrow> ruby_value \<Rightarrow> esrb_client \<Rightarrow> ruby_value ruby_method" where
  "mute_process h world action token_value values s =
     or_raise (mute_client world s) s (\<lambda>_.
     or_raise (audit_token_from_value token_value) s (\<lambda>token.
     or_raise (event_values values) s (\<lambda>events.
     or_raise (sym2id action) s (\<lambda>action_id.
       let token_arg = RArr (map uint2num token); events_value = RArr (map RInt events)
       in if action_id = ''mute''
          then (if events = [] then mute_call h ''es_mute_process'' [token_arg] s
                else mute_call h ''es_mute_process_events'' [token_arg, events_value] s)
          else (if events = [] then mute_call h ''es_unmute_process'' [token_arg] s
                else mute_call h ''es_unmute_process_events'' [token_arg, events_value] s)))))"

definition unmute_all :: "es_host \<Rightarrow> ruby_world \<Rightarrow> ruby_value \<Rightarrow> esrb_client \<Rightarrow> ruby_value ruby_method" where
  "unmute_all h world target s =
     or_raise (mute_client world s) s (\<lambda>_.
       mute_call h (if rtest target then ''es_unmute_all_target_paths'' else ''es_unmute_all_paths'') [] s)"

definition invert_muting :: "es_host \<Rightarrow> ruby_world \<Rightarrow> ruby_value \<Rightarrow> esrb_client \<Rightarrow> ruby_value ruby_method" where
  "invert_muting h world type s =
     or_raise (mute_client world s) s (\<lambda>_.
     or_raise (num2int type) s (\<lambda>type. mute_call h ''es_invert_muting'' [RInt type] s))"

abbreviation (input) "ES_MUTE_INVERTED \<equiv> (0 :: int)"
abbreviation (input) "ES_MUTE_NOT_INVERTED \<equiv> (1 :: int)"
abbreviation (input) "ES_MUTE_INVERTED_ERROR \<equiv> (2 :: int)"

definition muting_inverted :: "es_host \<Rightarrow> ruby_world \<Rightarrow> ruby_value \<Rightarrow> esrb_client \<Rightarrow> ruby_value ruby_method" where
  "muting_inverted h world type s =
     or_raise (mute_client world s) s (\<lambda>_.
     or_raise (num2int type) s (\<lambda>type.
       let c = Es_other (native s) ''es_muting_inverted'' [RInt type];
           result = host_result h (trace s) c;
           s = call c s
       in if result = ES_MUTE_INVERTED_ERROR
          then (Inl (Raise ''MuteError'' ''failed to query mute inversion state''), s)
          else (Inr (ruby_bool (result = ES_MUTE_INVERTED)), s)))"

definition clear_cache :: "es_host \<Rightarrow> ruby_world \<Rightarrow> esrb_client \<Rightarrow> ruby_value ruby_method" where
  "clear_cache h world s =
     or_raise (mute_client world s) s (\<lambda>_.
       let c = Es_other (native s) ''es_clear_cache'' [];
           result = host_result h (trace s) c;
           s = call c s
       in if result \<noteq> 0
          then (Inl (Raise ''ClientError'' (''failed to clear Endpoint Security cache ('' @ signed_decimal result @ '')'')), s)
          else (Inr Qtrue, s))"

section \<open>The mute sets\<close>

record es_muted_path =
  muted_type :: int
  muted_path_token :: es_string_token
  muted_path_events :: "int list"

record es_muted_process =
  muted_token :: audit_token
  muted_process_events :: "int list"

text \<open>The sets the framework hands out, \<open>None\<close> for a NULL pointer.\<close>

record mute_host =
  host_muted_paths :: "es_call list \<Rightarrow> es_muted_path list option"
  host_muted_processes :: "es_call list \<Rightarrow> es_muted_process list option"

definition event_symbols :: "ruby_world \<Rightarrow> int list \<Rightarrow> ruby_value ruby" where
  "event_symbols world events = bind_ruby (map_ruby (event_symbol world) events) (\<lambda>symbols. Inr (RArr symbols))"

definition copy_muted_paths :: "ruby_world \<Rightarrow> es_muted_path list \<Rightarrow> ruby_value ruby" where
  "copy_muted_paths world paths =
     (if int (length paths) > LONG_MAX
      then Inl (Raise ''RangeError'' ''muted path count is too large'')
      else bind_ruby (map_ruby (\<lambda>path.
          bind_ruby (event_symbols world (muted_path_events path)) (\<lambda>events.
          Inr (RHash [(''type'', RInt (muted_type path)),
            (''path'', esrb_string_token_value (muted_path_token path)), (''events'', events)]))) paths)
        (\<lambda>items. Inr (RArr items)))"

definition muted_paths :: "es_host \<Rightarrow> mute_host \<Rightarrow> ruby_world \<Rightarrow> esrb_client \<Rightarrow> ruby_value ruby_method" where
  "muted_paths h sets world s =
     or_raise (mute_client world s) s (\<lambda>_.
       let c = Es_other (native s) ''es_muted_paths_events'' [];
           result = host_result h (trace s) c;
           paths = host_muted_paths sets (trace s);
           s = call c s
       in or_raise (check_mute_result result) s (\<lambda>_.
          case paths of
            None \<Rightarrow> (Inr (RArr []), s)
          | Some paths \<Rightarrow>
              rb_ensure (copy_muted_paths world paths, s) (call (Es_other None ''es_release_muted_paths'' []))))"

definition copy_muted_processes :: "libbsm \<Rightarrow> ruby_world \<Rightarrow> es_muted_process list \<Rightarrow> ruby_value ruby" where
  "copy_muted_processes bsm world processes =
     (if int (length processes) > LONG_MAX
      then Inl (Raise ''RangeError'' ''muted process count is too large'')
      else bind_ruby (map_ruby (\<lambda>process.
          bind_ruby (event_symbols world (muted_process_events process)) (\<lambda>events.
          Inr (RHash [(''audit_token'', audit_token_value bsm (muted_token process)), (''events'', events)])))
          processes)
        (\<lambda>items. Inr (RArr items)))"

definition muted_processes ::
    "es_host \<Rightarrow> mute_host \<Rightarrow> libbsm \<Rightarrow> ruby_world \<Rightarrow> esrb_client \<Rightarrow> ruby_value ruby_method" where
  "muted_processes h sets bsm world s =
     or_raise (mute_client world s) s (\<lambda>_.
       let c = Es_other (native s) ''es_muted_processes_events'' [];
           result = host_result h (trace s) c;
           processes = host_muted_processes sets (trace s);
           s = call c s
       in or_raise (check_mute_result result) s (\<lambda>_.
          case processes of
            None \<Rightarrow> (Inr (RArr []), s)
          | Some processes \<Rightarrow>
              rb_ensure (copy_muted_processes bsm world processes, s)
                (call (Es_other None ''es_release_muted_processes'' []))))"

section \<open>The token of a process\<close>

text \<open>The Mach calls: the port of a task, by process id, and the token by port, or an error. The result
  carries the ports given back.\<close>

record mach_host =
  task_self :: int
  task_for_pid :: "int \<Rightarrow> int option"
  task_audit_token :: "int \<Rightarrow> audit_token option"

definition audit_token_for_pid ::
    "mach_host \<Rightarrow> libbsm \<Rightarrow> ruby_world \<Rightarrow> ruby_value \<Rightarrow> ruby_value ruby \<times> int list" where
  "audit_token_for_pid mach bsm world pid_value =
     or_raise (num2int pid_value) [] (\<lambda>pid.
       let found = (if pid \<noteq> getpid world then task_for_pid mach pid else Some (task_self mach))
       in case found of
            None \<Rightarrow> (Inl (Raise ''ArgumentError'' (''could not obtain task port for pid '' @ signed_decimal pid)), [])
          | Some task \<Rightarrow>
              let token = task_audit_token mach task;
                  released = (if pid \<noteq> getpid world then [task] else [])
              in case token of
                   None \<Rightarrow> (Inl (Raise ''ArgumentError'' (''could not obtain audit token for pid '' @ signed_decimal pid)), released)
                 | Some token \<Rightarrow> (Inr (audit_token_value bsm token), released))"

section \<open>Round trip\<close>

lemma list_of_8:
  assumes "length xs = 8"
  obtains a b c d e f g h where "xs = [a, b, c, d, e, f, g, h]"
  using assms by (auto simp: length_Suc_conv numeral_eq_Suc)

text \<open>C37. An audit token survives the way through Ruby: the eight words read back from its Ruby value
  are the eight words it had, in their places.\<close>

theorem audit_token_roundtrip:
  assumes "libbsm_documented bsm" and "length token = 8"
  shows "audit_token_from_value (audit_token_value bsm token) = Inr token"
proof -
  have t: "[audit_token_to_auid bsm token, audit_token_to_euid bsm token, audit_token_to_egid bsm token,
      audit_token_to_ruid bsm token, audit_token_to_rgid bsm token, audit_token_to_pid bsm token,
      audit_token_to_asid bsm token, audit_token_to_pidversion bsm token] = token"
    using assms by (simp add: libbsm_documented_def)
  have "audit_token_from_value (audit_token_value bsm token) =
    Inr [audit_token_to_auid bsm token, audit_token_to_euid bsm token, audit_token_to_egid bsm token,
      audit_token_to_ruid bsm token, audit_token_to_rgid bsm token, audit_token_to_pid bsm token,
      audit_token_to_asid bsm token, audit_token_to_pidversion bsm token]"
    by (simp add: audit_token_from_value_def audit_token_value_def audit_member_def audit_members_def)
  then show ?thesis by (simp only: t)
qed

definition word_libbsm :: libbsm where
  "word_libbsm = \<lparr>audit_token_to_auid = (\<lambda>t. t ! 0), audit_token_to_euid = (\<lambda>t. t ! 1),
     audit_token_to_egid = (\<lambda>t. t ! 2), audit_token_to_ruid = (\<lambda>t. t ! 3),
     audit_token_to_rgid = (\<lambda>t. t ! 4), audit_token_to_pid = (\<lambda>t. t ! 5),
     audit_token_to_asid = (\<lambda>t. t ! 6), audit_token_to_pidversion = (\<lambda>t. t ! 7)\<rparr>"

lemma word_libbsm_documented: "libbsm_documented word_libbsm"
  unfolding libbsm_documented_def by (auto elim!: list_of_8 simp: word_libbsm_def)

theorem audit_token_roundtrip_witness:
  "audit_token_from_value (audit_token_value word_libbsm [501, 502, 20, 501, 21, 4242, 100001, 7]) =
    Inr [501, 502, 20, 501, 21, 4242, 100001, 7]"
  using audit_token_roundtrip [OF word_libbsm_documented, of "[501, 502, 20, 501, 21, 4242, 100001, 7]"] by simp

text \<open>Reading the muted paths gives the framework's set back exactly once whenever it was handed
  out, also when copying it raises, and makes no other call.\<close>

lemma muted_paths_released_once:
  assumes "mute_client world s = Inr ()"
  shows "trace (snd (muted_paths h sets world s)) = trace s @ [Es_other (native s) ''es_muted_paths_events'' []] @
    (if host_result h (trace s) (Es_other (native s) ''es_muted_paths_events'' []) = ES_RETURN_SUCCESS \<and>
        host_muted_paths sets (trace s) \<noteq> None
     then [Es_other None ''es_release_muted_paths'' []] else [])"
  using assms
  by (auto simp: muted_paths_def or_raise_def Let_def check_mute_result_def rb_ensure_def split: option.splits)

definition sample_sets :: mute_host where
  "sample_sets = \<lparr>host_muted_paths = (\<lambda>t. Some [\<lparr>muted_type = 0, muted_path_token =
     \<lparr>token_length = 4, token_data = Some ''/tmp''\<rparr>, muted_path_events = [9]\<rparr>]),
     host_muted_processes = (\<lambda>t. None)\<rparr>"

definition raising_world :: ruby_world where
  "raising_world = sample_world\<lparr>event_symbol := (\<lambda>n. Inl (Raise ''KeyError'' ''event''))\<rparr>"

lemma muted_paths_released_once_example:
  "fst (muted_paths sample_host sample_sets raising_world sample_client) = Inl (Raise ''KeyError'' ''event'') \<and>
   trace (snd (muted_paths sample_host sample_sets raising_world sample_client)) =
    [Es_other (Some 7) ''es_muted_paths_events'' [], Es_other None ''es_release_muted_paths'' []]"
proof -
  have m: "mute_client raising_world sample_client = Inr ()"
    by (simp add: mute_client_def raising_world_def sample_world_def sample_client_def)
  have "copy_muted_paths raising_world [\<lparr>muted_type = 0, muted_path_token =
     \<lparr>token_length = 4, token_data = Some ''/tmp''\<rparr>, muted_path_events = [9]\<rparr>] = Inl (Raise ''KeyError'' ''event'')"
    by (simp add: copy_muted_paths_def event_symbols_def LONG_MAX_def raising_world_def)
  then have "fst (muted_paths sample_host sample_sets raising_world sample_client) = Inl (Raise ''KeyError'' ''event'')"
    by (simp add: muted_paths_def m or_raise_def Let_def check_mute_result_def rb_ensure_def sample_host_def
      sample_sets_def)
  moreover have "native sample_client = Some 7" "trace sample_client = []" by (simp_all add: sample_client_def)
  moreover have "host_muted_paths sample_sets [] \<noteq> None" by (simp add: sample_sets_def)
  ultimately show ?thesis
    using muted_paths_released_once [OF m, of sample_host sample_sets] by (simp add: sample_host_def)
qed

end
