(* ===== verification/Field_Values.thy ===== *)
theory Field_Values
  imports Mute_Model
begin

text \<open>
  Values read from the framework's structures (field.c, esrb_string_token_value to read_array, and the
  value builders). Memory is a function from addresses to bytes, loads are little-endian. The layout
  of Apple's structs, the access-control-list calls and the framework's exec accessors are fields of a
  \<open>field_world\<close>, as is the generated \<open>Enum.symbol\<close> of the Ruby library.
\<close>

section \<open>Memory\<close>

record esrb_field =
  field_name :: string
  field_type :: string
  field_offset :: uint64
  field_minimum_version :: uint32

record esrb_schema =
  schema_name :: string
  schema_fields :: "esrb_field list"

record esrb_event_schema =
  row_event_type :: int
  row_offset :: uint64
  row_schema :: string
  row_size :: uint64
  row_indirect :: bool

record field_world =
  mem :: "uint64 \<Rightarrow> 8 word"
  offsetof :: "string \<Rightarrow> string \<Rightarrow> uint64"
  size_events :: nat
  size_string_token :: uint64
  size_authorization_result :: uint64
  prox_fdtype_pipe :: int
  esrb_schemas :: "esrb_schema list"
  esrb_event_schemas :: "esrb_event_schema list"
  bsm :: libbsm
  acl_size :: "uint64 \<Rightarrow> int"
  acl_copy_ext :: "uint64 \<Rightarrow> int \<times> string"
  enum_symbol :: "string \<Rightarrow> int \<Rightarrow> ruby_value ruby"
  exec_args :: "uint64 \<Rightarrow> es_string_token list"
  exec_env :: "uint64 \<Rightarrow> es_string_token list"
  exec_fds :: "uint64 \<Rightarrow> uint64 list"

definition load_bytes :: "field_world \<Rightarrow> uint64 \<Rightarrow> nat \<Rightarrow> 8 word list" where
  "load_bytes w a n = map (\<lambda>i. mem w (a + of_nat i)) [0..<n]"

definition load_unsigned :: "field_world \<Rightarrow> nat \<Rightarrow> uint64 \<Rightarrow> int" where
  "load_unsigned w n a = horner_sum uint 256 (load_bytes w a n)"

definition load_signed :: "field_world \<Rightarrow> nat \<Rightarrow> uint64 \<Rightarrow> int" where
  "load_signed w n a = (let v = load_unsigned w n a
     in if v \<ge> 2 ^ (8 * n - 1) then v - 2 ^ (8 * n) else v)"

definition load_pointer :: "field_world \<Rightarrow> uint64 \<Rightarrow> uint64" where
  "load_pointer w a = word_of_int (load_unsigned w 8 a)"

definition string_of_bytes :: "8 word list \<Rightarrow> string" where
  "string_of_bytes bytes = map (\<lambda>b. char_of (unat b)) bytes"

text \<open>The address of a member of a struct at an address.\<close>

definition member :: "field_world \<Rightarrow> uint64 \<Rightarrow> string \<Rightarrow> string \<Rightarrow> uint64" where
  "member w a struct name = a + offsetof w struct name"

definition load_token :: "field_world \<Rightarrow> uint64 \<Rightarrow> es_string_token" where
  "load_token w a =
     (let len = word_of_int (load_unsigned w 8 (member w a ''es_string_token_t'' ''length''));
          data = load_pointer w (member w a ''es_string_token_t'' ''data'')
      in \<lparr>token_length = len, token_data =
           (if data = 0 then None else Some (string_of_bytes (load_bytes w data (unat len))))\<rparr>)"

definition token_at :: "field_world \<Rightarrow> uint64 \<Rightarrow> ruby_value" where
  "token_at w a = esrb_string_token_value (load_token w a)"

section \<open>Simple values\<close>

definition time_value :: "int \<Rightarrow> int \<Rightarrow> ruby_value" where
  "time_value seconds nanoseconds = RObject ''Time'' [RInt seconds, RInt nanoseconds]"

definition tagged_union_value :: "string \<Rightarrow> ruby_value \<Rightarrow> ruby_value" where
  "tagged_union_value kind v = RObject ''TaggedUnion'' [RSym kind, v]"

definition hex_digits :: string where
  "hex_digits = ''0123456789abcdef''"

definition hex_string :: "8 word list \<Rightarrow> string" where
  "hex_string bytes =
     concat (map (\<lambda>b. [hex_digits ! unat (drop_bit 4 b), hex_digits ! unat (b AND 0x0f)]) bytes)"

definition hex_value :: "8 word list \<Rightarrow> ruby_value" where
  "hex_value bytes = RStr (hex_string bytes)"

definition binary_value :: "8 word list \<Rightarrow> ruby_value" where
  "binary_value bytes = RStr (string_of_bytes bytes)"

definition acl_value :: "field_world \<Rightarrow> uint64 \<Rightarrow> ruby_value" where
  "acl_value w acl =
     (if acl = 0 then Qnil
      else let size = acl_size w acl
      in if size \<le> 0 then Qnil
      else case acl_copy_ext w acl of (copied, bytes) \<Rightarrow>
        if copied < 0 then Qnil else RStr (take (nat copied) bytes))"

definition uid_union :: "bool \<Rightarrow> uint32 \<Rightarrow> ruby_value" where
  "uid_union available uid =
     tagged_union_value (if available then ''uid'' else ''unavailable'')
       (if available then uint2num uid else Qnil)"

section \<open>Copied structures\<close>

definition load_audit_token :: "field_world \<Rightarrow> uint64 \<Rightarrow> audit_token" where
  "load_audit_token w a = map (\<lambda>i. word_of_int (load_unsigned w 4 (a + of_nat (4 * i)))) [0..<8]"

definition field_audit_token_value :: "field_world \<Rightarrow> uint64 \<Rightarrow> ruby_value" where
  "field_audit_token_value w a = audit_token_value (bsm w) (load_audit_token w a)"

text \<open>\<open>ULL2NUM\<close> of a signed member converts it to unsigned first.\<close>

definition signed_to_ull :: "int \<Rightarrow> ruby_value" where
  "signed_to_ull n = ull2num (word_of_int n)"

definition stat_value :: "field_world \<Rightarrow> uint64 \<Rightarrow> ruby_value" where
  "stat_value w a =
     (let pos = member w a ''struct stat'';
          time = (\<lambda>name. time_value (load_signed w 8 (member w (pos name) ''struct timespec'' ''tv_sec''))
            (load_signed w 8 (member w (pos name) ''struct timespec'' ''tv_nsec'')))
      in RObject ''Stat''
        [signed_to_ull (load_signed w 4 (pos ''st_dev'')), RInt (load_unsigned w 8 (pos ''st_ino'')),
         RInt (load_unsigned w 2 (pos ''st_mode'')), RInt (load_unsigned w 2 (pos ''st_nlink'')),
         RInt (load_unsigned w 4 (pos ''st_uid'')), RInt (load_unsigned w 4 (pos ''st_gid'')),
         signed_to_ull (load_signed w 4 (pos ''st_rdev'')), RInt (load_signed w 8 (pos ''st_size'')),
         RInt (load_signed w 8 (pos ''st_blocks'')), RInt (load_signed w 4 (pos ''st_blksize'')),
         time ''st_atimespec'', time ''st_mtimespec'', time ''st_ctimespec'', time ''st_birthtimespec''])"

definition bounded_cstring :: "8 word list \<Rightarrow> string" where
  "bounded_cstring bytes = string_of_bytes (takeWhile (\<lambda>b. b \<noteq> 0) bytes)"

definition statfs_value :: "field_world \<Rightarrow> uint64 \<Rightarrow> ruby_value" where
  "statfs_value w a =
     (let pos = member w a ''struct statfs'';
          unsigned = (\<lambda>n name. RInt (load_unsigned w n (pos name)))
      in RObject ''Statfs''
        [unsigned 4 ''f_bsize'', RInt (load_signed w 4 (pos ''f_iosize'')), unsigned 8 ''f_blocks'',
         unsigned 8 ''f_bfree'', unsigned 8 ''f_bavail'', unsigned 8 ''f_files'', unsigned 8 ''f_ffree'',
         RArr [RInt (load_signed w 4 (pos ''f_fsid'')), RInt (load_signed w 4 (pos ''f_fsid'' + 4))],
         unsigned 4 ''f_owner'', unsigned 4 ''f_type'', unsigned 4 ''f_flags'', unsigned 4 ''f_fssubtype'',
         RStr (bounded_cstring (load_bytes w (pos ''f_fstypename'') 16)),
         RStr (bounded_cstring (load_bytes w (pos ''f_mntonname'') 1024)),
         RStr (bounded_cstring (load_bytes w (pos ''f_mntfromname'') 1024)), unsigned 4 ''f_flags_ext''])"

definition attrlist_value :: "field_world \<Rightarrow> uint64 \<Rightarrow> ruby_value" where
  "attrlist_value w a =
     (let pos = member w a ''struct attrlist'';
          unsigned = (\<lambda>n name. RInt (load_unsigned w n (pos name)))
      in RObject ''Attrlist''
        [unsigned 2 ''bitmapcount'', unsigned 2 ''reserved'', unsigned 4 ''commonattr'',
         unsigned 4 ''volattr'', unsigned 4 ''dirattr'', unsigned 4 ''fileattr'', unsigned 4 ''forkattr''])"

section \<open>Schemas and views\<close>

definition find_schema :: "field_world \<Rightarrow> string \<Rightarrow> esrb_schema option" where
  "find_schema w name = List.find (\<lambda>s. schema_name s = name) (esrb_schemas w)"

text \<open>A view without its owner, which is the message at hand.\<close>

record esrb_view =
  view_pointer :: uint64
  view_schema :: esrb_schema
  view_message_version :: uint32
  view_strict_version :: bool

definition class_for_schema :: "string \<Rightarrow> string" where
  "class_for_schema schema =
     (if schema = ''es_process_t'' then ''Process''
      else if schema = ''es_file_t'' then ''File''
      else if schema = ''es_thread_t'' then ''Thread''
      else if take 9 schema = ''es_event_'' then ''Event'' else ''NativeView'')"

text \<open>The Ruby object of a view shows its address, schema, version and strictness.\<close>

definition view_object :: "esrb_view \<Rightarrow> ruby_value" where
  "view_object v = RObject (class_for_schema (schema_name (view_schema v)))
     [ull2num (view_pointer v), RStr (schema_name (view_schema v)), uint2num (view_message_version v),
      ruby_bool (view_strict_version v)]"

definition make_view :: "field_world \<Rightarrow> uint64 \<Rightarrow> string \<Rightarrow> uint32 \<Rightarrow> bool \<Rightarrow> esrb_view option" where
  "make_view w pointer name version strict =
     (if pointer = 0 then None
      else case find_schema w name of
        None \<Rightarrow> None
      | Some schema \<Rightarrow> Some \<lparr>view_pointer = pointer, view_schema = schema,
          view_message_version = version, view_strict_version = strict\<rparr>)"

definition esrb_view_wrap :: "field_world \<Rightarrow> uint64 \<Rightarrow> string \<Rightarrow> uint32 \<Rightarrow> bool \<Rightarrow> ruby_value" where
  "esrb_view_wrap w pointer name version strict =
     (case make_view w pointer name version strict of None \<Rightarrow> Qnil | Some v \<Rightarrow> view_object v)"

text \<open>A view inside a view, with the version and strictness of the outer one.\<close>

definition nested_view :: "field_world \<Rightarrow> esrb_view \<Rightarrow> uint64 \<Rightarrow> string \<Rightarrow> ruby_value" where
  "nested_view w v pointer name = esrb_view_wrap w pointer name (view_message_version v) (view_strict_version v)"

section \<open>Unions\<close>

text \<open>The members of a union share their address; which one is read depends on the tag. The numbers are
  the tags of the generated enumerations of the library (lib/endpoint_security/generated/enums.rb).\<close>

definition destination_union :: "field_world \<Rightarrow> esrb_view \<Rightarrow> bool \<Rightarrow> ruby_value" where
  "destination_union w view create =
     (let struct = (if create then ''es_event_create_t'' else ''es_event_rename_t'');
          pos = member w (view_pointer view) struct;
          type = load_unsigned w 4 (pos ''destination_type'');
          existing_file = load_pointer w (pos ''destination.existing_file'');
          directory = load_pointer w (pos ''destination.new_path.dir'')
      in if type = 0 then tagged_union_value ''existing_file'' (nested_view w view existing_file ''es_file_t'')
         else if type \<noteq> 1 then tagged_union_value ''unknown'' Qnil
         else tagged_union_value ''new_path'' (RHash
           ([(''dir'', nested_view w view directory ''es_file_t''),
             (''filename'', token_at w (pos ''destination.new_path.filename''))] @
            (if create then [(''mode'', RInt (load_unsigned w 2 (pos ''destination.new_path.mode'')))] else []))))"

definition authentication_union :: "field_world \<Rightarrow> esrb_view \<Rightarrow> ruby_value" where
  "authentication_union w view =
     (let pos = member w (view_pointer view) ''es_event_authentication_t'';
          type = load_unsigned w 4 (pos ''type'');
          case_of = (\<lambda>kind schema member_name.
            tagged_union_value kind (nested_view w view (load_pointer w (pos member_name)) schema))
      in if type = 0 then case_of ''od'' ''es_event_authentication_od_t'' ''data.od''
         else if type = 1 then case_of ''touchid'' ''es_event_authentication_touchid_t'' ''data.touchid''
         else if type = 2 then case_of ''token'' ''es_event_authentication_token_t'' ''data.token''
         else if type = 3 then case_of ''auto_unlock'' ''es_event_authentication_auto_unlock_t'' ''data.auto_unlock''
         else tagged_union_value ''unknown'' Qnil)"

definition od_member_union :: "field_world \<Rightarrow> esrb_view \<Rightarrow> ruby_value" where
  "od_member_union w view =
     (let pos = member w (view_pointer view) ''es_od_member_id_t'';
          type = load_unsigned w 4 (pos ''member_type'')
      in if type = 0 then tagged_union_value ''name'' (token_at w (pos ''member_value.name''))
         else if type \<noteq> 1 \<and> type \<noteq> 2 then tagged_union_value ''unknown'' Qnil
         else tagged_union_value ''uuid'' (hex_value (load_bytes w (pos ''member_value.uuid'') 16)))"

text \<open>The elements of an array of tokens, and of 16-byte identifiers.\<close>

definition token_elements :: "field_world \<Rightarrow> uint64 \<Rightarrow> nat \<Rightarrow> ruby_value list" where
  "token_elements w a n = map (\<lambda>i. token_at w (a + of_nat i * size_string_token w)) [0..<n]"

definition od_member_array_union :: "field_world \<Rightarrow> esrb_view \<Rightarrow> ruby_value" where
  "od_member_array_union w view =
     (let pos = member w (view_pointer view) ''es_od_member_id_array_t'';
          type = load_unsigned w 4 (pos ''member_type'');
          num = load_unsigned w 8 (pos ''member_count'')
      in if num > 2 ^ 32 - 1 then tagged_union_value ''invalid'' Qnil
         else if type = 0
         then tagged_union_value ''names'' (RArr (token_elements w (load_pointer w (pos ''member_array.names'')) (nat num)))
         else if type \<noteq> 1 \<and> type \<noteq> 2 then tagged_union_value ''unknown'' Qnil
         else tagged_union_value ''uuids'' (RArr (map (\<lambda>i.
             hex_value (load_bytes w (load_pointer w (pos ''member_array.uuids'') + of_nat (16 * i)) 16))
           [0..<nat num])))"

definition file_override_union :: "field_world \<Rightarrow> esrb_view \<Rightarrow> ruby_value" where
  "file_override_union w view =
     (let pos = member w (view_pointer view) ''es_event_gatekeeper_user_override_t'';
          type = load_unsigned w 4 (pos ''file_type'')
      in if type = 0 then tagged_union_value ''path'' (token_at w (pos ''file.file_path''))
         else if type \<noteq> 1 then tagged_union_value ''unknown'' Qnil
         else tagged_union_value ''file'' (nested_view w view (load_pointer w (pos ''file.file'')) ''es_file_t''))"

definition acl_union :: "field_world \<Rightarrow> esrb_view \<Rightarrow> ruby_value" where
  "acl_union w view =
     (let pos = member w (view_pointer view) ''es_event_setacl_t'';
          tag = load_unsigned w 4 (pos ''set_or_clear'')
      in if tag = 0 then tagged_union_value ''set'' (acl_value w (load_pointer w (pos ''acl.set'')))
         else tagged_union_value (if tag = 1 then ''clear'' else ''unknown'') Qnil)"

text \<open>A user id under a flag, in the struct of the view.\<close>

definition uid_union_at :: "field_world \<Rightarrow> esrb_view \<Rightarrow> string \<Rightarrow> string \<Rightarrow> ruby_value" where
  "uid_union_at w view flag uid =
     (let pos = member w (view_pointer view) (schema_name (view_schema view))
      in uid_union (load_unsigned w 1 (pos flag) \<noteq> 0) (word_of_int (load_unsigned w 4 (pos uid))))"

text \<open>\<open>None\<close> is \<open>Qundef\<close>: no union of the code's list.\<close>

definition read_union :: "field_world \<Rightarrow> esrb_view \<Rightarrow> esrb_field \<Rightarrow> ruby_value option" where
  "read_union w view field =
     (let schema = schema_name (view_schema view); name = field_name field
      in if name = ''destination'' \<and> schema = ''es_event_rename_t'' then Some (destination_union w view False)
         else if name = ''destination'' \<and> schema = ''es_event_create_t'' then Some (destination_union w view True)
         else if name = ''uid'' \<and> schema = ''es_event_authentication_touchid_t''
         then Some (uid_union_at w view ''has_uid'' ''uid.uid'')
         else if name = ''uid'' \<and> schema = ''es_event_openssh_login_t''
         then Some (uid_union_at w view ''has_uid'' ''uid.uid'')
         else if name = ''uid'' \<and> schema = ''es_event_login_login_t''
         then Some (uid_union_at w view ''has_uid'' ''uid.uid'')
         else if name = ''to_uid'' \<and> schema = ''es_event_su_t''
         then Some (uid_union_at w view ''has_to_uid'' ''to_uid.uid'')
         else if schema = ''es_event_sudo_t'' \<and> name = ''from_uid''
         then Some (uid_union_at w view ''has_from_uid'' ''from_uid.uid'')
         else if schema = ''es_event_sudo_t'' \<and> name = ''to_uid''
         then Some (uid_union_at w view ''has_to_uid'' ''to_uid.uid'')
         else if name = ''data'' \<and> schema = ''es_event_authentication_t'' then Some (authentication_union w view)
         else if name = ''member_value'' \<and> schema = ''es_od_member_id_t'' then Some (od_member_union w view)
         else if name = ''member_array'' \<and> schema = ''es_od_member_id_array_t''
         then Some (od_member_array_union w view)
         else if name = ''file'' \<and> schema = ''es_event_gatekeeper_user_override_t''
         then Some (file_override_union w view)
         else if name = ''acl'' \<and> schema = ''es_event_setacl_t'' then Some (acl_union w view)
         else None)"

section \<open>Arrays\<close>

definition string_array :: "field_world \<Rightarrow> uint64 \<Rightarrow> int \<Rightarrow> ruby_value" where
  "string_array w tokens num =
     (if tokens = 0 \<or> num > 2 ^ 32 - 1 then RArr [] else RArr (token_elements w tokens (nat num)))"

definition judgement_results :: "field_world \<Rightarrow> esrb_view \<Rightarrow> ruby_value" where
  "judgement_results w view =
     (let pos = member w (view_pointer view) ''es_event_authorization_judgement_t'';
          results = load_pointer w (pos ''results'');
          num = load_unsigned w 8 (pos ''result_count'')
      in if results = 0 \<or> num > 2 ^ 32 - 1 then RArr []
         else RArr (map (\<lambda>i. nested_view w view (results + of_nat i * size_authorization_result w)
           ''es_authorization_result_t'') [0..<nat num]))"

definition read_array :: "field_world \<Rightarrow> esrb_view \<Rightarrow> esrb_field \<Rightarrow> ruby_value option" where
  "read_array w view field =
     (let schema = schema_name (view_schema view); name = field_name field;
          pos = member w (view_pointer view) schema;
          strings = (\<lambda>tokens num. Some (string_array w (load_pointer w (pos tokens)) (load_unsigned w 8 (pos num))))
      in if schema = ''es_event_su_t'' \<and> name = ''argv'' then strings ''argv'' ''argc''
         else if schema = ''es_event_su_t'' \<and> name = ''env'' then strings ''env'' ''env_count''
         else if schema = ''es_event_authorization_petition_t'' \<and> name = ''rights''
         then strings ''rights'' ''right_count''
         else if schema = ''es_event_od_attribute_set_t'' \<and> name = ''attribute_values''
         then strings ''attribute_values'' ''attribute_value_count''
         else if schema = ''es_event_authorization_judgement_t'' \<and> name = ''results''
         then Some (judgement_results w view)
         else None)"

section \<open>Hexadecimal\<close>

text \<open>Reading hexadecimal back, for the specification: the value of two digits at a time.\<close>

fun hex_decode :: "string \<Rightarrow> 8 word list" where
  "hex_decode (a # b # rest) =
     (let digit = (\<lambda>c. length (takeWhile (\<lambda>d. d \<noteq> c) hex_digits))
      in of_nat (16 * digit a + digit b) # hex_decode rest)"
| "hex_decode _ = []"

lemma hex_digit_back: "n < 16 \<Longrightarrow> length (takeWhile (\<lambda>d. d \<noteq> hex_digits ! n) hex_digits) = n"
proof -
  have d: "distinct hex_digits" by (simp add: hex_digits_def)
  assume "n < 16"
  then have n: "n < length hex_digits" by (simp add: hex_digits_def)
  have "takeWhile (\<lambda>d. d \<noteq> hex_digits ! n) hex_digits = take n hex_digits"
    using d n by (intro takeWhile_eq_take_P_nth) (auto simp: nth_eq_iff_index_eq)
  then show ?thesis using n by simp
qed

lemma byte_nibbles:
  fixes b :: "8 word"
  shows "unat (drop_bit 4 b) < 16" "unat (b AND 0x0f) < 16"
    and "16 * unat (drop_bit 4 b) + unat (b AND 0x0f) = unat b"
proof -
  have small: "unat b < 256" using unsigned_less [of b, where ?'a = nat] by simp
  then have hi: "unat (drop_bit 4 b) = unat b div 16"
    unfolding unsigned_drop_bit_eq by (simp add: drop_bit_eq_div take_bit_nat_eq_self)
  have "b AND 0x0f = take_bit 4 b" by (simp add: take_bit_eq_mask mask_eq_exp_minus_1)
  then have lo: "unat (b AND 0x0f) = unat b mod 16"
    by (simp only: unsigned_take_bit_eq) (simp add: take_bit_eq_mod)
  show "unat (drop_bit 4 b) < 16" "unat (b AND 0x0f) < 16"
    "16 * unat (drop_bit 4 b) + unat (b AND 0x0f) = unat b" using small unfolding hi lo by auto
qed

text \<open>The hexadecimal text of an identifier has two lower-case digits per byte and loses nothing:
  reading it back gives the bytes.\<close>

lemma hex_roundtrip:
  "hex_value bytes = RStr (hex_string bytes) \<and> length (hex_string bytes) = 2 * length bytes \<and>
    set (hex_string bytes) \<subseteq> set hex_digits \<and> hex_decode (hex_string bytes) = bytes"
proof (induction bytes)
  case Nil
  then show ?case by (simp add: hex_value_def hex_string_def)
next
  case (Cons b bytes)
  have eq: "hex_string (b # bytes) =
      hex_digits ! unat (drop_bit 4 b) # hex_digits ! unat (b AND 0x0f) # hex_string bytes"
    by (simp add: hex_string_def)
  have "length hex_digits = 16" by (simp add: hex_digits_def)
  then have mem: "hex_digits ! unat (drop_bit 4 b) \<in> set hex_digits" "hex_digits ! unat (b AND 0x0f) \<in> set hex_digits"
    using byte_nibbles(1,2) [of b] by (simp_all only: nth_mem)
  have "hex_decode (hex_string (b # bytes)) = of_nat (16 * unat (drop_bit 4 b) + unat (b AND 0x0f)) # bytes"
    using Cons.IH unfolding eq by (simp only: hex_decode.simps Let_def hex_digit_back byte_nibbles(1,2))
  also have "\<dots> = b # bytes" by (simp only: byte_nibbles(3)) simp
  finally show ?case using Cons.IH mem by (simp add: hex_value_def eq del: hex_decode.simps)
qed

end
