(* ===== verification/Field_Model.thy ===== *)
theory Field_Model
  imports Field_Values
begin

text \<open>
  Reading a field of a view (field.c, get_view and find_field to esrb_event_wrap) and the message's
  methods that make views (message.c, message_process to message_event and message_raw_event_bytes).
  The type of a field is the text the generated tables give; the code decides by comparing and
  searching that text, and so do the definitions.
\<close>

section \<open>Searching C strings\<close>

definition starts_with :: "string \<Rightarrow> string \<Rightarrow> bool" where
  "starts_with prefix s \<longleftrightarrow> take (length prefix) s = prefix"

text \<open>\<open>strstr\<close>: the rest of the string from the first occurrence.\<close>

fun strstr :: "string \<Rightarrow> string \<Rightarrow> string option" where
  "strstr [] needle = (if needle = [] then Some [] else None)"
| "strstr (c # s) needle = (if starts_with needle (c # s) then Some (c # s) else strstr s needle)"

definition is_pointer :: "string \<Rightarrow> bool" where
  "is_pointer type \<longleftrightarrow> CHR ''*'' \<in> set type"

section \<open>Access to a view\<close>

definition get_view :: "ruby_world \<Rightarrow> esrb_message option \<Rightarrow> esrb_client \<Rightarrow> unit ruby" where
  "get_view world owner s =
     bind_ruby (esrb_message_valid_object world owner s) (\<lambda>valid.
       if \<not> valid then Inl (Raise ''MessageInvalidatedError'' ''message has been released'') else Inr ())"

definition find_field :: "esrb_view \<Rightarrow> string \<Rightarrow> esrb_field option" where
  "find_field view name = List.find (\<lambda>f. field_name f = name) (schema_fields (view_schema view))"

text \<open>The name the code writes to its buffer; the empty string is no name.\<close>

definition referenced_schema_name :: "string \<Rightarrow> nat \<Rightarrow> string" where
  "referenced_schema_name type limit =
     (if starts_with ''union '' type \<or> starts_with ''struct '' type then ''''
      else case strstr type ''es_'' of
        None \<Rightarrow> ''''
      | Some start \<Rightarrow>
          (case strstr start ''_t'' of
             None \<Rightarrow> ''''
           | Some rest \<Rightarrow>
               let len = length start - length rest + 2
               in if len \<ge> limit then '''' else take len start))"

section \<open>Reading a field\<close>

definition error_field_unavailable :: "esrb_field \<Rightarrow> uint32 \<Rightarrow> ruby_error" where
  "error_field_unavailable field version = Raise ''FieldUnavailableError''
     (field_name field @ '' requires message version '' @ decimal (unat (field_minimum_version field)) @
      '' (got '' @ decimal (unat version) @ '')'')"

text \<open>A pointer member that may be null.\<close>

definition through_pointer :: "field_world \<Rightarrow> uint64 \<Rightarrow> (uint64 \<Rightarrow> ruby_value) \<Rightarrow> ruby_value" where
  "through_pointer w address value = (let p = load_pointer w address in if p = 0 then Qnil else value p)"

text \<open>The integer types, by size and sign.\<close>

definition read_integer :: "field_world \<Rightarrow> string \<Rightarrow> uint64 \<Rightarrow> ruby_value" where
  "read_integer w type address =
     (if type = ''unsigned long long'' \<or> type = ''uint64_t'' then RInt (load_unsigned w 8 address)
      else if type = ''long long'' \<or> type = ''int64_t'' then RInt (load_signed w 8 address)
      else if type = ''unsigned long'' then RInt (load_unsigned w 8 address)
      else if type = ''long'' then RInt (load_signed w 8 address)
      else if type = ''unsigned int'' \<or> type = ''uint32_t'' then RInt (load_unsigned w 4 address)
      else if type = ''int'' \<or> type = ''int32_t'' then RInt (load_signed w 4 address)
      else if type = ''unsigned short'' \<or> type = ''uint16_t'' then RInt (load_unsigned w 2 address)
      else if type = ''short'' \<or> type = ''int16_t'' then RInt (load_signed w 2 address)
      else if type = ''unsigned char'' \<or> type = ''uint8_t'' then RInt (load_unsigned w 1 address)
      else if type = ''signed char'' \<or> type = ''int8_t'' \<or> type = ''char'' then RInt (load_signed w 1 address)
      else Qnil)"

text \<open>A nested view, an enumeration's symbol or an integer: what the end of the code reads.\<close>

definition read_reference :: "field_world \<Rightarrow> esrb_view \<Rightarrow> string \<Rightarrow> uint64 \<Rightarrow> ruby_value ruby" where
  "read_reference w view type address =
     (let schema_name = referenced_schema_name type 128
      in if schema_name \<noteq> '''' \<and> find_schema w schema_name \<noteq> None
         then Inr (nested_view w view (if is_pointer type then load_pointer w address else address) schema_name)
         else if is_pointer type then Inr Qnil
         else if starts_with ''es_'' type then enum_symbol w type (load_signed w 4 address)
         else Inr (read_integer w type address))"

definition read_token :: "field_world \<Rightarrow> uint64 \<Rightarrow> ruby_value" where
  "read_token w address =
     (let size = load_unsigned w 8 (member w address ''es_token_t'' ''size'');
          data = load_pointer w (member w address ''es_token_t'' ''data'')
      in if size > LONG_MAX then Qnil
         else if data = 0 then RStr '''' else binary_value (load_bytes w data (nat size)))"

definition read_pipe :: "field_world \<Rightarrow> esrb_view \<Rightarrow> ruby_value" where
  "read_pipe w view =
     (let pos = member w (view_pointer view) ''es_fd_t''
      in if load_unsigned w 4 (pos ''fdtype'') \<noteq> prox_fdtype_pipe w then Qnil
         else RHash [(''pipe_id'', RInt (load_unsigned w 8 (pos ''pipe.pipe_id'')))])"

text \<open>The structures the code copies, by the text of the type; other fields are references.\<close>

definition read_value :: "field_world \<Rightarrow> esrb_view \<Rightarrow> esrb_field \<Rightarrow> ruby_value ruby" where
  "read_value w view field =
     (let address = view_pointer view + field_offset field; type = field_type field;
          time = (\<lambda>struct sub scale. time_value (load_signed w 8 (member w address struct ''tv_sec''))
            (load_signed w (if scale = 1 then 8 else 4) (member w address struct sub) * scale))
      in if type = ''es_string_token_t'' then Inr (token_at w address)
         else if type = ''es_string_token_t *'' then Inr (through_pointer w address (token_at w))
         else if type = ''es_token_t'' then Inr (read_token w address)
         else if type = ''audit_token_t'' then Inr (field_audit_token_value w address)
         else if type = ''audit_token_t *'' then Inr (through_pointer w address (field_audit_token_value w))
         else if type = ''struct stat'' then Inr (stat_value w address)
         else if type = ''struct statfs *'' then Inr (through_pointer w address (statfs_value w))
         else if type = ''struct attrlist'' then Inr (attrlist_value w address)
         else if type = ''struct timespec'' then Inr (time ''struct timespec'' ''tv_nsec'' 1)
         else if type = ''struct timeval'' then Inr (time ''struct timeval'' ''tv_usec'' 1000)
         else if type = ''bool'' \<or> type = ''_Bool'' then Inr (ruby_bool (load_unsigned w 1 address \<noteq> 0))
         else if strstr type ''[20]'' \<noteq> None then Inr (binary_value (load_bytes w address 20))
         else if type = ''es_sha256_t *''
         then Inr (through_pointer w address (\<lambda>p. binary_value (load_bytes w p 32)))
         else if type = ''struct _acl *'' then Inr (acl_value w (load_pointer w address))
         else if schema_name (view_schema view) = ''es_fd_t'' \<and> field_name field = ''pipe''
         then Inr (read_pipe w view)
         else read_reference w view type address)"

definition read_available :: "field_world \<Rightarrow> esrb_view \<Rightarrow> esrb_field \<Rightarrow> ruby_value ruby" where
  "read_available w view field =
     (if starts_with ''union '' (field_type field)
      then Inr (case read_union w view field of None \<Rightarrow> Qnil | Some v \<Rightarrow> v)
      else case if is_pointer (field_type field) then read_array w view field else None of
        Some v \<Rightarrow> Inr v
      | None \<Rightarrow> read_value w view field)"

text \<open>\<open>None\<close> is \<open>Qundef\<close>: the schema has no such field.\<close>

definition read_field ::
    "field_world \<Rightarrow> ruby_world \<Rightarrow> esrb_message option \<Rightarrow> esrb_client \<Rightarrow> esrb_view \<Rightarrow> ruby_value \<Rightarrow>
      ruby_value option ruby" where
  "read_field w world owner s view name_value =
     bind_ruby (get_view world owner s) (\<lambda>_.
     bind_ruby (string_value_cstr name_value) (\<lambda>name.
       case find_field view name of
         None \<Rightarrow> Inr None
       | Some field \<Rightarrow>
           if field_minimum_version field > view_message_version view
           then (if view_strict_version view
                 then Inl (error_field_unavailable field (view_message_version view)) else Inr (Some Qnil))
           else bind_ruby (read_available w view field) (\<lambda>v. Inr (Some v))))"

section \<open>Other methods of a view\<close>

definition field_names :: "ruby_world \<Rightarrow> esrb_message option \<Rightarrow> esrb_client \<Rightarrow> esrb_view \<Rightarrow> ruby_value ruby" where
  "field_names world owner s view =
     bind_ruby (get_view world owner s) (\<lambda>_. Inr (RArr (map (RSym \<circ> field_name) (schema_fields (view_schema view)))))"

definition view_schema_name :: "ruby_world \<Rightarrow> esrb_message option \<Rightarrow> esrb_client \<Rightarrow> esrb_view \<Rightarrow> ruby_value ruby" where
  "view_schema_name world owner s view =
     bind_ruby (get_view world owner s) (\<lambda>_. Inr (RStr (schema_name (view_schema view))))"

text \<open>The owner of a valid view is a message.\<close>

definition view_warn_on_truncated_path :: "ruby_world \<Rightarrow> esrb_message option \<Rightarrow> esrb_client \<Rightarrow> ruby_value ruby" where
  "view_warn_on_truncated_path world owner s =
     bind_ruby (get_view world owner s) (\<lambda>_.
       case owner of None \<Rightarrow> Inl (Raise ''NoMethodError'' '''') | Some w \<Rightarrow> message_warn_on_truncated_path world w s)"

definition exec_values ::
    "field_world \<Rightarrow> ruby_world \<Rightarrow> esrb_message option \<Rightarrow> esrb_client \<Rightarrow> esrb_view \<Rightarrow> ruby_value \<Rightarrow> ruby_value ruby" where
  "exec_values w world owner s view kind_value =
     bind_ruby (get_view world owner s) (\<lambda>_.
       if schema_name (view_schema view) \<noteq> ''es_event_exec_t'' then Inr Qnil
       else bind_ruby (sym2id kind_value) (\<lambda>kind.
         let event = view_pointer view
         in if kind = ''args'' \<or> kind = ''env''
            then Inr (RArr (map esrb_string_token_value (if kind = ''args'' then exec_args w event else exec_env w event)))
            else if kind = ''fds'' then Inr (RArr (map (\<lambda>fd. nested_view w view fd ''es_fd_t'') (exec_fds w event)))
            else Inr Qnil))"

section \<open>Views of a message\<close>

fun event_row :: "int \<Rightarrow> esrb_event_schema list \<Rightarrow> esrb_event_schema option" where
  "event_row type [] = None"
| "event_row type (event # rows) = (if row_event_type event \<noteq> type then event_row type rows else Some event)"

definition event_pointer :: "field_world \<Rightarrow> es_message \<Rightarrow> esrb_event_schema \<Rightarrow> uint64" where
  "event_pointer w m event =
     (let address = member w (msg_address m) ''es_message_t'' ''event'' + row_offset event
      in if row_indirect event then load_pointer w address else address)"

definition esrb_event_wrap :: "field_world \<Rightarrow> es_message \<Rightarrow> bool \<Rightarrow> ruby_value" where
  "esrb_event_wrap w m strict =
     (case event_row (msg_event_type m) (esrb_event_schemas w) of
        None \<Rightarrow> Qnil
      | Some event \<Rightarrow> esrb_view_wrap w (event_pointer w m event) (row_schema event) (msg_version m) strict)"

definition message_process ::
    "field_world \<Rightarrow> ruby_world \<Rightarrow> esrb_message \<Rightarrow> esrb_client \<Rightarrow> ruby_value ruby" where
  "message_process w world wrapper s = bind_ruby (get_message world wrapper s) (\<lambda>m.
     Inr (esrb_view_wrap w (msg_process m) ''es_process_t'' (msg_version m) (strict_version s)))"

definition message_thread ::
    "field_world \<Rightarrow> ruby_world \<Rightarrow> esrb_message \<Rightarrow> esrb_client \<Rightarrow> ruby_value ruby" where
  "message_thread w world wrapper s = bind_ruby (get_message world wrapper s) (\<lambda>m.
     Inr (if msg_version m \<ge> 4
          then esrb_view_wrap w (msg_thread m) ''es_thread_t'' (msg_version m) (strict_version s) else Qnil))"

definition message_event ::
    "field_world \<Rightarrow> ruby_world \<Rightarrow> esrb_message \<Rightarrow> esrb_client \<Rightarrow> ruby_value ruby" where
  "message_event w world wrapper s =
     bind_ruby (get_message world wrapper s) (\<lambda>m. Inr (esrb_event_wrap w m (strict_version s)))"

definition message_raw_event_bytes ::
    "field_world \<Rightarrow> ruby_world \<Rightarrow> esrb_message \<Rightarrow> esrb_client \<Rightarrow> ruby_value ruby" where
  "message_raw_event_bytes w world wrapper s = bind_ruby (get_message world wrapper s) (\<lambda>m.
     Inr (binary_value (load_bytes w (member w (msg_address m) ''es_message_t'' ''event'') (size_events w))))"

section \<open>Names of schemas\<close>

lemma strstr_suffix: "strstr s needle = Some rest \<Longrightarrow> \<exists>before. s = before @ rest \<and> starts_with needle rest"
proof (induction s)
  case Nil
  then show ?case by (auto simp: starts_with_def split: if_splits)
next
  case (Cons c s)
  show ?case
  proof (cases "starts_with needle (c # s)")
    case True
    then show ?thesis using Cons.prems by (intro exI [of _ "[]"]) simp
  next
    case False
    then obtain before where "s = before @ rest" "starts_with needle rest" using Cons by auto
    then show ?thesis by (intro exI [of _ "c # before"]) simp
  qed
qed

lemma starts_with_split: "starts_with prefix s \<Longrightarrow> s = prefix @ drop (length prefix) s"
  by (metis append_take_drop_id starts_with_def)

text \<open>C36. The name of the referenced schema fits the buffer it is written to, with its terminator, and is
  either empty or a piece of the field's type that begins with \<open>es_\<close> and ends with \<open>_t\<close>.\<close>

theorem schema_name_fits_buffer:
  "length (referenced_schema_name type 128) < 128 \<and>
    (referenced_schema_name type 128 = [] \<or>
     (\<exists>before after. type = before @ referenced_schema_name type 128 @ after \<and>
       starts_with ''es_'' (referenced_schema_name type 128) \<and>
       (\<exists>body. referenced_schema_name type 128 = body @ ''_t'')))"
proof (cases "referenced_schema_name type 128 = []")
  case True
  then show ?thesis by simp
next
  case False
  then obtain start rest where s: "strstr type ''es_'' = Some start" "strstr start ''_t'' = Some rest"
      and small: "length start - length rest + 2 < 128"
      and eq: "referenced_schema_name type 128 = take (length start - length rest + 2) start"
    by (auto simp: referenced_schema_name_def Let_def split: if_splits option.splits)
  obtain before where b: "type = before @ start" "starts_with ''es_'' start" using strstr_suffix [OF s(1)] by auto
  obtain body where body: "start = body @ rest" "starts_with ''_t'' rest" using strstr_suffix [OF s(2)] by auto
  then obtain after where st: "start = body @ ''_t'' @ after" using starts_with_split by fastforce
  then have "length start - length rest = length body" using body(1) by simp
  then have name: "referenced_schema_name type 128 = body @ ''_t''" using eq st by simp
  have "starts_with ''es_'' (body @ ''_t'')"
    using b(2) st by (cases body; cases "tl body"; cases "tl (tl body)") (auto simp: starts_with_def)
  moreover have "type = before @ (body @ ''_t'') @ after" using b(1) st by simp
  moreover have "length (body @ ''_t'') < 128" using small \<open>length start - length rest = length body\<close> by simp
  ultimately show ?thesis unfolding name by blast
qed

section \<open>Guards\<close>


definition cdhash_field :: esrb_field where
  "cdhash_field = \<lparr>field_name = ''cdhash'', field_type = ''uint8_t[20]'', field_offset = 8,
    field_minimum_version = 4\<rparr>"

definition sample_view :: "bool \<Rightarrow> esrb_view" where
  "sample_view strict = \<lparr>view_pointer = 0x1000,
    view_schema = \<lparr>schema_name = ''es_process_t'', schema_fields = [cdhash_field]\<rparr>,
    view_message_version = 3, view_strict_version = strict\<rparr>"

definition sample_fields :: field_world where
  "sample_fields = \<lparr>mem = (\<lambda>a. if a = 0x1000 then 0x40 else 0), offsetof = (\<lambda>struct name. 0), size_events = 8,
    size_string_token = 16, size_authorization_result = 32, prox_fdtype_pipe = 6,
    esrb_schemas = [\<lparr>schema_name = ''es_file_t'', schema_fields = []\<rparr>], esrb_event_schemas = [],
    bsm = word_libbsm, acl_size = (\<lambda>a. 0), acl_copy_ext = (\<lambda>a. (0, [])), enum_symbol = (\<lambda>type n. Inr (RInt n)),
    exec_args = (\<lambda>a. []), exec_env = (\<lambda>a. []), exec_fds = (\<lambda>a. [])\<rparr>"



section \<open>Versions of nested views\<close>

text \<open>Every view in a value shows a given version and strictness.\<close>

definition view_classes :: "string list" where
  "view_classes = [''Process'', ''File'', ''Thread'', ''Event'', ''NativeView'']"

fun well_versioned :: "uint32 \<Rightarrow> bool \<Rightarrow> ruby_value \<Rightarrow> bool" where
  "well_versioned version strict (RObject c xs) =
     (if c \<in> set view_classes then length xs = 4 \<and> xs ! 2 = uint2num version \<and> xs ! 3 = ruby_bool strict
      else list_all (well_versioned version strict) xs)"
| "well_versioned version strict (RArr xs) = list_all (well_versioned version strict) xs"
| "well_versioned version strict (RHash xs) = list_all (\<lambda>x. well_versioned version strict (snd x)) xs"
| "well_versioned version strict v = True"

definition enum_plain :: "field_world \<Rightarrow> bool" where
  "enum_plain w \<longleftrightarrow> (\<forall>type n v. enum_symbol w type n = Inr v \<longrightarrow> (\<exists>name. v = RSym name) \<or> v = RInt n)"

lemma versioned_numbers [simp]:
  "well_versioned v s (uint2num a)" "well_versioned v s (ull2num b)" "well_versioned v s (ruby_bool c)"
  "well_versioned v s (signed_to_ull n)" "well_versioned v s (time_value m k)"
  "well_versioned v s (binary_value bytes)" "well_versioned v s (hex_value bytes)"
  by (simp_all add: uint2num_def ull2num_def ruby_bool_def signed_to_ull_def time_value_def binary_value_def
      hex_value_def view_classes_def)

lemma versioned_token [simp]: "well_versioned v s (esrb_string_token_value t)" "well_versioned v s (token_at w a)"
  by (simp_all add: token_at_def esrb_string_token_value_def Let_def split: option.split)

lemma versioned_union [simp]: "well_versioned v s (tagged_union_value kind x) = well_versioned v s x"
  by (simp add: tagged_union_value_def view_classes_def)

lemma versioned_acl [simp]: "well_versioned v s (acl_value w a)"
  by (simp add: acl_value_def Let_def split: prod.split)

lemma versioned_structs [simp]:
  "well_versioned v s (field_audit_token_value w a)" "well_versioned v s (stat_value w a)"
  "well_versioned v s (statfs_value w a)" "well_versioned v s (attrlist_value w a)"
  "well_versioned v s (read_token w a)" "well_versioned v s (read_integer w type a)"
  "well_versioned v s (read_pipe w view)"
  by (simp_all add: field_audit_token_value_def audit_token_value_def stat_value_def statfs_value_def attrlist_value_def
      read_token_def read_integer_def read_pipe_def Let_def view_classes_def)

lemma view_class: "class_for_schema name \<in> set view_classes"
  by (simp add: class_for_schema_def view_classes_def)

lemma versioned_view [simp]: "well_versioned v s (esrb_view_wrap w p name v s)"
  by (auto simp: esrb_view_wrap_def make_view_def view_object_def view_class Let_def split: option.split)

lemma versioned_nested [simp]:
  "well_versioned (view_message_version view) (view_strict_version view) (nested_view w view p name)"
  by (simp add: nested_view_def)

lemma versioned_tokens [simp]:
  "\<forall>x\<in>set (token_elements w a n). well_versioned v s x" "list_all (well_versioned v s) (token_elements w a n)"
  by (simp_all add: token_elements_def list_all_iff)

lemma versioned_array [simp]: "well_versioned v s (string_array w a n)"
  by (simp add: string_array_def)

abbreviation (input) "inherits view v \<equiv> well_versioned (view_message_version view) (view_strict_version view) v"

lemma versioned_unions [simp]:
  "inherits view (destination_union w view create)" "inherits view (authentication_union w view)"
  "inherits view (od_member_union w view)" "inherits view (od_member_array_union w view)"
  "inherits view (file_override_union w view)" "inherits view (acl_union w view)"
  "inherits view (uid_union_at w view flag uid)" "inherits view (judgement_results w view)"
  by (simp_all add: destination_union_def authentication_union_def od_member_union_def od_member_array_union_def
      file_override_union_def acl_union_def uid_union_at_def uid_union_def judgement_results_def Let_def list_all_iff)

lemma read_union_inherits: "read_union w view field = Some x \<Longrightarrow> inherits view x"
  by (auto simp: read_union_def Let_def split: if_splits)

lemma read_array_inherits: "read_array w view field = Some x \<Longrightarrow> inherits view x"
  by (auto simp: read_array_def Let_def split: if_splits)

lemma through_pointer_inherits: "(\<And>a. well_versioned v s (f a)) \<Longrightarrow> well_versioned v s (through_pointer w p f)"
  by (simp add: through_pointer_def Let_def)

lemma read_value_inherits:
  assumes "enum_plain w" and "read_value w view field = Inr x"
  shows "inherits view x"
proof -
  have "inherits view y" if "enum_symbol w type n = Inr y" for type n y
  proof -
    from assms(1) that have "(\<exists>name. y = RSym name) \<or> y = RInt n" unfolding enum_plain_def by blast
    then show ?thesis by auto
  qed
  then have reference: "inherits view x" if "read_reference w view type a = Inr x" for type a
    using that by (auto simp: read_reference_def Let_def split: if_splits)
  show ?thesis
    using assms(2) unfolding read_value_def Let_def
    by (auto intro: through_pointer_inherits dest: reference split: if_splits)
qed

text \<open>C28. A value read from a field shows no view of another version: every view inside it, in an array, a
  hash or a tagged union, has the version and the strictness of the view it was read from.\<close>

theorem nested_views_inherit_version:
  assumes "read_field w world owner s view name = Inr (Some x)" and "enum_plain w"
  shows "well_versioned (view_message_version view) (view_strict_version view) x"
proof -
  from assms(1) consider "x = Qnil" | field where "read_available w view field = Inr x"
    by (auto simp: read_field_def bind_ruby_Inr_iff split: option.splits if_splits)
  then show ?thesis
  proof cases
    case 1
    then show ?thesis by simp
  next
    case 2
    then show ?thesis
      using read_union_inherits read_array_inherits read_value_inherits [OF assms(2)]
      by (auto simp: read_available_def split: if_splits option.splits)
  qed
qed


definition executable_view :: esrb_view where
  "executable_view = \<lparr>view_pointer = 0x1000, view_schema = \<lparr>schema_name = ''es_process_t'', schema_fields =
      [\<lparr>field_name = ''executable'', field_type = ''es_file_t *'', field_offset = 0, field_minimum_version = 1\<rparr>]\<rparr>,
    view_message_version = 3, view_strict_version = True\<rparr>"

definition executable_value :: ruby_value where
  "executable_value = RObject ''File'' [RInt 0x40, RStr ''es_file_t'', RInt 3, Qtrue]"

theorem nested_views_inherit_version_witness:
  "read_field sample_fields sample_world (Some (esrb_message_wrap 0)) taken_client executable_view (RStr ''executable'') =
      Inr (Some executable_value) \<and> well_versioned 3 True executable_value"
proof -
  let ?f = "\<lparr>field_name = ''executable'', field_type = ''es_file_t *'', field_offset = 0, field_minimum_version = 1\<rparr>"
  have g: "get_view sample_world (Some (esrb_message_wrap 0)) taken_client = Inr ()"
    by (simp add: get_view_def esrb_message_valid_object_def check_owned_def message_owned_here_def
        taken_client_fields(1) esrb_message_wrap_def)
  have p: "load_pointer sample_fields 0x1000 = 0x40"
    by (simp add: load_pointer_def load_unsigned_def load_bytes_def sample_fields_def upt_rec)
  have r: "referenced_schema_name ''es_file_t *'' 128 = ''es_file_t''"
    by (simp add: referenced_schema_name_def starts_with_def)
  have f: "\<exists>schema. find_schema sample_fields ''es_file_t'' = Some schema"
    by (simp add: find_schema_def sample_fields_def)
  have "nested_view sample_fields executable_view 0x40 ''es_file_t'' = executable_value"
    by (simp add: nested_view_def esrb_view_wrap_def make_view_def find_schema_def sample_fields_def view_object_def
        executable_view_def executable_value_def class_for_schema_def ull2num_def uint2num_def ruby_bool_def)
  then have v: "read_reference sample_fields executable_view ''es_file_t *'' 0x1000 = Inr executable_value"
    by (simp add: read_reference_def Let_def r p is_pointer_def f)
  have "read_value sample_fields executable_view ?f = Inr executable_value"
    using v by (simp add: read_value_def starts_with_def executable_view_def)
  then have a: "read_available sample_fields executable_view ?f = Inr executable_value"
    by (simp add: read_available_def starts_with_def is_pointer_def read_array_def executable_view_def)
  have read: "read_field sample_fields sample_world (Some (esrb_message_wrap 0)) taken_client executable_view
      (RStr ''executable'') = Inr (Some executable_value)"
    using a by (simp add: read_field_def g find_field_def executable_view_def)
  have "enum_plain sample_fields" by (simp add: enum_plain_def sample_fields_def)
  then show ?thesis
    using read nested_views_inherit_version [OF read] by (simp add: executable_view_def)
qed

end
