(* ===== verification/Gc_Model.thy ===== *)
theory Gc_Model
  imports Field_Model
begin

text \<open>
  The objects of the extension under Ruby's garbage collector (the dmark, dfree and dsize functions of
  message.c, field.c and client.c). A view marks its message and a message marks its client. The collector
  is not part of the program; the model relies on what Ruby documents of it: it frees only objects that
  cannot be reached from the roots through marks, in any order and at any time, and calls the dfree function
  of each. The structs are in the objects of a heap, and a pointer to a client is the place of its object.
\<close>

section \<open>Objects\<close>

text \<open>A client; a message with its owner and its client pointer; a view with its owner; and any object of
  Ruby, with what it refers to.\<close>

datatype gc_object =
    Client_Object esrb_client
  | Message_Object nat nat esrb_message
  | View_Object nat esrb_view
  | Plain_Object "nat list"

type_synonym gc_heap = "nat \<Rightarrow> gc_object option"

definition message_mark :: "nat \<Rightarrow> nat list" where
  "message_mark owner = [owner]"

definition view_mark :: "nat \<Rightarrow> nat list" where
  "view_mark owner = [owner]"

text \<open>The mark function of each type; a client has none.\<close>

fun mark_object :: "gc_object \<Rightarrow> nat list" where
  "mark_object (Client_Object s) = []"
| "mark_object (Message_Object owner client w) = message_mark owner"
| "mark_object (View_Object owner v) = view_mark owner"
| "mark_object (Plain_Object xs) = xs"

definition message_size :: "nat \<Rightarrow> esrb_message option \<Rightarrow> nat" where
  "message_size sizeof_message pointer = (case pointer of None \<Rightarrow> 0 | Some w \<Rightarrow> sizeof_message)"

definition view_size :: "nat \<Rightarrow> esrb_view option \<Rightarrow> nat" where
  "view_size sizeof_view pointer = (case pointer of None \<Rightarrow> 0 | Some v \<Rightarrow> sizeof_view)"

text \<open>A message is made under the client it points to.\<close>

definition new_message :: "nat \<Rightarrow> nat \<Rightarrow> gc_object" where
  "new_message client slot = Message_Object client client (esrb_message_wrap slot)"

text \<open>Freeing: what goes wrong is a wait that does not end, or a read of a client that has been freed.
  \<open>message_free\<close> looks at its client only while the message is valid.\<close>

datatype gc_error = Waits nat | Use_After_Free nat

definition free_message :: "es_host \<Rightarrow> ruby_world \<Rightarrow> nat \<Rightarrow> nat \<Rightarrow> esrb_message \<Rightarrow> gc_heap \<Rightarrow> gc_error + gc_heap" where
  "free_message h world i client w objs =
     (if \<not> wrap_valid w then Inr (objs(i := None))
      else case objs client of
        Some (Client_Object s) \<Rightarrow>
          (case message_free h world w s of
             None \<Rightarrow> Inl (Waits i)
           | Some (w', s') \<Rightarrow> Inr (objs(client \<mapsto> Client_Object s', i := None)))
      | _ \<Rightarrow> Inl (Use_After_Free i))"

definition view_free :: "nat \<Rightarrow> gc_heap \<Rightarrow> gc_heap" where
  "view_free i objs = objs(i := None)"

definition free_object :: "es_host \<Rightarrow> ruby_world \<Rightarrow> nat \<Rightarrow> gc_heap \<Rightarrow> gc_error + gc_heap" where
  "free_object h world i objs =
     (case objs i of
        Some (Client_Object s) \<Rightarrow>
          (case client_free h (getpid world) s of None \<Rightarrow> Inl (Waits i) | Some _ \<Rightarrow> Inr (objs(i := None)))
      | Some (Message_Object owner client w) \<Rightarrow> free_message h world i client w objs
      | Some (View_Object owner v) \<Rightarrow> Inr (view_free i objs)
      | _ \<Rightarrow> Inr (objs(i := None)))"

text \<open>A sweep frees one after another.\<close>

fun sweep :: "es_host \<Rightarrow> ruby_world \<Rightarrow> nat list \<Rightarrow> gc_heap \<Rightarrow> gc_error + gc_heap" where
  "sweep h world [] objs = Inr objs"
| "sweep h world (i # is) objs =
     (case free_object h world i objs of Inl e \<Rightarrow> Inl e | Inr objs' \<Rightarrow> sweep h world is objs')"

section \<open>Marking\<close>

inductive marked :: "nat set \<Rightarrow> gc_heap \<Rightarrow> nat \<Rightarrow> bool" for roots objs where
  root: "i \<in> roots \<Longrightarrow> marked roots objs i"
| mark: "marked roots objs i \<Longrightarrow> objs i = Some x \<Longrightarrow> j \<in> set (mark_object x) \<Longrightarrow> marked roots objs j"

text \<open>The program and the collector, step by step: Ruby drops references or copies those it has, makes
  clients, messages for a client it has, views of a message it has, and plain objects; the methods of a
  client or a message change it; the collector frees an object that is not marked.\<close>

inductive gc_step :: "nat set \<times> gc_heap \<Rightarrow> nat set \<times> gc_heap \<Rightarrow> bool" where
  refer: "roots' \<subseteq> {i. marked roots objs i} \<Longrightarrow> gc_step (roots, objs) (roots', objs)"
| make_client: "objs i = None \<Longrightarrow> gc_step (roots, objs) (insert i roots, objs(i \<mapsto> Client_Object client_allocate))"
| make_message: "objs i = None \<Longrightarrow> marked roots objs c \<Longrightarrow> objs c = Some (Client_Object s) \<Longrightarrow>
    gc_step (roots, objs) (insert i roots, objs(i \<mapsto> new_message c slot))"
| make_view: "objs i = None \<Longrightarrow> marked roots objs m \<Longrightarrow> objs m = Some (Message_Object owner c w) \<Longrightarrow>
    gc_step (roots, objs) (insert i roots, objs(i \<mapsto> View_Object m v))"
| make_plain: "objs i = None \<Longrightarrow> set xs \<subseteq> {j. marked roots objs j} \<Longrightarrow>
    gc_step (roots, objs) (insert i roots, objs(i \<mapsto> Plain_Object xs))"
| write_plain: "marked roots objs i \<Longrightarrow> objs i = Some (Plain_Object ys) \<Longrightarrow> set xs \<subseteq> {j. marked roots objs j} \<Longrightarrow>
    gc_step (roots, objs) (roots, objs(i \<mapsto> Plain_Object xs))"
| use_client: "marked roots objs i \<Longrightarrow> objs i = Some (Client_Object s) \<Longrightarrow>
    gc_step (roots, objs) (roots, objs(i \<mapsto> Client_Object s'))"
| use_message: "marked roots objs i \<Longrightarrow> objs i = Some (Message_Object owner c w) \<Longrightarrow>
    objs c = Some (Client_Object s) \<Longrightarrow>
    gc_step (roots, objs) (roots, objs(i \<mapsto> Message_Object owner c w', c \<mapsto> Client_Object s'))"
| free: "\<not> marked roots objs i \<Longrightarrow> objs i \<noteq> None \<Longrightarrow> free_object h world i objs = Inr objs' \<Longrightarrow>
    gc_step (roots, objs) (roots, objs')"

inductive gc_reachable :: "nat set \<Rightarrow> gc_heap \<Rightarrow> bool" where
  start: "gc_reachable {} (\<lambda>i. None)"
| step: "gc_reachable roots objs \<Longrightarrow> gc_step (roots, objs) (roots', objs') \<Longrightarrow> gc_reachable roots' objs'"

section \<open>What is reachable is whole\<close>

text \<open>A client pointer is to the object that the message marks.\<close>

fun pointer_ok :: "gc_object \<Rightarrow> bool" where
  "pointer_ok (Message_Object owner client w) \<longleftrightarrow> client = owner"
| "pointer_ok _ \<longleftrightarrow> True"

definition client_pointer_ok :: "gc_heap \<Rightarrow> bool" where
  "client_pointer_ok objs \<longleftrightarrow> (\<forall>i x. objs i = Some x \<longrightarrow> pointer_ok x)"

lemma client_pointerD: "client_pointer_ok objs \<Longrightarrow> objs i = Some x \<Longrightarrow> pointer_ok x"
  by (simp add: client_pointer_ok_def)

lemma client_pointer_new:
  "client_pointer_ok objs \<Longrightarrow> pointer_ok x \<Longrightarrow> client_pointer_ok (objs(i \<mapsto> x))"
  "client_pointer_ok objs \<Longrightarrow> client_pointer_ok (objs(i := None))"
  by (auto simp: client_pointer_ok_def)

definition is_client :: "gc_object option \<Rightarrow> bool" where
  "is_client x \<longleftrightarrow> (\<exists>s. x = Some (Client_Object s))"

definition is_message :: "gc_object option \<Rightarrow> bool" where
  "is_message x \<longleftrightarrow> (\<exists>owner c w. x = Some (Message_Object owner c w))"

definition object_ok :: "gc_heap \<Rightarrow> nat \<Rightarrow> bool" where
  "object_ok objs i \<longleftrightarrow>
     (case objs i of
        None \<Rightarrow> False
      | Some (Client_Object s) \<Rightarrow> True
      | Some (Message_Object owner c w) \<Rightarrow> is_client (objs owner)
      | Some (View_Object owner v) \<Rightarrow> is_message (objs owner)
      | Some (Plain_Object xs) \<Rightarrow> True)"

definition gc_inv :: "nat set \<Rightarrow> gc_heap \<Rightarrow> bool" where
  "gc_inv roots objs \<longleftrightarrow> client_pointer_ok objs \<and> (\<forall>i. marked roots objs i \<longrightarrow> object_ok objs i)"

text \<open>What a new objs marks, where every change is an object that refers to what was marked before.\<close>

lemma marked_mono:
  assumes "marked roots' objs' j" and "roots' \<subseteq> insert i {j. marked roots objs j}"
    and "\<And>j x. j \<noteq> i \<Longrightarrow> objs' j = Some x \<Longrightarrow> marked roots objs j \<Longrightarrow>
      \<exists>y. objs j = Some y \<and> mark_object x = mark_object y"
    and "\<And>x. objs' i = Some x \<Longrightarrow> set (mark_object x) \<subseteq> {j. marked roots objs j}"
  shows "j = i \<or> marked roots objs j"
  using assms(1)
proof (induction rule: marked.induct)
  case (root j)
  then show ?case using assms(2) by auto
next
  case (mark j x k)
  show ?case
  proof (cases "j = i")
    case True
    then show ?thesis using mark.hyps assms(4) by auto
  next
    case False
    then obtain y where "objs j = Some y" "mark_object x = mark_object y" using mark assms(3) by blast
    then show ?thesis using mark False marked.mark [of roots objs j y k] by auto
  qed
qed

text \<open>What the invariant sees of an object: its type and its owner.\<close>

fun shape :: "gc_object option \<Rightarrow> (nat \<times> nat) option" where
  "shape None = None"
| "shape (Some (Client_Object s)) = Some (0, 0)"
| "shape (Some (Message_Object owner c w)) = Some (1, owner)"
| "shape (Some (View_Object owner v)) = Some (2, owner)"
| "shape (Some (Plain_Object xs)) = Some (3, 0)"

lemma shape_kinds:
  "shape x = shape y \<Longrightarrow> is_client x = is_client y" "shape x = shape y \<Longrightarrow> is_message x = is_message y"
  by (cases x rule: shape.cases; cases y rule: shape.cases; simp add: is_client_def is_message_def)+

lemma object_ok_shape:
  "object_ok objs i \<longleftrightarrow> (\<exists>k owner. shape (objs i) = Some (k, owner) \<and>
     (k = 1 \<longrightarrow> is_client (objs owner)) \<and> (k = 2 \<longrightarrow> is_message (objs owner)))"
  by (cases "objs i" rule: shape.cases) (simp_all add: object_ok_def)

lemma shape_marks:
  "shape x = Some (k, owner) \<Longrightarrow> k = 1 \<or> k = 2 \<Longrightarrow> \<exists>y. x = Some y \<and> owner \<in> set (mark_object y)"
  by (cases x rule: shape.cases) (auto simp: message_mark_def view_mark_def)

lemma object_ok_keep:
  assumes ok: "object_ok objs j" and "shape (objs' j) = shape (objs j)"
    and same: "\<And>k. is_client (objs k) \<or> is_message (objs k) \<Longrightarrow>
      (\<exists>x. objs j = Some x \<and> k \<in> set (mark_object x)) \<Longrightarrow> shape (objs' k) = shape (objs k)"
  shows "object_ok objs' j"
proof -
  obtain k owner where s: "shape (objs j) = Some (k, owner)"
    "k = 1 \<longrightarrow> is_client (objs owner)" "k = 2 \<longrightarrow> is_message (objs owner)"
    using ok unfolding object_ok_shape by blast
  have "shape (objs' owner) = shape (objs owner)" if "k = 1 \<or> k = 2"
    using same [of owner] shape_marks [OF s(1) that] s(2,3) that by blast
  then have "k = 1 \<longrightarrow> is_client (objs' owner)" "k = 2 \<longrightarrow> is_message (objs' owner)"
    using s(2,3) shape_kinds by blast+
  then show ?thesis using s(1) assms(2) unfolding object_ok_shape by auto
qed

lemma gc_inv_new:
  assumes inv: "gc_inv roots objs" and fresh: "objs i = None"
    and x: "set (mark_object x) \<subseteq> {j. marked roots objs j}" "object_ok (objs(i \<mapsto> x)) i"
    and p: "pointer_ok x"
  shows "gc_inv (insert i roots) (objs(i \<mapsto> x))"
  unfolding gc_inv_def
proof (intro conjI allI impI)
  show "client_pointer_ok (objs(i \<mapsto> x))" using inv p by (simp add: gc_inv_def client_pointer_new)
  fix j assume "marked (insert i roots) (objs(i \<mapsto> x)) j"
  then have j: "j = i \<or> marked roots objs j"
    by (rule marked_mono) (use x(1) in \<open>auto intro: marked.root\<close>)
  show "object_ok (objs(i \<mapsto> x)) j"
  proof (cases "j = i")
    case False
    then have "object_ok objs j" using j inv by (simp add: gc_inv_def)
    then show ?thesis by (rule object_ok_keep) (use False fresh in \<open>auto simp: is_client_def is_message_def\<close>)
  qed (use x(2) in simp)
qed

lemma gc_inv_change:
  assumes inv: "gc_inv roots objs" and p: "client_pointer_ok objs'"
    and same: "\<And>j. j \<noteq> i \<Longrightarrow> shape (objs' j) = shape (objs j)"
    and marks: "\<And>j x. objs' j = Some x \<Longrightarrow> j \<noteq> i \<Longrightarrow> \<exists>y. objs j = Some y \<and> mark_object x = mark_object y"
    and i: "if marked roots objs i then shape (objs' i) = shape (objs i) \<and>
      (\<forall>x. objs' i = Some x \<longrightarrow> set (mark_object x) \<subseteq> {j. marked roots objs j}) else objs' i = None"
  shows "gc_inv roots objs'"
  unfolding gc_inv_def
proof (intro conjI allI impI)
  fix j assume "marked roots objs' j"
  then have "marked roots objs j"
  proof (induction rule: marked.induct)
    case (mark j x k)
    then show ?case
      using i marks [of j x] marked.mark [of roots objs j _ k] by (cases "j = i") (auto split: if_splits)
  qed (rule marked.root)
  moreover from this have "object_ok objs j" using inv by (simp add: gc_inv_def)
  moreover have "shape (objs' k) = shape (objs k)" if "marked roots objs k" for k
    using same [of k] i that by (cases "k = i") auto
  ultimately show "object_ok objs' j" by (blast intro: object_ok_keep marked.mark)
qed (rule p)

text \<open>What freeing one object does to the heap.\<close>

lemma free_object_effect:
  assumes "free_object h world i objs = Inr objs'" and "client_pointer_ok objs"
  shows "objs' i = None" and "\<And>j. j \<noteq> i \<Longrightarrow> shape (objs' j) = shape (objs j)"
    and "\<And>j x. objs' j = Some x \<Longrightarrow> j \<noteq> i \<Longrightarrow> \<exists>y. objs j = Some y \<and> mark_object x = mark_object y"
    and "client_pointer_ok objs'"
proof -
  have cases: "objs' = objs(i := None) \<or>
    (\<exists>c s s'. objs c = Some (Client_Object s) \<and> objs' = objs(c \<mapsto> Client_Object s', i := None))"
    using assms(1) unfolding free_object_def free_message_def view_free_def
    by (auto split: option.splits gc_object.splits if_splits prod.splits)
  then show "objs' i = None" and "\<And>j. j \<noteq> i \<Longrightarrow> shape (objs' j) = shape (objs j)"
    and "\<And>j x. objs' j = Some x \<Longrightarrow> j \<noteq> i \<Longrightarrow> \<exists>y. objs j = Some y \<and> mark_object x = mark_object y"
    by (auto split: if_splits)
  show "client_pointer_ok objs'" using cases assms(2) by (auto intro!: client_pointer_new)
qed

lemma gc_step_inv:
  assumes "gc_step (roots, objs) (roots', objs')" and inv: "gc_inv roots objs"
  shows "gc_inv roots' objs'"
  using assms(1)
proof cases
  case refer
  have "marked roots objs j" if "marked roots' objs j" for j
    using that by (induction rule: marked.induct) (use refer in \<open>auto intro: marked.mark\<close>)
  then show ?thesis using inv refer by (auto simp: gc_inv_def)
next
  case (make_client i)
  then show ?thesis by (auto intro!: gc_inv_new [OF inv] simp: object_ok_def)
next
  case (make_message i c s slot)
  then show ?thesis
    by (auto intro!: gc_inv_new [OF inv] simp: object_ok_def new_message_def message_mark_def is_client_def)
next
  case (make_view i m owner c w v)
  then show ?thesis
    by (auto intro!: gc_inv_new [OF inv] simp: object_ok_def view_mark_def is_message_def)
next
  case (make_plain i xs)
  then show ?thesis by (auto intro!: gc_inv_new [OF inv] simp: object_ok_def)
next
  case (write_plain i ys xs)
  then have "client_pointer_ok objs'" using inv by (simp add: gc_inv_def client_pointer_new)
  then show ?thesis using write_plain unfolding \<open>roots' = roots\<close>
    by (intro gc_inv_change [OF inv, of _ i]) auto
next
  case (use_client i s s')
  then have "client_pointer_ok objs'" using inv by (simp add: gc_inv_def client_pointer_new)
  then show ?thesis using use_client unfolding \<open>roots' = roots\<close>
    by (intro gc_inv_change [OF inv, of _ i]) auto
next
  case (use_message i owner c w s w' s')
  have "pointer_ok (Message_Object owner c w)"
    using inv use_message(4) client_pointerD unfolding gc_inv_def by blast
  then have c: "c = owner" by simp
  have "marked roots objs owner" using marked.mark [OF use_message(3,4)] by (simp add: message_mark_def)
  moreover have "client_pointer_ok objs'"
    unfolding use_message(2) by (intro client_pointer_new) (use inv c in \<open>simp_all add: gc_inv_def\<close>)
  ultimately show ?thesis using use_message c unfolding \<open>roots' = roots\<close>
    by (intro gc_inv_change [OF inv, of _ i]) (auto simp: message_mark_def split: if_splits)
next
  case (free i h world)
  have p: "client_pointer_ok objs" using inv by (simp add: gc_inv_def)
  note F = free_object_effect [OF free(4) p]
  show ?thesis unfolding \<open>roots' = roots\<close>
    by (rule gc_inv_change [OF inv F(4), of i]) (use F(1-3) free(2) in auto)
qed

lemma gc_reachable_inv: "gc_reachable roots objs \<Longrightarrow> gc_inv roots objs"
proof (induction rule: gc_reachable.induct)
  case start
  have "\<not> marked {} (\<lambda>i. None) j" for j
    by (rule notI, induction rule: marked.induct) auto
  then show ?case by (simp add: gc_inv_def client_pointer_ok_def)
qed (rule gc_step_inv)

text \<open>C25. Whatever Ruby and its collector have done, a view that can still be reached has its message, and a
  message that can still be reached has the client its C pointer is to: reading through them never meets a
  freed object.\<close>

theorem views_keep_their_message:
  assumes "gc_reachable roots objs" and "marked roots objs i"
  shows "case objs i of
      None \<Rightarrow> False
    | Some (View_Object m v) \<Rightarrow> (\<exists>c w s. objs m = Some (Message_Object c c w) \<and> objs c = Some (Client_Object s))
    | Some (Message_Object owner c w) \<Rightarrow> owner = c \<and> (\<exists>s. objs c = Some (Client_Object s))
    | _ \<Rightarrow> True"
proof -
  have inv: "gc_inv roots objs" by (rule gc_reachable_inv [OF assms(1)])
  have message: "owner = c \<and> (\<exists>s. objs c = Some (Client_Object s))"
    if m: "marked roots objs j" "objs j = Some (Message_Object owner c w)" for j owner c w
  proof -
    have "object_ok objs j" "c = owner"
      using inv m client_pointerD [of objs j "Message_Object owner c w"] by (simp_all add: gc_inv_def)
    then show ?thesis using m(2) by (auto simp: object_ok_def is_client_def)
  qed
  have ok: "object_ok objs i" using inv assms(2) by (simp add: gc_inv_def)
  show ?thesis
  proof (cases "objs i" rule: shape.cases)
    case (4 m v)
    then obtain owner c w where "objs m = Some (Message_Object owner c w)"
      using ok by (auto simp: object_ok_def is_message_def)
    moreover have "marked roots objs m" using marked.mark [OF assms(2) 4] by (simp add: view_mark_def)
    ultimately show ?thesis using message [of m owner c w] 4 by auto
  qed (use ok message [OF assms(2)] in \<open>simp_all add: object_ok_def\<close>)
qed

text \<open>A client, a message of it, and a view of the message, which is all that Ruby still refers to.\<close>

definition viewed_objects :: gc_heap where
  "viewed_objects = [0 \<mapsto> Client_Object taken_client, 1 \<mapsto> new_message 0 0, 2 \<mapsto> View_Object 1 (sample_view False)]"

lemma viewed_marked: "marked {2} viewed_objects 2" "marked {2} viewed_objects 1" "marked {2} viewed_objects 0"
proof -
  show 2: "marked {2} viewed_objects 2" by (simp add: marked.root)
  show 1: "marked {2} viewed_objects 1"
    by (rule marked.mark [OF 2, of "View_Object 1 (sample_view False)"])
      (simp_all add: viewed_objects_def view_mark_def)
  show "marked {2} viewed_objects 0"
    by (rule marked.mark [OF 1, of "new_message 0 0"])
      (simp_all add: viewed_objects_def new_message_def message_mark_def)
qed

lemma viewed_reachable: "gc_reachable {2} viewed_objects"
proof -
  let ?a = "[0 \<mapsto> Client_Object client_allocate] :: gc_heap"
  let ?b = "[0 \<mapsto> Client_Object taken_client] :: gc_heap"
  let ?c = "?b(1 \<mapsto> new_message 0 0)"
  have "gc_reachable {0} ?a"
    using gc_reachable.step [OF gc_reachable.start gc_step.make_client [of "\<lambda>i. None" 0 "{}"]] by simp
  then have "gc_reachable {0} ?b"
    using gc_step.use_client [of "{0}" ?a 0 client_allocate taken_client]
    by (auto intro: gc_reachable.step marked.root)
  then have "gc_reachable {1, 0} ?c"
    by (rule gc_reachable.step) (rule gc_step.make_message, auto intro: marked.root)
  then have "gc_reachable {2, 1, 0} viewed_objects"
    unfolding viewed_objects_def
    by (rule gc_reachable.step) (rule gc_step.make_view, auto intro: marked.root simp: new_message_def)
  then show ?thesis by (rule gc_reachable.step) (rule gc_step.refer, auto intro: marked.root)
qed

theorem views_keep_their_message_witness:
  "\<exists>c w s. viewed_objects 1 = Some (Message_Object c c w) \<and> viewed_objects c = Some (Client_Object s)"
  using views_keep_their_message [OF viewed_reachable viewed_marked(1)] by (simp add: viewed_objects_def)

section \<open>The order of a sweep\<close>

text \<open>No message that is still valid comes after its client.\<close>

fun messages_first :: "gc_heap \<Rightarrow> nat list \<Rightarrow> bool" where
  "messages_first objs [] = True"
| "messages_first objs (i # is) \<longleftrightarrow>
     (is_client (objs i) \<longrightarrow> (\<forall>m \<in> set is. \<forall>owner w. objs m = Some (Message_Object owner i w) \<longrightarrow> \<not> wrap_valid w)) \<and>
     messages_first objs is"

lemma free_object_others:
  assumes "free_object h world i objs = Inr objs'" and "j \<noteq> i"
  shows "objs' j = Some (Message_Object owner c w) \<longleftrightarrow> objs j = Some (Message_Object owner c w)"
    and "is_client (objs' j) \<longleftrightarrow> is_client (objs j)"
  using assms unfolding free_object_def free_message_def view_free_def is_client_def
  by (auto split: option.splits gc_object.splits if_splits prod.splits)

lemma free_object_none: "free_object h world i objs = Inr objs' \<Longrightarrow> objs' i = None"
  unfolding free_object_def free_message_def view_free_def
  by (auto split: option.splits gc_object.splits if_splits prod.splits)

lemma messages_first_others:
  assumes "free_object h world i objs = Inr objs'" and "i \<notin> set is"
  shows "messages_first objs' is = messages_first objs is"
  using assms(2)
proof (induction "is")
  case (Cons j "is")
  have "objs' m = Some (Message_Object owner j w) \<longleftrightarrow> objs m = Some (Message_Object owner j w)"
    if "m \<in> set is" for m owner w
    using free_object_others(1) [OF assms(1), of m] Cons.prems that by auto
  moreover have "is_client (objs' j) = is_client (objs j)"
    using free_object_others(2) [OF assms(1), of j] Cons.prems by simp
  ultimately show ?case using Cons by simp
qed simp

lemma sweep_doomed:
  assumes "m \<in> set is" "distinct is" and "objs m = Some (Message_Object owner c w)" "wrap_valid w"
    and "\<not> is_client (objs c)"
  shows "sweep h world is objs \<noteq> Inr objs'"
  using assms
proof (induction "is" arbitrary: objs)
  case (Cons i "is")
  show ?case
  proof (cases "free_object h world i objs")
    case (Inr objs1)
    have "i \<noteq> m"
      using Inr Cons.prems(3-5) by (auto simp: free_object_def free_message_def view_free_def is_client_def
        split: option.splits gc_object.splits)
    moreover from this have "objs1 m = Some (Message_Object owner c w)"
      using free_object_others(1) [OF Inr, of m] Cons.prems(3) by simp
    moreover have "\<not> is_client (objs1 c)"
      using free_object_others(2) [OF Inr, of c] free_object_none [OF Inr] Cons.prems(5)
      by (cases "c = i") (auto simp: is_client_def)
    ultimately show ?thesis using Cons.IH [of objs1] Cons.prems Inr by simp
  qed simp
qed simp

lemma free_object_safe:
  assumes "\<forall>owner c w. objs i = Some (Message_Object owner c w) \<and> wrap_valid w \<longrightarrow> is_client (objs c)"
  shows "free_object h world i objs \<noteq> Inl (Use_After_Free j)"
  using assms unfolding free_object_def free_message_def view_free_def is_client_def
  by (auto split: option.splits gc_object.splits)

lemma sweep_safe:
  assumes "distinct is" "messages_first objs is"
    and "\<forall>m \<in> set is. \<forall>owner c w. objs m = Some (Message_Object owner c w) \<and> wrap_valid w \<longrightarrow> is_client (objs c)"
  shows "sweep h world is objs \<noteq> Inl (Use_After_Free j)"
  using assms
proof (induction "is" arbitrary: objs)
  case (Cons i "is")
  have safe: "free_object h world i objs \<noteq> Inl (Use_After_Free j)" for j
    using free_object_safe Cons.prems(3) by simp
  show ?case
  proof (cases "free_object h world i objs")
    case (Inr objs1)
    note F = free_object_others [OF Inr]
    have "is_client (objs1 c)"
      if m: "m \<in> set is" "objs1 m = Some (Message_Object owner c w)" "wrap_valid w" for m owner c w
    proof -
      have "m \<noteq> i" using m(1) Cons.prems(1) by auto
      then have "objs m = Some (Message_Object owner c w)" using F(1) m(2) by blast
      moreover from this have "is_client (objs c)" using Cons.prems(3) m(1,3) by auto
      moreover from calculation have "c \<noteq> i" using Cons.prems(2) m(1,3) by auto
      ultimately show ?thesis using F(2) by blast
    qed
    then show ?thesis using Cons.IH [of objs1] Cons.prems(1,2) messages_first_others [OF Inr] Inr by auto
  qed (use safe in auto)
qed simp



end
