(* ===== verification/Extension_Init.thy ===== *)
theory Extension_Init
  imports Es_Prelude
begin

text \<open>
  What Ruby sees of the extension once it is loaded (endpoint_security.c, and the esrb_init functions of
  field.c, message.c, client.c and mute.c): its classes, the methods with the C function and arity of each,
  and which classes can be allocated. Ruby's side is a registry: a new method of a class goes before an
  older one of the same name, a class looks a method or an allocator up in its superclass when it has none.
\<close>

section \<open>The registry\<close>

text \<open>Classes with their superclass, newest first; methods and singleton methods by class and name, each with
  its C function and arity; allocators, where \<open>None\<close> is an undefined one.\<close>

record registry =
  classes :: "(string \<times> string) list"
  modules :: "string list"
  methods :: "((string \<times> string) \<times> (string \<times> int)) list"
  singletons :: "((string \<times> string) \<times> (string \<times> int)) list"
  allocators :: "(string \<times> string option) list"

definition empty_registry :: registry where
  "empty_registry = \<lparr>classes = [], modules = [], methods = [], singletons = [], allocators = []\<rparr>"

definition define_class :: "string \<Rightarrow> string \<Rightarrow> registry \<Rightarrow> registry" where
  "define_class name super r = r\<lparr>classes := (name, super) # classes r\<rparr>"

definition define_module :: "string \<Rightarrow> registry \<Rightarrow> registry" where
  "define_module name r = r\<lparr>modules := name # modules r\<rparr>"

definition define_method :: "string \<Rightarrow> string \<Rightarrow> string \<Rightarrow> int \<Rightarrow> registry \<Rightarrow> registry" where
  "define_method klass name function arity r =
     r\<lparr>methods := ((klass, name), (function, arity)) # methods r\<rparr>"

definition define_singleton_method :: "string \<Rightarrow> string \<Rightarrow> string \<Rightarrow> int \<Rightarrow> registry \<Rightarrow> registry" where
  "define_singleton_method object name function arity r =
     r\<lparr>singletons := ((object, name), (function, arity)) # singletons r\<rparr>"

definition define_alloc :: "string \<Rightarrow> string \<Rightarrow> registry \<Rightarrow> registry" where
  "define_alloc klass function r = r\<lparr>allocators := (klass, Some function) # allocators r\<rparr>"

definition undef_alloc :: "string \<Rightarrow> registry \<Rightarrow> registry" where
  "undef_alloc klass r = r\<lparr>allocators := (klass, None) # allocators r\<rparr>"

text \<open>Looking up along the superclasses, each of which was there before its subclasses.\<close>

fun find_up :: "(string \<Rightarrow> 'a option) \<Rightarrow> (string \<times> string) list \<Rightarrow> string \<Rightarrow> 'a option" where
  "find_up get [] klass = get klass"
| "find_up get ((name, super) # older) klass =
     (if name = klass then (case get klass of Some x \<Rightarrow> Some x | None \<Rightarrow> find_up get older super)
      else find_up get older klass)"

definition find_method :: "registry \<Rightarrow> string \<Rightarrow> string \<Rightarrow> (string \<times> int) option" where
  "find_method r klass name = find_up (\<lambda>c. map_of (methods r) (c, name)) (classes r) klass"

definition find_allocator :: "registry \<Rightarrow> string \<Rightarrow> string option" where
  "find_allocator r klass = Option.bind (find_up (map_of (allocators r)) (classes r) klass) (\<lambda>x. x)"

section \<open>Initialisation\<close>

definition esrb_init_field :: "registry \<Rightarrow> registry" where
  "esrb_init_field r =
  (let r = define_class ''NativeView'' ''Object'' r;
       r = undef_alloc ''NativeView'' r;
       r = define_method ''NativeView'' ''__read_field'' ''read_field'' 1 r;
       r = define_method ''NativeView'' ''__field_names'' ''field_names'' 0 r;
       r = define_method ''NativeView'' ''__schema_name'' ''schema_name'' 0 r;
       r = define_method ''NativeView'' ''__warn_on_truncated_path?'' ''warn_on_truncated_path'' 0 r;
       r = define_method ''NativeView'' ''__exec_values'' ''exec_values'' 1 r;
       r = define_class ''Event'' ''NativeView'' r;
       r = define_class ''Process'' ''NativeView'' r;
       r = define_class ''File'' ''NativeView'' r;
       r = define_class ''Thread'' ''NativeView'' r
   in r)"

definition esrb_init_message :: "registry \<Rightarrow> registry" where
  "esrb_init_message r =
  (let r = define_class ''Message'' ''Object'' r;
       r = undef_alloc ''Message'' r;
       r = define_method ''Message'' ''version'' ''message_version'' 0 r;
       r = define_method ''Message'' ''event_type'' ''message_event_type'' 0 r;
       r = define_method ''Message'' ''action_type'' ''message_action_type'' 0 r;
       r = define_method ''Message'' ''auth?'' ''message_auth_p'' 0 r;
       r = define_method ''Message'' ''deadline'' ''message_deadline'' 0 r;
       r = define_method ''Message'' ''mach_time'' ''message_mach_time'' 0 r;
       r = define_method ''Message'' ''seq_num'' ''message_seq_num'' 0 r;
       r = define_method ''Message'' ''global_seq_num'' ''message_global_seq_num'' 0 r;
       r = define_method ''Message'' ''time'' ''message_time'' 0 r;
       r = define_method ''Message'' ''process'' ''message_process'' 0 r;
       r = define_method ''Message'' ''thread'' ''message_thread'' 0 r;
       r = define_method ''Message'' ''event'' ''message_event'' 0 r;
       r = define_method ''Message'' ''result'' ''message_result'' 0 r;
       r = define_method ''Message'' ''raw_event_bytes'' ''message_raw_event_bytes'' 0 r;
       r = define_method ''Message'' ''raw_pointer'' ''message_raw_pointer'' 0 r;
       r = define_method ''Message'' ''time_left'' ''message_time_left'' 0 r;
       r = define_method ''Message'' ''answered?'' ''message_answered_p'' 0 r;
       r = define_method ''Message'' ''allow!'' ''message_allow'' (-1) r;
       r = define_method ''Message'' ''deny!'' ''message_deny'' (-1) r;
       r = define_method ''Message'' ''respond'' ''message_respond'' (-1) r;
       r = define_method ''Message'' ''retain!'' ''message_retain'' 0 r;
       r = define_method ''Message'' ''release!'' ''message_release_bang'' 0 r;
       r = define_method ''Message'' ''valid?'' ''message_valid_p'' 0 r;
       r = define_method ''Message'' ''__warn_on_truncated_path?'' ''message_warn_on_truncated_path'' 0 r;
       r = define_method ''Message'' ''__respond_default!'' ''message_respond_default'' 0 r;
       r = define_method ''Message'' ''__auto_release!'' ''message_auto_release'' 0 r
   in r)"

definition esrb_init_mute :: "string \<Rightarrow> registry \<Rightarrow> registry" where
  "esrb_init_mute client_class r =
  (let r = define_method client_class ''__mute_path'' ''mute_path'' 4 r;
       r = define_method client_class ''__mute_process'' ''mute_process'' 3 r;
       r = define_method client_class ''__unmute_all_paths'' ''unmute_all'' 1 r;
       r = define_method client_class ''__invert_muting'' ''invert_muting'' 1 r;
       r = define_method client_class ''__muting_inverted'' ''muting_inverted'' 1 r;
       r = define_method client_class ''__clear_cache'' ''clear_cache'' 0 r;
       r = define_method client_class ''__muted_paths'' ''muted_paths'' 0 r;
       r = define_method client_class ''__muted_processes'' ''muted_processes'' 0 r;
       r = define_method client_class ''__audit_token_for_pid'' ''audit_token_for_pid'' 1 r
   in r)"

text \<open>\<open>mock\<close> is the build option ESRB_MOCK.\<close>

definition esrb_init_client :: "bool \<Rightarrow> registry \<Rightarrow> registry" where
  "esrb_init_client mock r =
  (let r = define_class ''Client'' ''Object'' r;
       r = define_alloc ''Client'' ''client_allocate'' r;
       r = define_method ''Client'' ''initialize'' ''client_initialize'' (-1) r;
       r = define_method ''Client'' ''close'' ''client_close'' 0 r;
       r = define_method ''Client'' ''closed?'' ''client_closed_p'' 0 r;
       r = define_method ''Client'' ''__wakeup_fd'' ''client_wakeup_fd'' 0 r;
       r = define_method ''Client'' ''__wake'' ''client_wake'' 0 r;
       r = define_method ''Client'' ''__drain'' ''client_drain'' (-1) r;
       r = define_method ''Client'' ''__subscribe'' ''client_subscribe'' 1 r;
       r = define_method ''Client'' ''__unsubscribe'' ''client_unsubscribe'' 1 r;
       r = define_method ''Client'' ''__subscriptions'' ''client_subscriptions'' 0 r;
       r = define_method ''Client'' ''stats'' ''client_stats'' 0 r;
       r = esrb_init_mute ''Client'' r
   in if mock then
    (let r = define_module ''Mock'' r;
         r = define_singleton_method ''Mock'' ''inject'' ''mock_inject'' (-1) r;
         r = define_singleton_method ''Mock'' ''response_count'' ''mock_response_count'' 0 r;
         r = define_singleton_method ''Mock'' ''last_response'' ''mock_last_response'' 0 r;
         r = define_singleton_method ''Mock'' ''client_count'' ''mock_client_count'' 0 r;
         r = define_singleton_method ''Mock'' ''delete_on_creator_thread?'' ''mock_delete_on_creator_thread'' 0 r;
         r = define_singleton_method ''Mock'' ''new_client_result='' ''mock_set_new_client_result'' 1 r;
         r = define_singleton_method ''Mock'' ''respond_result='' ''mock_set_respond_result'' 1 r;
         r = define_singleton_method ''Mock'' ''delete_result='' ''mock_set_delete_result'' 1 r;
         r = define_singleton_method ''Mock'' ''reset'' ''mock_reset'' 0 r
     in r)
   else r)"

definition Init_endpoint_security :: "bool \<Rightarrow> registry" where
  "Init_endpoint_security mock =
     (let r = define_module ''EndpointSecurity'' empty_registry;
          r = esrb_init_field r;
          r = esrb_init_message r;
          r = esrb_init_client mock r
      in r)"

section \<open>Arities\<close>

text \<open>How a C function is declared: with argc, argv and self, or with self and so many values.\<close>

datatype prototype = Argv | Values nat

definition prototypes :: "(string \<times> prototype) list" where
  "prototypes =
   [(''read_field'', Values 1), (''field_names'', Values 0), (''schema_name'', Values 0),
     (''warn_on_truncated_path'', Values 0), (''exec_values'', Values 1),
     (''message_version'', Values 0), (''message_event_type'', Values 0),
     (''message_action_type'', Values 0), (''message_auth_p'', Values 0),
     (''message_deadline'', Values 0), (''message_mach_time'', Values 0),
     (''message_seq_num'', Values 0), (''message_global_seq_num'', Values 0),
     (''message_time'', Values 0), (''message_process'', Values 0), (''message_thread'', Values 0),
     (''message_event'', Values 0), (''message_result'', Values 0),
     (''message_raw_event_bytes'', Values 0), (''message_raw_pointer'', Values 0),
     (''message_time_left'', Values 0), (''message_answered_p'', Values 0), (''message_allow'', Argv),
     (''message_deny'', Argv), (''message_respond'', Argv), (''message_retain'', Values 0),
     (''message_release_bang'', Values 0), (''message_valid_p'', Values 0),
     (''message_warn_on_truncated_path'', Values 0), (''message_respond_default'', Values 0),
     (''message_auto_release'', Values 0), (''mute_path'', Values 4), (''mute_process'', Values 3),
     (''unmute_all'', Values 1), (''invert_muting'', Values 1), (''muting_inverted'', Values 1),
     (''clear_cache'', Values 0), (''muted_paths'', Values 0), (''muted_processes'', Values 0),
     (''audit_token_for_pid'', Values 1), (''client_initialize'', Argv), (''client_close'', Values 0),
     (''client_closed_p'', Values 0), (''client_wakeup_fd'', Values 0), (''client_wake'', Values 0),
     (''client_drain'', Argv), (''client_subscribe'', Values 1), (''client_unsubscribe'', Values 1),
     (''client_subscriptions'', Values 0), (''client_stats'', Values 0), (''mock_inject'', Argv),
     (''mock_response_count'', Values 0), (''mock_last_response'', Values 0),
     (''mock_client_count'', Values 0), (''mock_delete_on_creator_thread'', Values 0),
     (''mock_set_new_client_result'', Values 1), (''mock_set_respond_result'', Values 1),
     (''mock_set_delete_result'', Values 1), (''mock_reset'', Values 0)]"

text \<open>Ruby passes argc, argv and self for the arity -1, and self and so many values for the others.\<close>

definition called_as :: "int \<Rightarrow> prototype \<Rightarrow> bool" where
  "called_as arity p = (case p of Argv \<Rightarrow> arity = -1 | Values n \<Rightarrow> arity = int n)"

definition arity_ok :: "(string \<times> string) \<times> (string \<times> int) \<Rightarrow> bool" where
  "arity_ok row = (case row of (_, (function, arity)) \<Rightarrow>
     (case map_of prototypes function of None \<Rightarrow> False | Some p \<Rightarrow> called_as arity p))"

text \<open>The methods the Ruby library calls on the views, whatever their class.\<close>

definition view_methods :: "string list" where
  "view_methods = [''__read_field'', ''__field_names'', ''__schema_name'', ''__warn_on_truncated_path?'',
     ''__exec_values'']"

lemma mock_adds_singletons:
  "methods (Init_endpoint_security mock) = methods (Init_endpoint_security False)"
  "classes (Init_endpoint_security mock) = classes (Init_endpoint_security False)"
  "allocators (Init_endpoint_security mock) = allocators (Init_endpoint_security False)"
  by (simp_all add: Init_endpoint_security_def esrb_init_client_def define_module_def define_singleton_method_def Let_def)

definition calls_fit :: "registry \<Rightarrow> bool" where
  "calls_fit r \<longleftrightarrow> list_all arity_ok (methods r @ singletons r)"

definition no_redefinition :: "registry \<Rightarrow> bool" where
  "no_redefinition r \<longleftrightarrow>
     distinct (map fst (methods r)) \<and> distinct (map fst (singletons r)) \<and> distinct (map fst (classes r))"

definition views_complete :: "registry \<Rightarrow> bool" where
  "views_complete r \<longleftrightarrow>
     list_all (\<lambda>c. list_all (\<lambda>m. find_method r c m = find_method r ''NativeView'' m \<and>
       find_method r c m \<noteq> None) view_methods) [''Event'', ''Process'', ''File'', ''Thread'']"

definition only_clients_allocated :: "registry \<Rightarrow> bool" where
  "only_clients_allocated r \<longleftrightarrow>
     list_all (\<lambda>c. find_allocator r c = (if c = ''Client'' then Some ''client_allocate'' else None))
       (map fst (classes r))"


end
