(* ===== verification/Es_Schema.thy ===== *)
theory Es_Schema
  imports Field_Model
begin

text \<open>
  The tables of generated/es_schema.c, one definition per array, in the order of the file. \<open>off\<close> stands for
  \<open>offsetof\<close> and \<open>sz\<close> for \<open>sizeof\<close>, which only the platform's headers fix.
\<close>

type_synonym layout = "string \<Rightarrow> string \<Rightarrow> uint64"

definition entry :: "string \<Rightarrow> string \<Rightarrow> uint64 \<Rightarrow> uint32 \<Rightarrow> esrb_field" where
  "entry name type offset version =
     \<lparr>field_name = name, field_type = type, field_offset = offset, field_minimum_version = version\<rparr>"

definition schema_entry :: "string \<Rightarrow> esrb_field list \<Rightarrow> esrb_schema" where
  "schema_entry name members = \<lparr>schema_name = name, schema_fields = members\<rparr>"

definition event_entry :: "int \<Rightarrow> uint64 \<Rightarrow> string \<Rightarrow> uint64 \<Rightarrow> bool \<Rightarrow> esrb_event_schema" where
  "event_entry type offset schema bytes indirect =
     \<lparr>row_event_type = type, row_offset = offset, row_schema = schema, row_size = bytes, row_indirect = indirect\<rparr>"

section \<open>Fields\<close>

definition fields_es_token_t :: "layout \<Rightarrow> esrb_field list" where
  "fields_es_token_t off =
     [entry ''size'' ''unsigned long'' (off ''es_token_t'' ''size'') 1,
      entry ''data'' ''const uint8_t *'' (off ''es_token_t'' ''data'') 1]"

definition fields_es_string_token_t :: "layout \<Rightarrow> esrb_field list" where
  "fields_es_string_token_t off =
     [entry ''length'' ''unsigned long'' (off ''es_string_token_t'' ''length'') 1,
      entry ''data'' ''const char *'' (off ''es_string_token_t'' ''data'') 1]"

definition fields_es_muted_path_t :: "layout \<Rightarrow> esrb_field list" where
  "fields_es_muted_path_t off =
     [entry ''type'' ''es_mute_path_type_t'' (off ''es_muted_path_t'' ''type'') 1,
      entry ''event_count'' ''unsigned long'' (off ''es_muted_path_t'' ''event_count'') 1,
      entry ''events'' ''const es_event_type_t *'' (off ''es_muted_path_t'' ''events'') 1,
      entry ''path'' ''es_string_token_t'' (off ''es_muted_path_t'' ''path'') 1]"

definition fields_es_muted_paths_t :: "layout \<Rightarrow> esrb_field list" where
  "fields_es_muted_paths_t off =
     [entry ''count'' ''unsigned long'' (off ''es_muted_paths_t'' ''count'') 1,
      entry ''paths'' ''const es_muted_path_t *'' (off ''es_muted_paths_t'' ''paths'') 1]"

definition fields_es_muted_process_t :: "layout \<Rightarrow> esrb_field list" where
  "fields_es_muted_process_t off =
     [entry ''audit_token'' ''audit_token_t'' (off ''es_muted_process_t'' ''audit_token'') 1,
      entry ''event_count'' ''unsigned long'' (off ''es_muted_process_t'' ''event_count'') 1,
      entry ''events'' ''const es_event_type_t *'' (off ''es_muted_process_t'' ''events'') 1]"

definition fields_es_muted_processes_t :: "layout \<Rightarrow> esrb_field list" where
  "fields_es_muted_processes_t off =
     [entry ''count'' ''unsigned long'' (off ''es_muted_processes_t'' ''count'') 1,
      entry ''processes'' ''const es_muted_process_t *'' (off ''es_muted_processes_t'' ''processes'') 1]"

definition fields_es_signed_file_info_t :: "layout \<Rightarrow> esrb_field list" where
  "fields_es_signed_file_info_t off =
     [entry ''cdhash'' ''uint8_t[20]'' (off ''es_signed_file_info_t'' ''cdhash'') 1,
      entry ''signing_id'' ''es_string_token_t'' (off ''es_signed_file_info_t'' ''signing_id'') 1,
      entry ''team_id'' ''es_string_token_t'' (off ''es_signed_file_info_t'' ''team_id'') 1]"

definition fields_es_file_t :: "layout \<Rightarrow> esrb_field list" where
  "fields_es_file_t off =
     [entry ''path'' ''es_string_token_t'' (off ''es_file_t'' ''path'') 1,
      entry ''path_truncated'' ''bool'' (off ''es_file_t'' ''path_truncated'') 1,
      entry ''stat'' ''struct stat'' (off ''es_file_t'' ''stat'') 1]"

definition fields_es_process_t :: "layout \<Rightarrow> esrb_field list" where
  "fields_es_process_t off =
     [entry ''audit_token'' ''audit_token_t'' (off ''es_process_t'' ''audit_token'') 1,
      entry ''ppid'' ''int'' (off ''es_process_t'' ''ppid'') 1,
      entry ''original_ppid'' ''int'' (off ''es_process_t'' ''original_ppid'') 1,
      entry ''group_id'' ''int'' (off ''es_process_t'' ''group_id'') 1,
      entry ''session_id'' ''int'' (off ''es_process_t'' ''session_id'') 1,
      entry ''codesigning_flags'' ''unsigned int'' (off ''es_process_t'' ''codesigning_flags'') 1,
      entry ''is_platform_binary'' ''bool'' (off ''es_process_t'' ''is_platform_binary'') 1,
      entry ''is_es_client'' ''bool'' (off ''es_process_t'' ''is_es_client'') 1,
      entry ''cdhash'' ''uint8_t[20]'' (off ''es_process_t'' ''cdhash'') 1,
      entry ''signing_id'' ''es_string_token_t'' (off ''es_process_t'' ''signing_id'') 1,
      entry ''team_id'' ''es_string_token_t'' (off ''es_process_t'' ''team_id'') 1,
      entry ''executable'' ''es_file_t *'' (off ''es_process_t'' ''executable'') 1,
      entry ''tty'' ''es_file_t *'' (off ''es_process_t'' ''tty'') 2,
      entry ''start_time'' ''struct timeval'' (off ''es_process_t'' ''start_time'') 3,
      entry ''responsible_audit_token'' ''audit_token_t'' (off ''es_process_t'' ''responsible_audit_token'') 4,
      entry ''parent_audit_token'' ''audit_token_t'' (off ''es_process_t'' ''parent_audit_token'') 4,
      entry ''cs_validation_category'' ''es_cs_validation_category_t'' (off ''es_process_t'' ''cs_validation_category'') 10]"

definition fields_es_thread_t :: "layout \<Rightarrow> esrb_field list" where
  "fields_es_thread_t off =
     [entry ''thread_id'' ''unsigned long long'' (off ''es_thread_t'' ''thread_id'') 1]"

definition fields_es_thread_state_t :: "layout \<Rightarrow> esrb_field list" where
  "fields_es_thread_state_t off =
     [entry ''flavor'' ''int'' (off ''es_thread_state_t'' ''flavor'') 1,
      entry ''state'' ''es_token_t'' (off ''es_thread_state_t'' ''state'') 1]"

definition fields_es_fd_t :: "layout \<Rightarrow> esrb_field list" where
  "fields_es_fd_t off =
     [entry ''fd'' ''int'' (off ''es_fd_t'' ''fd'') 1,
      entry ''fdtype'' ''unsigned int'' (off ''es_fd_t'' ''fdtype'') 1,
      entry ''pipe'' ''struct es_fd_t::(anonymous)'' (off ''es_fd_t'' ''pipe'') 1]"

definition fields_es_btm_launch_item_t :: "layout \<Rightarrow> esrb_field list" where
  "fields_es_btm_launch_item_t off =
     [entry ''item_type'' ''es_btm_item_type_t'' (off ''es_btm_launch_item_t'' ''item_type'') 1,
      entry ''legacy'' ''bool'' (off ''es_btm_launch_item_t'' ''legacy'') 1,
      entry ''managed'' ''bool'' (off ''es_btm_launch_item_t'' ''managed'') 1,
      entry ''uid'' ''unsigned int'' (off ''es_btm_launch_item_t'' ''uid'') 1,
      entry ''item_url'' ''es_string_token_t'' (off ''es_btm_launch_item_t'' ''item_url'') 1,
      entry ''app_url'' ''es_string_token_t'' (off ''es_btm_launch_item_t'' ''app_url'') 1]"

definition fields_es_profile_t :: "layout \<Rightarrow> esrb_field list" where
  "fields_es_profile_t off =
     [entry ''identifier'' ''es_string_token_t'' (off ''es_profile_t'' ''identifier'') 1,
      entry ''uuid'' ''es_string_token_t'' (off ''es_profile_t'' ''uuid'') 1,
      entry ''install_source'' ''es_profile_source_t'' (off ''es_profile_t'' ''install_source'') 1,
      entry ''organization'' ''es_string_token_t'' (off ''es_profile_t'' ''organization'') 1,
      entry ''display_name'' ''es_string_token_t'' (off ''es_profile_t'' ''display_name'') 1,
      entry ''scope'' ''es_string_token_t'' (off ''es_profile_t'' ''scope'') 1]"

definition fields_es_event_exec_t :: "layout \<Rightarrow> esrb_field list" where
  "fields_es_event_exec_t off =
     [entry ''target'' ''es_process_t *'' (off ''es_event_exec_t'' ''target'') 1,
      entry ''dyld_exec_path'' ''es_string_token_t'' (off ''es_event_exec_t'' ''dyld_exec_path'') 7,
      entry ''script'' ''es_file_t *'' (off ''es_event_exec_t'' ''script'') 2,
      entry ''cwd'' ''es_file_t *'' (off ''es_event_exec_t'' ''cwd'') 3,
      entry ''last_fd'' ''int'' (off ''es_event_exec_t'' ''last_fd'') 4,
      entry ''image_cputype'' ''int'' (off ''es_event_exec_t'' ''image_cputype'') 6,
      entry ''image_cpusubtype'' ''int'' (off ''es_event_exec_t'' ''image_cpusubtype'') 6]"

definition fields_es_event_tcc_modify_t :: "layout \<Rightarrow> esrb_field list" where
  "fields_es_event_tcc_modify_t off =
     [entry ''service'' ''es_string_token_t'' (off ''es_event_tcc_modify_t'' ''service'') 1,
      entry ''identity'' ''es_string_token_t'' (off ''es_event_tcc_modify_t'' ''identity'') 1,
      entry ''identity_type'' ''es_tcc_identity_type_t'' (off ''es_event_tcc_modify_t'' ''identity_type'') 1,
      entry ''update_type'' ''es_tcc_event_type_t'' (off ''es_event_tcc_modify_t'' ''update_type'') 1,
      entry ''instigator_token'' ''audit_token_t'' (off ''es_event_tcc_modify_t'' ''instigator_token'') 1,
      entry ''instigator'' ''es_process_t *'' (off ''es_event_tcc_modify_t'' ''instigator'') 1,
      entry ''responsible_token'' ''audit_token_t *'' (off ''es_event_tcc_modify_t'' ''responsible_token'') 1,
      entry ''responsible'' ''es_process_t *'' (off ''es_event_tcc_modify_t'' ''responsible'') 1,
      entry ''right'' ''es_tcc_authorization_right_t'' (off ''es_event_tcc_modify_t'' ''right'') 1,
      entry ''reason'' ''es_tcc_authorization_reason_t'' (off ''es_event_tcc_modify_t'' ''reason'') 1]"

definition fields_es_event_open_t :: "layout \<Rightarrow> esrb_field list" where
  "fields_es_event_open_t off =
     [entry ''fflag'' ''int'' (off ''es_event_open_t'' ''fflag'') 1,
      entry ''file'' ''es_file_t *'' (off ''es_event_open_t'' ''file'') 1]"

definition fields_es_event_kextload_t :: "layout \<Rightarrow> esrb_field list" where
  "fields_es_event_kextload_t off =
     [entry ''identifier'' ''es_string_token_t'' (off ''es_event_kextload_t'' ''identifier'') 1]"

definition fields_es_event_kextunload_t :: "layout \<Rightarrow> esrb_field list" where
  "fields_es_event_kextunload_t off =
     [entry ''identifier'' ''es_string_token_t'' (off ''es_event_kextunload_t'' ''identifier'') 1]"

definition fields_es_event_unlink_t :: "layout \<Rightarrow> esrb_field list" where
  "fields_es_event_unlink_t off =
     [entry ''target'' ''es_file_t *'' (off ''es_event_unlink_t'' ''target'') 1,
      entry ''parent_dir'' ''es_file_t *'' (off ''es_event_unlink_t'' ''parent_dir'') 1]"

definition fields_es_event_mmap_t :: "layout \<Rightarrow> esrb_field list" where
  "fields_es_event_mmap_t off =
     [entry ''protection'' ''int'' (off ''es_event_mmap_t'' ''protection'') 1,
      entry ''max_protection'' ''int'' (off ''es_event_mmap_t'' ''max_protection'') 1,
      entry ''flags'' ''int'' (off ''es_event_mmap_t'' ''flags'') 1,
      entry ''file_pos'' ''unsigned long long'' (off ''es_event_mmap_t'' ''file_pos'') 1,
      entry ''source'' ''es_file_t *'' (off ''es_event_mmap_t'' ''source'') 1]"

definition fields_es_event_link_t :: "layout \<Rightarrow> esrb_field list" where
  "fields_es_event_link_t off =
     [entry ''source'' ''es_file_t *'' (off ''es_event_link_t'' ''source'') 1,
      entry ''target_dir'' ''es_file_t *'' (off ''es_event_link_t'' ''target_dir'') 1,
      entry ''target_filename'' ''es_string_token_t'' (off ''es_event_link_t'' ''target_filename'') 1]"

definition fields_es_event_mount_t :: "layout \<Rightarrow> esrb_field list" where
  "fields_es_event_mount_t off =
     [entry ''statfs'' ''struct statfs *'' (off ''es_event_mount_t'' ''statfs'') 1,
      entry ''disposition'' ''es_mount_disposition_t'' (off ''es_event_mount_t'' ''disposition'') 8]"

definition fields_es_event_unmount_t :: "layout \<Rightarrow> esrb_field list" where
  "fields_es_event_unmount_t off =
     [entry ''statfs'' ''struct statfs *'' (off ''es_event_unmount_t'' ''statfs'') 1]"

definition fields_es_event_remount_t :: "layout \<Rightarrow> esrb_field list" where
  "fields_es_event_remount_t off =
     [entry ''statfs'' ''struct statfs *'' (off ''es_event_remount_t'' ''statfs'') 1,
      entry ''remount_flags'' ''unsigned long long'' (off ''es_event_remount_t'' ''remount_flags'') 8,
      entry ''disposition'' ''es_mount_disposition_t'' (off ''es_event_remount_t'' ''disposition'') 8]"

definition fields_es_event_fork_t :: "layout \<Rightarrow> esrb_field list" where
  "fields_es_event_fork_t off =
     [entry ''child'' ''es_process_t *'' (off ''es_event_fork_t'' ''child'') 1]"

definition fields_es_event_mprotect_t :: "layout \<Rightarrow> esrb_field list" where
  "fields_es_event_mprotect_t off =
     [entry ''protection'' ''int'' (off ''es_event_mprotect_t'' ''protection'') 1,
      entry ''address'' ''unsigned long long'' (off ''es_event_mprotect_t'' ''address'') 1,
      entry ''size'' ''unsigned long long'' (off ''es_event_mprotect_t'' ''size'') 1]"

definition fields_es_event_signal_t :: "layout \<Rightarrow> esrb_field list" where
  "fields_es_event_signal_t off =
     [entry ''sig'' ''int'' (off ''es_event_signal_t'' ''sig'') 1,
      entry ''target'' ''es_process_t *'' (off ''es_event_signal_t'' ''target'') 1,
      entry ''instigator'' ''es_process_t *'' (off ''es_event_signal_t'' ''instigator'') 9]"

definition fields_es_event_rename_t :: "layout \<Rightarrow> esrb_field list" where
  "fields_es_event_rename_t off =
     [entry ''source'' ''es_file_t *'' (off ''es_event_rename_t'' ''source'') 1,
      entry ''destination_type'' ''es_destination_type_t'' (off ''es_event_rename_t'' ''destination_type'') 1,
      entry ''destination'' ''union es_event_rename_t::(anonymous)'' (off ''es_event_rename_t'' ''destination'') 1]"

definition fields_es_event_setextattr_t :: "layout \<Rightarrow> esrb_field list" where
  "fields_es_event_setextattr_t off =
     [entry ''target'' ''es_file_t *'' (off ''es_event_setextattr_t'' ''target'') 1,
      entry ''extattr'' ''es_string_token_t'' (off ''es_event_setextattr_t'' ''extattr'') 1]"

definition fields_es_event_getextattr_t :: "layout \<Rightarrow> esrb_field list" where
  "fields_es_event_getextattr_t off =
     [entry ''target'' ''es_file_t *'' (off ''es_event_getextattr_t'' ''target'') 1,
      entry ''extattr'' ''es_string_token_t'' (off ''es_event_getextattr_t'' ''extattr'') 1]"

definition fields_es_event_deleteextattr_t :: "layout \<Rightarrow> esrb_field list" where
  "fields_es_event_deleteextattr_t off =
     [entry ''target'' ''es_file_t *'' (off ''es_event_deleteextattr_t'' ''target'') 1,
      entry ''extattr'' ''es_string_token_t'' (off ''es_event_deleteextattr_t'' ''extattr'') 1]"

definition fields_es_event_setmode_t :: "layout \<Rightarrow> esrb_field list" where
  "fields_es_event_setmode_t off =
     [entry ''mode'' ''unsigned short'' (off ''es_event_setmode_t'' ''mode'') 1,
      entry ''target'' ''es_file_t *'' (off ''es_event_setmode_t'' ''target'') 1]"

definition fields_es_event_setflags_t :: "layout \<Rightarrow> esrb_field list" where
  "fields_es_event_setflags_t off =
     [entry ''flags'' ''unsigned int'' (off ''es_event_setflags_t'' ''flags'') 1,
      entry ''target'' ''es_file_t *'' (off ''es_event_setflags_t'' ''target'') 1]"

definition fields_es_event_setowner_t :: "layout \<Rightarrow> esrb_field list" where
  "fields_es_event_setowner_t off =
     [entry ''uid'' ''unsigned int'' (off ''es_event_setowner_t'' ''uid'') 1,
      entry ''gid'' ''unsigned int'' (off ''es_event_setowner_t'' ''gid'') 1,
      entry ''target'' ''es_file_t *'' (off ''es_event_setowner_t'' ''target'') 1]"

definition fields_es_event_close_t :: "layout \<Rightarrow> esrb_field list" where
  "fields_es_event_close_t off =
     [entry ''modified'' ''bool'' (off ''es_event_close_t'' ''modified'') 1,
      entry ''target'' ''es_file_t *'' (off ''es_event_close_t'' ''target'') 1,
      entry ''was_mapped_writable'' ''bool'' (off ''es_event_close_t'' ''was_mapped_writable'') 6]"

definition fields_es_event_create_t :: "layout \<Rightarrow> esrb_field list" where
  "fields_es_event_create_t off =
     [entry ''destination_type'' ''es_destination_type_t'' (off ''es_event_create_t'' ''destination_type'') 1,
      entry ''destination'' ''union es_event_create_t::(anonymous)'' (off ''es_event_create_t'' ''destination'') 1,
      entry ''acl'' ''struct _acl *'' (off ''es_event_create_t'' ''acl'') 2]"

definition fields_es_event_exit_t :: "layout \<Rightarrow> esrb_field list" where
  "fields_es_event_exit_t off =
     [entry ''stat'' ''int'' (off ''es_event_exit_t'' ''stat'') 1]"

definition fields_es_event_exchangedata_t :: "layout \<Rightarrow> esrb_field list" where
  "fields_es_event_exchangedata_t off =
     [entry ''file1'' ''es_file_t *'' (off ''es_event_exchangedata_t'' ''file1'') 1,
      entry ''file2'' ''es_file_t *'' (off ''es_event_exchangedata_t'' ''file2'') 1]"

definition fields_es_event_write_t :: "layout \<Rightarrow> esrb_field list" where
  "fields_es_event_write_t off =
     [entry ''target'' ''es_file_t *'' (off ''es_event_write_t'' ''target'') 1]"

definition fields_es_event_truncate_t :: "layout \<Rightarrow> esrb_field list" where
  "fields_es_event_truncate_t off =
     [entry ''target'' ''es_file_t *'' (off ''es_event_truncate_t'' ''target'') 1]"

definition fields_es_event_chdir_t :: "layout \<Rightarrow> esrb_field list" where
  "fields_es_event_chdir_t off =
     [entry ''target'' ''es_file_t *'' (off ''es_event_chdir_t'' ''target'') 1]"

definition fields_es_event_stat_t :: "layout \<Rightarrow> esrb_field list" where
  "fields_es_event_stat_t off =
     [entry ''target'' ''es_file_t *'' (off ''es_event_stat_t'' ''target'') 1]"

definition fields_es_event_chroot_t :: "layout \<Rightarrow> esrb_field list" where
  "fields_es_event_chroot_t off =
     [entry ''target'' ''es_file_t *'' (off ''es_event_chroot_t'' ''target'') 1]"

definition fields_es_event_listextattr_t :: "layout \<Rightarrow> esrb_field list" where
  "fields_es_event_listextattr_t off =
     [entry ''target'' ''es_file_t *'' (off ''es_event_listextattr_t'' ''target'') 1]"

definition fields_es_event_iokit_open_t :: "layout \<Rightarrow> esrb_field list" where
  "fields_es_event_iokit_open_t off =
     [entry ''user_client_type'' ''unsigned int'' (off ''es_event_iokit_open_t'' ''user_client_type'') 1,
      entry ''user_client_class'' ''es_string_token_t'' (off ''es_event_iokit_open_t'' ''user_client_class'') 1,
      entry ''parent_registry_id'' ''unsigned long long'' (off ''es_event_iokit_open_t'' ''parent_registry_id'') 10,
      entry ''parent_path'' ''es_string_token_t'' (off ''es_event_iokit_open_t'' ''parent_path'') 10]"

definition fields_es_event_get_task_t :: "layout \<Rightarrow> esrb_field list" where
  "fields_es_event_get_task_t off =
     [entry ''target'' ''es_process_t *'' (off ''es_event_get_task_t'' ''target'') 1,
      entry ''type'' ''es_get_task_type_t'' (off ''es_event_get_task_t'' ''type'') 5]"

definition fields_es_event_get_task_read_t :: "layout \<Rightarrow> esrb_field list" where
  "fields_es_event_get_task_read_t off =
     [entry ''target'' ''es_process_t *'' (off ''es_event_get_task_read_t'' ''target'') 1,
      entry ''type'' ''es_get_task_type_t'' (off ''es_event_get_task_read_t'' ''type'') 5]"

definition fields_es_event_get_task_inspect_t :: "layout \<Rightarrow> esrb_field list" where
  "fields_es_event_get_task_inspect_t off =
     [entry ''target'' ''es_process_t *'' (off ''es_event_get_task_inspect_t'' ''target'') 1,
      entry ''type'' ''es_get_task_type_t'' (off ''es_event_get_task_inspect_t'' ''type'') 5]"

definition fields_es_event_get_task_name_t :: "layout \<Rightarrow> esrb_field list" where
  "fields_es_event_get_task_name_t off =
     [entry ''target'' ''es_process_t *'' (off ''es_event_get_task_name_t'' ''target'') 1,
      entry ''type'' ''es_get_task_type_t'' (off ''es_event_get_task_name_t'' ''type'') 5]"

definition fields_es_event_getattrlist_t :: "layout \<Rightarrow> esrb_field list" where
  "fields_es_event_getattrlist_t off =
     [entry ''attrlist'' ''struct attrlist'' (off ''es_event_getattrlist_t'' ''attrlist'') 1,
      entry ''target'' ''es_file_t *'' (off ''es_event_getattrlist_t'' ''target'') 1]"

definition fields_es_event_setattrlist_t :: "layout \<Rightarrow> esrb_field list" where
  "fields_es_event_setattrlist_t off =
     [entry ''attrlist'' ''struct attrlist'' (off ''es_event_setattrlist_t'' ''attrlist'') 1,
      entry ''target'' ''es_file_t *'' (off ''es_event_setattrlist_t'' ''target'') 1]"

definition fields_es_event_file_provider_update_t :: "layout \<Rightarrow> esrb_field list" where
  "fields_es_event_file_provider_update_t off =
     [entry ''source'' ''es_file_t *'' (off ''es_event_file_provider_update_t'' ''source'') 1,
      entry ''target_path'' ''es_string_token_t'' (off ''es_event_file_provider_update_t'' ''target_path'') 1]"

definition fields_es_event_file_provider_materialize_t :: "layout \<Rightarrow> esrb_field list" where
  "fields_es_event_file_provider_materialize_t off =
     [entry ''instigator'' ''es_process_t *'' (off ''es_event_file_provider_materialize_t'' ''instigator'') 1,
      entry ''source'' ''es_file_t *'' (off ''es_event_file_provider_materialize_t'' ''source'') 1,
      entry ''target'' ''es_file_t *'' (off ''es_event_file_provider_materialize_t'' ''target'') 1,
      entry ''instigator_token'' ''audit_token_t'' (off ''es_event_file_provider_materialize_t'' ''instigator_token'') 8]"

definition fields_es_event_readlink_t :: "layout \<Rightarrow> esrb_field list" where
  "fields_es_event_readlink_t off =
     [entry ''source'' ''es_file_t *'' (off ''es_event_readlink_t'' ''source'') 1]"

definition fields_es_event_lookup_t :: "layout \<Rightarrow> esrb_field list" where
  "fields_es_event_lookup_t off =
     [entry ''source_dir'' ''es_file_t *'' (off ''es_event_lookup_t'' ''source_dir'') 1,
      entry ''relative_target'' ''es_string_token_t'' (off ''es_event_lookup_t'' ''relative_target'') 1]"

definition fields_es_event_access_t :: "layout \<Rightarrow> esrb_field list" where
  "fields_es_event_access_t off =
     [entry ''mode'' ''int'' (off ''es_event_access_t'' ''mode'') 1,
      entry ''target'' ''es_file_t *'' (off ''es_event_access_t'' ''target'') 1]"

definition fields_es_event_utimes_t :: "layout \<Rightarrow> esrb_field list" where
  "fields_es_event_utimes_t off =
     [entry ''target'' ''es_file_t *'' (off ''es_event_utimes_t'' ''target'') 1,
      entry ''atime'' ''struct timespec'' (off ''es_event_utimes_t'' ''atime'') 1,
      entry ''mtime'' ''struct timespec'' (off ''es_event_utimes_t'' ''mtime'') 1]"

definition fields_es_event_clone_t :: "layout \<Rightarrow> esrb_field list" where
  "fields_es_event_clone_t off =
     [entry ''source'' ''es_file_t *'' (off ''es_event_clone_t'' ''source'') 1,
      entry ''target_dir'' ''es_file_t *'' (off ''es_event_clone_t'' ''target_dir'') 1,
      entry ''target_name'' ''es_string_token_t'' (off ''es_event_clone_t'' ''target_name'') 1]"

definition fields_es_event_copyfile_t :: "layout \<Rightarrow> esrb_field list" where
  "fields_es_event_copyfile_t off =
     [entry ''source'' ''es_file_t *'' (off ''es_event_copyfile_t'' ''source'') 1,
      entry ''target_file'' ''es_file_t *'' (off ''es_event_copyfile_t'' ''target_file'') 1,
      entry ''target_dir'' ''es_file_t *'' (off ''es_event_copyfile_t'' ''target_dir'') 1,
      entry ''target_name'' ''es_string_token_t'' (off ''es_event_copyfile_t'' ''target_name'') 1,
      entry ''mode'' ''unsigned short'' (off ''es_event_copyfile_t'' ''mode'') 1,
      entry ''flags'' ''int'' (off ''es_event_copyfile_t'' ''flags'') 1]"

definition fields_es_event_fcntl_t :: "layout \<Rightarrow> esrb_field list" where
  "fields_es_event_fcntl_t off =
     [entry ''target'' ''es_file_t *'' (off ''es_event_fcntl_t'' ''target'') 1,
      entry ''cmd'' ''int'' (off ''es_event_fcntl_t'' ''cmd'') 1]"

definition fields_es_event_readdir_t :: "layout \<Rightarrow> esrb_field list" where
  "fields_es_event_readdir_t off =
     [entry ''target'' ''es_file_t *'' (off ''es_event_readdir_t'' ''target'') 1]"

definition fields_es_event_fsgetpath_t :: "layout \<Rightarrow> esrb_field list" where
  "fields_es_event_fsgetpath_t off =
     [entry ''target'' ''es_file_t *'' (off ''es_event_fsgetpath_t'' ''target'') 1]"

definition fields_es_event_dup_t :: "layout \<Rightarrow> esrb_field list" where
  "fields_es_event_dup_t off =
     [entry ''target'' ''es_file_t *'' (off ''es_event_dup_t'' ''target'') 1]"

definition fields_es_event_uipc_bind_t :: "layout \<Rightarrow> esrb_field list" where
  "fields_es_event_uipc_bind_t off =
     [entry ''dir'' ''es_file_t *'' (off ''es_event_uipc_bind_t'' ''dir'') 1,
      entry ''filename'' ''es_string_token_t'' (off ''es_event_uipc_bind_t'' ''filename'') 1,
      entry ''mode'' ''unsigned short'' (off ''es_event_uipc_bind_t'' ''mode'') 1]"

definition fields_es_event_uipc_connect_t :: "layout \<Rightarrow> esrb_field list" where
  "fields_es_event_uipc_connect_t off =
     [entry ''file'' ''es_file_t *'' (off ''es_event_uipc_connect_t'' ''file'') 1,
      entry ''domain'' ''int'' (off ''es_event_uipc_connect_t'' ''domain'') 1,
      entry ''type'' ''int'' (off ''es_event_uipc_connect_t'' ''type'') 1,
      entry ''protocol'' ''int'' (off ''es_event_uipc_connect_t'' ''protocol'') 1]"

definition fields_es_event_setacl_t :: "layout \<Rightarrow> esrb_field list" where
  "fields_es_event_setacl_t off =
     [entry ''target'' ''es_file_t *'' (off ''es_event_setacl_t'' ''target'') 1,
      entry ''set_or_clear'' ''es_set_or_clear_t'' (off ''es_event_setacl_t'' ''set_or_clear'') 1,
      entry ''acl'' ''union es_event_setacl_t::(anonymous)'' (off ''es_event_setacl_t'' ''acl'') 1]"

definition fields_es_event_pty_grant_t :: "layout \<Rightarrow> esrb_field list" where
  "fields_es_event_pty_grant_t off =
     [entry ''dev'' ''int'' (off ''es_event_pty_grant_t'' ''dev'') 1]"

definition fields_es_event_pty_close_t :: "layout \<Rightarrow> esrb_field list" where
  "fields_es_event_pty_close_t off =
     [entry ''dev'' ''int'' (off ''es_event_pty_close_t'' ''dev'') 1]"

definition fields_es_event_proc_check_t :: "layout \<Rightarrow> esrb_field list" where
  "fields_es_event_proc_check_t off =
     [entry ''target'' ''es_process_t *'' (off ''es_event_proc_check_t'' ''target'') 1,
      entry ''type'' ''es_proc_check_type_t'' (off ''es_event_proc_check_t'' ''type'') 1,
      entry ''flavor'' ''int'' (off ''es_event_proc_check_t'' ''flavor'') 1]"

definition fields_es_event_searchfs_t :: "layout \<Rightarrow> esrb_field list" where
  "fields_es_event_searchfs_t off =
     [entry ''attrlist'' ''struct attrlist'' (off ''es_event_searchfs_t'' ''attrlist'') 1,
      entry ''target'' ''es_file_t *'' (off ''es_event_searchfs_t'' ''target'') 1]"

definition fields_es_event_proc_suspend_resume_t :: "layout \<Rightarrow> esrb_field list" where
  "fields_es_event_proc_suspend_resume_t off =
     [entry ''target'' ''es_process_t *'' (off ''es_event_proc_suspend_resume_t'' ''target'') 1,
      entry ''type'' ''es_proc_suspend_resume_type_t'' (off ''es_event_proc_suspend_resume_t'' ''type'') 1]"

definition fields_es_event_trace_t :: "layout \<Rightarrow> esrb_field list" where
  "fields_es_event_trace_t off =
     [entry ''target'' ''es_process_t *'' (off ''es_event_trace_t'' ''target'') 1]"

definition fields_es_event_remote_thread_create_t :: "layout \<Rightarrow> esrb_field list" where
  "fields_es_event_remote_thread_create_t off =
     [entry ''target'' ''es_process_t *'' (off ''es_event_remote_thread_create_t'' ''target'') 1,
      entry ''thread_state'' ''es_thread_state_t *'' (off ''es_event_remote_thread_create_t'' ''thread_state'') 1]"

definition fields_es_event_setuid_t :: "layout \<Rightarrow> esrb_field list" where
  "fields_es_event_setuid_t off =
     [entry ''uid'' ''unsigned int'' (off ''es_event_setuid_t'' ''uid'') 1]"

definition fields_es_event_setgid_t :: "layout \<Rightarrow> esrb_field list" where
  "fields_es_event_setgid_t off =
     [entry ''gid'' ''unsigned int'' (off ''es_event_setgid_t'' ''gid'') 1]"

definition fields_es_event_seteuid_t :: "layout \<Rightarrow> esrb_field list" where
  "fields_es_event_seteuid_t off =
     [entry ''euid'' ''unsigned int'' (off ''es_event_seteuid_t'' ''euid'') 1]"

definition fields_es_event_setegid_t :: "layout \<Rightarrow> esrb_field list" where
  "fields_es_event_setegid_t off =
     [entry ''egid'' ''unsigned int'' (off ''es_event_setegid_t'' ''egid'') 1]"

definition fields_es_event_setreuid_t :: "layout \<Rightarrow> esrb_field list" where
  "fields_es_event_setreuid_t off =
     [entry ''ruid'' ''unsigned int'' (off ''es_event_setreuid_t'' ''ruid'') 1,
      entry ''euid'' ''unsigned int'' (off ''es_event_setreuid_t'' ''euid'') 1]"

definition fields_es_event_setregid_t :: "layout \<Rightarrow> esrb_field list" where
  "fields_es_event_setregid_t off =
     [entry ''rgid'' ''unsigned int'' (off ''es_event_setregid_t'' ''rgid'') 1,
      entry ''egid'' ''unsigned int'' (off ''es_event_setregid_t'' ''egid'') 1]"

definition fields_es_event_authentication_od_t :: "layout \<Rightarrow> esrb_field list" where
  "fields_es_event_authentication_od_t off =
     [entry ''instigator'' ''es_process_t *'' (off ''es_event_authentication_od_t'' ''instigator'') 1,
      entry ''record_type'' ''es_string_token_t'' (off ''es_event_authentication_od_t'' ''record_type'') 1,
      entry ''record_name'' ''es_string_token_t'' (off ''es_event_authentication_od_t'' ''record_name'') 1,
      entry ''node_name'' ''es_string_token_t'' (off ''es_event_authentication_od_t'' ''node_name'') 1,
      entry ''db_path'' ''es_string_token_t'' (off ''es_event_authentication_od_t'' ''db_path'') 1,
      entry ''instigator_token'' ''audit_token_t'' (off ''es_event_authentication_od_t'' ''instigator_token'') 8]"

definition fields_es_event_authentication_touchid_t :: "layout \<Rightarrow> esrb_field list" where
  "fields_es_event_authentication_touchid_t off =
     [entry ''instigator'' ''es_process_t *'' (off ''es_event_authentication_touchid_t'' ''instigator'') 1,
      entry ''touchid_mode'' ''es_touchid_mode_t'' (off ''es_event_authentication_touchid_t'' ''touchid_mode'') 1,
      entry ''has_uid'' ''bool'' (off ''es_event_authentication_touchid_t'' ''has_uid'') 1,
      entry ''uid'' ''union es_event_authentication_touchid_t::(anonymous)'' (off ''es_event_authentication_touchid_t'' ''uid'') 1,
      entry ''instigator_token'' ''audit_token_t'' (off ''es_event_authentication_touchid_t'' ''instigator_token'') 8]"

definition fields_es_event_authentication_token_t :: "layout \<Rightarrow> esrb_field list" where
  "fields_es_event_authentication_token_t off =
     [entry ''instigator'' ''es_process_t *'' (off ''es_event_authentication_token_t'' ''instigator'') 1,
      entry ''pubkey_hash'' ''es_string_token_t'' (off ''es_event_authentication_token_t'' ''pubkey_hash'') 1,
      entry ''token_id'' ''es_string_token_t'' (off ''es_event_authentication_token_t'' ''token_id'') 1,
      entry ''kerberos_principal'' ''es_string_token_t'' (off ''es_event_authentication_token_t'' ''kerberos_principal'') 1,
      entry ''instigator_token'' ''audit_token_t'' (off ''es_event_authentication_token_t'' ''instigator_token'') 8]"

definition fields_es_event_authentication_auto_unlock_t :: "layout \<Rightarrow> esrb_field list" where
  "fields_es_event_authentication_auto_unlock_t off =
     [entry ''username'' ''es_string_token_t'' (off ''es_event_authentication_auto_unlock_t'' ''username'') 1,
      entry ''type'' ''es_auto_unlock_type_t'' (off ''es_event_authentication_auto_unlock_t'' ''type'') 1]"

definition fields_es_event_authentication_t :: "layout \<Rightarrow> esrb_field list" where
  "fields_es_event_authentication_t off =
     [entry ''success'' ''bool'' (off ''es_event_authentication_t'' ''success'') 1,
      entry ''type'' ''es_authentication_type_t'' (off ''es_event_authentication_t'' ''type'') 1,
      entry ''data'' ''union es_event_authentication_t::(anonymous)'' (off ''es_event_authentication_t'' ''data'') 1]"

definition fields_es_event_xp_malware_detected_t :: "layout \<Rightarrow> esrb_field list" where
  "fields_es_event_xp_malware_detected_t off =
     [entry ''signature_version'' ''es_string_token_t'' (off ''es_event_xp_malware_detected_t'' ''signature_version'') 1,
      entry ''malware_identifier'' ''es_string_token_t'' (off ''es_event_xp_malware_detected_t'' ''malware_identifier'') 1,
      entry ''incident_identifier'' ''es_string_token_t'' (off ''es_event_xp_malware_detected_t'' ''incident_identifier'') 1,
      entry ''detected_path'' ''es_string_token_t'' (off ''es_event_xp_malware_detected_t'' ''detected_path'') 1,
      entry ''detected_executable'' ''es_string_token_t'' (off ''es_event_xp_malware_detected_t'' ''detected_executable'') 10]"

definition fields_es_event_xp_malware_remediated_t :: "layout \<Rightarrow> esrb_field list" where
  "fields_es_event_xp_malware_remediated_t off =
     [entry ''signature_version'' ''es_string_token_t'' (off ''es_event_xp_malware_remediated_t'' ''signature_version'') 1,
      entry ''malware_identifier'' ''es_string_token_t'' (off ''es_event_xp_malware_remediated_t'' ''malware_identifier'') 1,
      entry ''incident_identifier'' ''es_string_token_t'' (off ''es_event_xp_malware_remediated_t'' ''incident_identifier'') 1,
      entry ''action_type'' ''es_string_token_t'' (off ''es_event_xp_malware_remediated_t'' ''action_type'') 1,
      entry ''success'' ''bool'' (off ''es_event_xp_malware_remediated_t'' ''success'') 1,
      entry ''result_description'' ''es_string_token_t'' (off ''es_event_xp_malware_remediated_t'' ''result_description'') 1,
      entry ''remediated_path'' ''es_string_token_t'' (off ''es_event_xp_malware_remediated_t'' ''remediated_path'') 1,
      entry ''remediated_process_audit_token'' ''audit_token_t *'' (off ''es_event_xp_malware_remediated_t'' ''remediated_process_audit_token'') 1]"

definition fields_es_event_lw_session_login_t :: "layout \<Rightarrow> esrb_field list" where
  "fields_es_event_lw_session_login_t off =
     [entry ''username'' ''es_string_token_t'' (off ''es_event_lw_session_login_t'' ''username'') 1,
      entry ''graphical_session_id'' ''unsigned int'' (off ''es_event_lw_session_login_t'' ''graphical_session_id'') 1]"

definition fields_es_event_lw_session_logout_t :: "layout \<Rightarrow> esrb_field list" where
  "fields_es_event_lw_session_logout_t off =
     [entry ''username'' ''es_string_token_t'' (off ''es_event_lw_session_logout_t'' ''username'') 1,
      entry ''graphical_session_id'' ''unsigned int'' (off ''es_event_lw_session_logout_t'' ''graphical_session_id'') 1]"

definition fields_es_event_lw_session_lock_t :: "layout \<Rightarrow> esrb_field list" where
  "fields_es_event_lw_session_lock_t off =
     [entry ''username'' ''es_string_token_t'' (off ''es_event_lw_session_lock_t'' ''username'') 1,
      entry ''graphical_session_id'' ''unsigned int'' (off ''es_event_lw_session_lock_t'' ''graphical_session_id'') 1]"

definition fields_es_event_lw_session_unlock_t :: "layout \<Rightarrow> esrb_field list" where
  "fields_es_event_lw_session_unlock_t off =
     [entry ''username'' ''es_string_token_t'' (off ''es_event_lw_session_unlock_t'' ''username'') 1,
      entry ''graphical_session_id'' ''unsigned int'' (off ''es_event_lw_session_unlock_t'' ''graphical_session_id'') 1]"

definition fields_es_event_screensharing_attach_t :: "layout \<Rightarrow> esrb_field list" where
  "fields_es_event_screensharing_attach_t off =
     [entry ''success'' ''bool'' (off ''es_event_screensharing_attach_t'' ''success'') 1,
      entry ''source_address_type'' ''es_address_type_t'' (off ''es_event_screensharing_attach_t'' ''source_address_type'') 1,
      entry ''source_address'' ''es_string_token_t'' (off ''es_event_screensharing_attach_t'' ''source_address'') 1,
      entry ''viewer_appleid'' ''es_string_token_t'' (off ''es_event_screensharing_attach_t'' ''viewer_appleid'') 1,
      entry ''authentication_type'' ''es_string_token_t'' (off ''es_event_screensharing_attach_t'' ''authentication_type'') 1,
      entry ''authentication_username'' ''es_string_token_t'' (off ''es_event_screensharing_attach_t'' ''authentication_username'') 1,
      entry ''session_username'' ''es_string_token_t'' (off ''es_event_screensharing_attach_t'' ''session_username'') 1,
      entry ''existing_session'' ''bool'' (off ''es_event_screensharing_attach_t'' ''existing_session'') 1,
      entry ''graphical_session_id'' ''unsigned int'' (off ''es_event_screensharing_attach_t'' ''graphical_session_id'') 1]"

definition fields_es_event_screensharing_detach_t :: "layout \<Rightarrow> esrb_field list" where
  "fields_es_event_screensharing_detach_t off =
     [entry ''source_address_type'' ''es_address_type_t'' (off ''es_event_screensharing_detach_t'' ''source_address_type'') 1,
      entry ''source_address'' ''es_string_token_t'' (off ''es_event_screensharing_detach_t'' ''source_address'') 1,
      entry ''viewer_appleid'' ''es_string_token_t'' (off ''es_event_screensharing_detach_t'' ''viewer_appleid'') 1,
      entry ''graphical_session_id'' ''unsigned int'' (off ''es_event_screensharing_detach_t'' ''graphical_session_id'') 1]"

definition fields_es_event_openssh_login_t :: "layout \<Rightarrow> esrb_field list" where
  "fields_es_event_openssh_login_t off =
     [entry ''success'' ''bool'' (off ''es_event_openssh_login_t'' ''success'') 1,
      entry ''result_type'' ''es_openssh_login_result_type_t'' (off ''es_event_openssh_login_t'' ''result_type'') 1,
      entry ''source_address_type'' ''es_address_type_t'' (off ''es_event_openssh_login_t'' ''source_address_type'') 1,
      entry ''source_address'' ''es_string_token_t'' (off ''es_event_openssh_login_t'' ''source_address'') 1,
      entry ''username'' ''es_string_token_t'' (off ''es_event_openssh_login_t'' ''username'') 1,
      entry ''has_uid'' ''bool'' (off ''es_event_openssh_login_t'' ''has_uid'') 1,
      entry ''uid'' ''union es_event_openssh_login_t::(anonymous)'' (off ''es_event_openssh_login_t'' ''uid'') 1]"

definition fields_es_event_openssh_logout_t :: "layout \<Rightarrow> esrb_field list" where
  "fields_es_event_openssh_logout_t off =
     [entry ''source_address_type'' ''es_address_type_t'' (off ''es_event_openssh_logout_t'' ''source_address_type'') 1,
      entry ''source_address'' ''es_string_token_t'' (off ''es_event_openssh_logout_t'' ''source_address'') 1,
      entry ''username'' ''es_string_token_t'' (off ''es_event_openssh_logout_t'' ''username'') 1,
      entry ''uid'' ''unsigned int'' (off ''es_event_openssh_logout_t'' ''uid'') 1]"

definition fields_es_event_login_login_t :: "layout \<Rightarrow> esrb_field list" where
  "fields_es_event_login_login_t off =
     [entry ''success'' ''bool'' (off ''es_event_login_login_t'' ''success'') 1,
      entry ''failure_message'' ''es_string_token_t'' (off ''es_event_login_login_t'' ''failure_message'') 1,
      entry ''username'' ''es_string_token_t'' (off ''es_event_login_login_t'' ''username'') 1,
      entry ''has_uid'' ''bool'' (off ''es_event_login_login_t'' ''has_uid'') 1,
      entry ''uid'' ''union es_event_login_login_t::(anonymous)'' (off ''es_event_login_login_t'' ''uid'') 1]"

definition fields_es_event_login_logout_t :: "layout \<Rightarrow> esrb_field list" where
  "fields_es_event_login_logout_t off =
     [entry ''username'' ''es_string_token_t'' (off ''es_event_login_logout_t'' ''username'') 1,
      entry ''uid'' ''unsigned int'' (off ''es_event_login_logout_t'' ''uid'') 1]"

definition fields_es_event_btm_launch_item_add_t :: "layout \<Rightarrow> esrb_field list" where
  "fields_es_event_btm_launch_item_add_t off =
     [entry ''instigator'' ''es_process_t *'' (off ''es_event_btm_launch_item_add_t'' ''instigator'') 1,
      entry ''app'' ''es_process_t *'' (off ''es_event_btm_launch_item_add_t'' ''app'') 1,
      entry ''item'' ''es_btm_launch_item_t *'' (off ''es_event_btm_launch_item_add_t'' ''item'') 1,
      entry ''executable_path'' ''es_string_token_t'' (off ''es_event_btm_launch_item_add_t'' ''executable_path'') 1,
      entry ''instigator_token'' ''audit_token_t *'' (off ''es_event_btm_launch_item_add_t'' ''instigator_token'') 8,
      entry ''app_token'' ''audit_token_t *'' (off ''es_event_btm_launch_item_add_t'' ''app_token'') 8]"

definition fields_es_event_btm_launch_item_remove_t :: "layout \<Rightarrow> esrb_field list" where
  "fields_es_event_btm_launch_item_remove_t off =
     [entry ''instigator'' ''es_process_t *'' (off ''es_event_btm_launch_item_remove_t'' ''instigator'') 1,
      entry ''app'' ''es_process_t *'' (off ''es_event_btm_launch_item_remove_t'' ''app'') 1,
      entry ''item'' ''es_btm_launch_item_t *'' (off ''es_event_btm_launch_item_remove_t'' ''item'') 1,
      entry ''instigator_token'' ''audit_token_t *'' (off ''es_event_btm_launch_item_remove_t'' ''instigator_token'') 8,
      entry ''app_token'' ''audit_token_t *'' (off ''es_event_btm_launch_item_remove_t'' ''app_token'') 8]"

definition fields_es_event_su_t :: "layout \<Rightarrow> esrb_field list" where
  "fields_es_event_su_t off =
     [entry ''success'' ''bool'' (off ''es_event_su_t'' ''success'') 1,
      entry ''failure_message'' ''es_string_token_t'' (off ''es_event_su_t'' ''failure_message'') 1,
      entry ''from_uid'' ''unsigned int'' (off ''es_event_su_t'' ''from_uid'') 1,
      entry ''from_username'' ''es_string_token_t'' (off ''es_event_su_t'' ''from_username'') 1,
      entry ''has_to_uid'' ''bool'' (off ''es_event_su_t'' ''has_to_uid'') 1,
      entry ''to_uid'' ''union es_event_su_t::(anonymous)'' (off ''es_event_su_t'' ''to_uid'') 1,
      entry ''to_username'' ''es_string_token_t'' (off ''es_event_su_t'' ''to_username'') 1,
      entry ''shell'' ''es_string_token_t'' (off ''es_event_su_t'' ''shell'') 1,
      entry ''argc'' ''unsigned long'' (off ''es_event_su_t'' ''argc'') 1,
      entry ''argv'' ''es_string_token_t *'' (off ''es_event_su_t'' ''argv'') 1,
      entry ''env_count'' ''unsigned long'' (off ''es_event_su_t'' ''env_count'') 1,
      entry ''env'' ''es_string_token_t *'' (off ''es_event_su_t'' ''env'') 1]"

definition fields_es_sudo_reject_info_t :: "layout \<Rightarrow> esrb_field list" where
  "fields_es_sudo_reject_info_t off =
     [entry ''plugin_name'' ''es_string_token_t'' (off ''es_sudo_reject_info_t'' ''plugin_name'') 1,
      entry ''plugin_type'' ''es_sudo_plugin_type_t'' (off ''es_sudo_reject_info_t'' ''plugin_type'') 1,
      entry ''failure_message'' ''es_string_token_t'' (off ''es_sudo_reject_info_t'' ''failure_message'') 1]"

definition fields_es_event_sudo_t :: "layout \<Rightarrow> esrb_field list" where
  "fields_es_event_sudo_t off =
     [entry ''success'' ''bool'' (off ''es_event_sudo_t'' ''success'') 1,
      entry ''reject_info'' ''es_sudo_reject_info_t *'' (off ''es_event_sudo_t'' ''reject_info'') 1,
      entry ''has_from_uid'' ''bool'' (off ''es_event_sudo_t'' ''has_from_uid'') 1,
      entry ''from_uid'' ''union es_event_sudo_t::(anonymous)'' (off ''es_event_sudo_t'' ''from_uid'') 1,
      entry ''from_username'' ''es_string_token_t'' (off ''es_event_sudo_t'' ''from_username'') 1,
      entry ''has_to_uid'' ''bool'' (off ''es_event_sudo_t'' ''has_to_uid'') 1,
      entry ''to_uid'' ''union es_event_sudo_t::(anonymous)'' (off ''es_event_sudo_t'' ''to_uid'') 1,
      entry ''to_username'' ''es_string_token_t'' (off ''es_event_sudo_t'' ''to_username'') 1,
      entry ''command'' ''es_string_token_t'' (off ''es_event_sudo_t'' ''command'') 1]"

definition fields_es_event_profile_add_t :: "layout \<Rightarrow> esrb_field list" where
  "fields_es_event_profile_add_t off =
     [entry ''instigator'' ''es_process_t *'' (off ''es_event_profile_add_t'' ''instigator'') 1,
      entry ''is_update'' ''bool'' (off ''es_event_profile_add_t'' ''is_update'') 1,
      entry ''profile'' ''es_profile_t *'' (off ''es_event_profile_add_t'' ''profile'') 1,
      entry ''instigator_token'' ''audit_token_t'' (off ''es_event_profile_add_t'' ''instigator_token'') 8]"

definition fields_es_event_profile_remove_t :: "layout \<Rightarrow> esrb_field list" where
  "fields_es_event_profile_remove_t off =
     [entry ''instigator'' ''es_process_t *'' (off ''es_event_profile_remove_t'' ''instigator'') 1,
      entry ''profile'' ''es_profile_t *'' (off ''es_event_profile_remove_t'' ''profile'') 1,
      entry ''instigator_token'' ''audit_token_t'' (off ''es_event_profile_remove_t'' ''instigator_token'') 8]"

definition fields_es_event_authorization_petition_t :: "layout \<Rightarrow> esrb_field list" where
  "fields_es_event_authorization_petition_t off =
     [entry ''instigator'' ''es_process_t *'' (off ''es_event_authorization_petition_t'' ''instigator'') 1,
      entry ''petitioner'' ''es_process_t *'' (off ''es_event_authorization_petition_t'' ''petitioner'') 1,
      entry ''flags'' ''unsigned int'' (off ''es_event_authorization_petition_t'' ''flags'') 1,
      entry ''right_count'' ''unsigned long'' (off ''es_event_authorization_petition_t'' ''right_count'') 1,
      entry ''rights'' ''es_string_token_t *'' (off ''es_event_authorization_petition_t'' ''rights'') 1,
      entry ''instigator_token'' ''audit_token_t'' (off ''es_event_authorization_petition_t'' ''instigator_token'') 8,
      entry ''petitioner_token'' ''audit_token_t'' (off ''es_event_authorization_petition_t'' ''petitioner_token'') 8]"

definition fields_es_authorization_result_t :: "layout \<Rightarrow> esrb_field list" where
  "fields_es_authorization_result_t off =
     [entry ''right_name'' ''es_string_token_t'' (off ''es_authorization_result_t'' ''right_name'') 1,
      entry ''rule_class'' ''es_authorization_rule_class_t'' (off ''es_authorization_result_t'' ''rule_class'') 1,
      entry ''granted'' ''bool'' (off ''es_authorization_result_t'' ''granted'') 1]"

definition fields_es_event_authorization_judgement_t :: "layout \<Rightarrow> esrb_field list" where
  "fields_es_event_authorization_judgement_t off =
     [entry ''instigator'' ''es_process_t *'' (off ''es_event_authorization_judgement_t'' ''instigator'') 1,
      entry ''petitioner'' ''es_process_t *'' (off ''es_event_authorization_judgement_t'' ''petitioner'') 1,
      entry ''return_code'' ''int'' (off ''es_event_authorization_judgement_t'' ''return_code'') 1,
      entry ''result_count'' ''unsigned long'' (off ''es_event_authorization_judgement_t'' ''result_count'') 1,
      entry ''results'' ''es_authorization_result_t *'' (off ''es_event_authorization_judgement_t'' ''results'') 1,
      entry ''instigator_token'' ''audit_token_t'' (off ''es_event_authorization_judgement_t'' ''instigator_token'') 8,
      entry ''petitioner_token'' ''audit_token_t'' (off ''es_event_authorization_judgement_t'' ''petitioner_token'') 8]"

definition fields_es_od_member_id_t :: "layout \<Rightarrow> esrb_field list" where
  "fields_es_od_member_id_t off =
     [entry ''member_type'' ''es_od_member_type_t'' (off ''es_od_member_id_t'' ''member_type'') 1,
      entry ''member_value'' ''union es_od_member_id_t::(anonymous)'' (off ''es_od_member_id_t'' ''member_value'') 1]"

definition fields_es_event_od_group_add_t :: "layout \<Rightarrow> esrb_field list" where
  "fields_es_event_od_group_add_t off =
     [entry ''instigator'' ''es_process_t *'' (off ''es_event_od_group_add_t'' ''instigator'') 1,
      entry ''error_code'' ''int'' (off ''es_event_od_group_add_t'' ''error_code'') 1,
      entry ''group_name'' ''es_string_token_t'' (off ''es_event_od_group_add_t'' ''group_name'') 1,
      entry ''member'' ''es_od_member_id_t *'' (off ''es_event_od_group_add_t'' ''member'') 1,
      entry ''node_name'' ''es_string_token_t'' (off ''es_event_od_group_add_t'' ''node_name'') 1,
      entry ''db_path'' ''es_string_token_t'' (off ''es_event_od_group_add_t'' ''db_path'') 1,
      entry ''instigator_token'' ''audit_token_t'' (off ''es_event_od_group_add_t'' ''instigator_token'') 8]"

definition fields_es_event_od_group_remove_t :: "layout \<Rightarrow> esrb_field list" where
  "fields_es_event_od_group_remove_t off =
     [entry ''instigator'' ''es_process_t *'' (off ''es_event_od_group_remove_t'' ''instigator'') 1,
      entry ''error_code'' ''int'' (off ''es_event_od_group_remove_t'' ''error_code'') 1,
      entry ''group_name'' ''es_string_token_t'' (off ''es_event_od_group_remove_t'' ''group_name'') 1,
      entry ''member'' ''es_od_member_id_t *'' (off ''es_event_od_group_remove_t'' ''member'') 1,
      entry ''node_name'' ''es_string_token_t'' (off ''es_event_od_group_remove_t'' ''node_name'') 1,
      entry ''db_path'' ''es_string_token_t'' (off ''es_event_od_group_remove_t'' ''db_path'') 1,
      entry ''instigator_token'' ''audit_token_t'' (off ''es_event_od_group_remove_t'' ''instigator_token'') 8]"

definition fields_es_od_member_id_array_t :: "layout \<Rightarrow> esrb_field list" where
  "fields_es_od_member_id_array_t off =
     [entry ''member_type'' ''es_od_member_type_t'' (off ''es_od_member_id_array_t'' ''member_type'') 1,
      entry ''member_count'' ''unsigned long'' (off ''es_od_member_id_array_t'' ''member_count'') 1,
      entry ''member_array'' ''union es_od_member_id_array_t::(anonymous)'' (off ''es_od_member_id_array_t'' ''member_array'') 1]"

definition fields_es_event_od_group_set_t :: "layout \<Rightarrow> esrb_field list" where
  "fields_es_event_od_group_set_t off =
     [entry ''instigator'' ''es_process_t *'' (off ''es_event_od_group_set_t'' ''instigator'') 1,
      entry ''error_code'' ''int'' (off ''es_event_od_group_set_t'' ''error_code'') 1,
      entry ''group_name'' ''es_string_token_t'' (off ''es_event_od_group_set_t'' ''group_name'') 1,
      entry ''members'' ''es_od_member_id_array_t *'' (off ''es_event_od_group_set_t'' ''members'') 1,
      entry ''node_name'' ''es_string_token_t'' (off ''es_event_od_group_set_t'' ''node_name'') 1,
      entry ''db_path'' ''es_string_token_t'' (off ''es_event_od_group_set_t'' ''db_path'') 1,
      entry ''instigator_token'' ''audit_token_t'' (off ''es_event_od_group_set_t'' ''instigator_token'') 8]"

definition fields_es_event_od_modify_password_t :: "layout \<Rightarrow> esrb_field list" where
  "fields_es_event_od_modify_password_t off =
     [entry ''instigator'' ''es_process_t *'' (off ''es_event_od_modify_password_t'' ''instigator'') 1,
      entry ''error_code'' ''int'' (off ''es_event_od_modify_password_t'' ''error_code'') 1,
      entry ''account_type'' ''es_od_account_type_t'' (off ''es_event_od_modify_password_t'' ''account_type'') 1,
      entry ''account_name'' ''es_string_token_t'' (off ''es_event_od_modify_password_t'' ''account_name'') 1,
      entry ''node_name'' ''es_string_token_t'' (off ''es_event_od_modify_password_t'' ''node_name'') 1,
      entry ''db_path'' ''es_string_token_t'' (off ''es_event_od_modify_password_t'' ''db_path'') 1,
      entry ''instigator_token'' ''audit_token_t'' (off ''es_event_od_modify_password_t'' ''instigator_token'') 8]"

definition fields_es_event_od_disable_user_t :: "layout \<Rightarrow> esrb_field list" where
  "fields_es_event_od_disable_user_t off =
     [entry ''instigator'' ''es_process_t *'' (off ''es_event_od_disable_user_t'' ''instigator'') 1,
      entry ''error_code'' ''int'' (off ''es_event_od_disable_user_t'' ''error_code'') 1,
      entry ''user_name'' ''es_string_token_t'' (off ''es_event_od_disable_user_t'' ''user_name'') 1,
      entry ''node_name'' ''es_string_token_t'' (off ''es_event_od_disable_user_t'' ''node_name'') 1,
      entry ''db_path'' ''es_string_token_t'' (off ''es_event_od_disable_user_t'' ''db_path'') 1,
      entry ''instigator_token'' ''audit_token_t'' (off ''es_event_od_disable_user_t'' ''instigator_token'') 8]"

definition fields_es_event_od_enable_user_t :: "layout \<Rightarrow> esrb_field list" where
  "fields_es_event_od_enable_user_t off =
     [entry ''instigator'' ''es_process_t *'' (off ''es_event_od_enable_user_t'' ''instigator'') 1,
      entry ''error_code'' ''int'' (off ''es_event_od_enable_user_t'' ''error_code'') 1,
      entry ''user_name'' ''es_string_token_t'' (off ''es_event_od_enable_user_t'' ''user_name'') 1,
      entry ''node_name'' ''es_string_token_t'' (off ''es_event_od_enable_user_t'' ''node_name'') 1,
      entry ''db_path'' ''es_string_token_t'' (off ''es_event_od_enable_user_t'' ''db_path'') 1,
      entry ''instigator_token'' ''audit_token_t'' (off ''es_event_od_enable_user_t'' ''instigator_token'') 8]"

definition fields_es_event_od_attribute_value_add_t :: "layout \<Rightarrow> esrb_field list" where
  "fields_es_event_od_attribute_value_add_t off =
     [entry ''instigator'' ''es_process_t *'' (off ''es_event_od_attribute_value_add_t'' ''instigator'') 1,
      entry ''error_code'' ''int'' (off ''es_event_od_attribute_value_add_t'' ''error_code'') 1,
      entry ''record_type'' ''es_od_record_type_t'' (off ''es_event_od_attribute_value_add_t'' ''record_type'') 1,
      entry ''record_name'' ''es_string_token_t'' (off ''es_event_od_attribute_value_add_t'' ''record_name'') 1,
      entry ''attribute_name'' ''es_string_token_t'' (off ''es_event_od_attribute_value_add_t'' ''attribute_name'') 1,
      entry ''attribute_value'' ''es_string_token_t'' (off ''es_event_od_attribute_value_add_t'' ''attribute_value'') 1,
      entry ''node_name'' ''es_string_token_t'' (off ''es_event_od_attribute_value_add_t'' ''node_name'') 1,
      entry ''db_path'' ''es_string_token_t'' (off ''es_event_od_attribute_value_add_t'' ''db_path'') 1,
      entry ''instigator_token'' ''audit_token_t'' (off ''es_event_od_attribute_value_add_t'' ''instigator_token'') 8]"

definition fields_es_event_od_attribute_value_remove_t :: "layout \<Rightarrow> esrb_field list" where
  "fields_es_event_od_attribute_value_remove_t off =
     [entry ''instigator'' ''es_process_t *'' (off ''es_event_od_attribute_value_remove_t'' ''instigator'') 1,
      entry ''error_code'' ''int'' (off ''es_event_od_attribute_value_remove_t'' ''error_code'') 1,
      entry ''record_type'' ''es_od_record_type_t'' (off ''es_event_od_attribute_value_remove_t'' ''record_type'') 1,
      entry ''record_name'' ''es_string_token_t'' (off ''es_event_od_attribute_value_remove_t'' ''record_name'') 1,
      entry ''attribute_name'' ''es_string_token_t'' (off ''es_event_od_attribute_value_remove_t'' ''attribute_name'') 1,
      entry ''attribute_value'' ''es_string_token_t'' (off ''es_event_od_attribute_value_remove_t'' ''attribute_value'') 1,
      entry ''node_name'' ''es_string_token_t'' (off ''es_event_od_attribute_value_remove_t'' ''node_name'') 1,
      entry ''db_path'' ''es_string_token_t'' (off ''es_event_od_attribute_value_remove_t'' ''db_path'') 1,
      entry ''instigator_token'' ''audit_token_t'' (off ''es_event_od_attribute_value_remove_t'' ''instigator_token'') 8]"

definition fields_es_event_od_attribute_set_t :: "layout \<Rightarrow> esrb_field list" where
  "fields_es_event_od_attribute_set_t off =
     [entry ''instigator'' ''es_process_t *'' (off ''es_event_od_attribute_set_t'' ''instigator'') 1,
      entry ''error_code'' ''int'' (off ''es_event_od_attribute_set_t'' ''error_code'') 1,
      entry ''record_type'' ''es_od_record_type_t'' (off ''es_event_od_attribute_set_t'' ''record_type'') 1,
      entry ''record_name'' ''es_string_token_t'' (off ''es_event_od_attribute_set_t'' ''record_name'') 1,
      entry ''attribute_name'' ''es_string_token_t'' (off ''es_event_od_attribute_set_t'' ''attribute_name'') 1,
      entry ''attribute_value_count'' ''unsigned long'' (off ''es_event_od_attribute_set_t'' ''attribute_value_count'') 1,
      entry ''attribute_values'' ''es_string_token_t *'' (off ''es_event_od_attribute_set_t'' ''attribute_values'') 1,
      entry ''node_name'' ''es_string_token_t'' (off ''es_event_od_attribute_set_t'' ''node_name'') 1,
      entry ''db_path'' ''es_string_token_t'' (off ''es_event_od_attribute_set_t'' ''db_path'') 1,
      entry ''instigator_token'' ''audit_token_t'' (off ''es_event_od_attribute_set_t'' ''instigator_token'') 8]"

definition fields_es_event_od_create_user_t :: "layout \<Rightarrow> esrb_field list" where
  "fields_es_event_od_create_user_t off =
     [entry ''instigator'' ''es_process_t *'' (off ''es_event_od_create_user_t'' ''instigator'') 1,
      entry ''error_code'' ''int'' (off ''es_event_od_create_user_t'' ''error_code'') 1,
      entry ''user_name'' ''es_string_token_t'' (off ''es_event_od_create_user_t'' ''user_name'') 1,
      entry ''node_name'' ''es_string_token_t'' (off ''es_event_od_create_user_t'' ''node_name'') 1,
      entry ''db_path'' ''es_string_token_t'' (off ''es_event_od_create_user_t'' ''db_path'') 1,
      entry ''instigator_token'' ''audit_token_t'' (off ''es_event_od_create_user_t'' ''instigator_token'') 8]"

definition fields_es_event_od_create_group_t :: "layout \<Rightarrow> esrb_field list" where
  "fields_es_event_od_create_group_t off =
     [entry ''instigator'' ''es_process_t *'' (off ''es_event_od_create_group_t'' ''instigator'') 1,
      entry ''error_code'' ''int'' (off ''es_event_od_create_group_t'' ''error_code'') 1,
      entry ''group_name'' ''es_string_token_t'' (off ''es_event_od_create_group_t'' ''group_name'') 1,
      entry ''node_name'' ''es_string_token_t'' (off ''es_event_od_create_group_t'' ''node_name'') 1,
      entry ''db_path'' ''es_string_token_t'' (off ''es_event_od_create_group_t'' ''db_path'') 1,
      entry ''instigator_token'' ''audit_token_t'' (off ''es_event_od_create_group_t'' ''instigator_token'') 8]"

definition fields_es_event_od_delete_user_t :: "layout \<Rightarrow> esrb_field list" where
  "fields_es_event_od_delete_user_t off =
     [entry ''instigator'' ''es_process_t *'' (off ''es_event_od_delete_user_t'' ''instigator'') 1,
      entry ''error_code'' ''int'' (off ''es_event_od_delete_user_t'' ''error_code'') 1,
      entry ''user_name'' ''es_string_token_t'' (off ''es_event_od_delete_user_t'' ''user_name'') 1,
      entry ''node_name'' ''es_string_token_t'' (off ''es_event_od_delete_user_t'' ''node_name'') 1,
      entry ''db_path'' ''es_string_token_t'' (off ''es_event_od_delete_user_t'' ''db_path'') 1,
      entry ''instigator_token'' ''audit_token_t'' (off ''es_event_od_delete_user_t'' ''instigator_token'') 8]"

definition fields_es_event_od_delete_group_t :: "layout \<Rightarrow> esrb_field list" where
  "fields_es_event_od_delete_group_t off =
     [entry ''instigator'' ''es_process_t *'' (off ''es_event_od_delete_group_t'' ''instigator'') 1,
      entry ''error_code'' ''int'' (off ''es_event_od_delete_group_t'' ''error_code'') 1,
      entry ''group_name'' ''es_string_token_t'' (off ''es_event_od_delete_group_t'' ''group_name'') 1,
      entry ''node_name'' ''es_string_token_t'' (off ''es_event_od_delete_group_t'' ''node_name'') 1,
      entry ''db_path'' ''es_string_token_t'' (off ''es_event_od_delete_group_t'' ''db_path'') 1,
      entry ''instigator_token'' ''audit_token_t'' (off ''es_event_od_delete_group_t'' ''instigator_token'') 8]"

definition fields_es_event_xpc_connect_t :: "layout \<Rightarrow> esrb_field list" where
  "fields_es_event_xpc_connect_t off =
     [entry ''service_name'' ''es_string_token_t'' (off ''es_event_xpc_connect_t'' ''service_name'') 1,
      entry ''service_domain_type'' ''es_xpc_domain_type_t'' (off ''es_event_xpc_connect_t'' ''service_domain_type'') 1]"

definition fields_es_event_gatekeeper_user_override_t :: "layout \<Rightarrow> esrb_field list" where
  "fields_es_event_gatekeeper_user_override_t off =
     [entry ''file_type'' ''es_gatekeeper_user_override_file_type_t'' (off ''es_event_gatekeeper_user_override_t'' ''file_type'') 1,
      entry ''file'' ''union es_event_gatekeeper_user_override_t::(anonymous)'' (off ''es_event_gatekeeper_user_override_t'' ''file'') 1,
      entry ''sha256'' ''es_sha256_t *'' (off ''es_event_gatekeeper_user_override_t'' ''sha256'') 1,
      entry ''signing_info'' ''es_signed_file_info_t *'' (off ''es_event_gatekeeper_user_override_t'' ''signing_info'') 1]"

definition fields_es_events_t :: "layout \<Rightarrow> esrb_field list" where
  "fields_es_events_t off =
     [entry ''access'' ''es_event_access_t'' (off ''es_events_t'' ''access'') 1,
      entry ''chdir'' ''es_event_chdir_t'' (off ''es_events_t'' ''chdir'') 1,
      entry ''chroot'' ''es_event_chroot_t'' (off ''es_events_t'' ''chroot'') 1,
      entry ''clone'' ''es_event_clone_t'' (off ''es_events_t'' ''clone'') 1,
      entry ''close'' ''es_event_close_t'' (off ''es_events_t'' ''close'') 1,
      entry ''copyfile'' ''es_event_copyfile_t'' (off ''es_events_t'' ''copyfile'') 1,
      entry ''create'' ''es_event_create_t'' (off ''es_events_t'' ''create'') 1,
      entry ''cs_invalidated'' ''es_event_cs_invalidated_t'' (off ''es_events_t'' ''cs_invalidated'') 1,
      entry ''deleteextattr'' ''es_event_deleteextattr_t'' (off ''es_events_t'' ''deleteextattr'') 1,
      entry ''dup'' ''es_event_dup_t'' (off ''es_events_t'' ''dup'') 1,
      entry ''exchangedata'' ''es_event_exchangedata_t'' (off ''es_events_t'' ''exchangedata'') 1,
      entry ''exec'' ''es_event_exec_t'' (off ''es_events_t'' ''exec'') 1,
      entry ''exit'' ''es_event_exit_t'' (off ''es_events_t'' ''exit'') 1,
      entry ''file_provider_materialize'' ''es_event_file_provider_materialize_t'' (off ''es_events_t'' ''file_provider_materialize'') 1,
      entry ''file_provider_update'' ''es_event_file_provider_update_t'' (off ''es_events_t'' ''file_provider_update'') 1,
      entry ''fcntl'' ''es_event_fcntl_t'' (off ''es_events_t'' ''fcntl'') 1,
      entry ''fork'' ''es_event_fork_t'' (off ''es_events_t'' ''fork'') 1,
      entry ''fsgetpath'' ''es_event_fsgetpath_t'' (off ''es_events_t'' ''fsgetpath'') 1,
      entry ''get_task'' ''es_event_get_task_t'' (off ''es_events_t'' ''get_task'') 1,
      entry ''get_task_read'' ''es_event_get_task_read_t'' (off ''es_events_t'' ''get_task_read'') 1,
      entry ''get_task_inspect'' ''es_event_get_task_inspect_t'' (off ''es_events_t'' ''get_task_inspect'') 1,
      entry ''get_task_name'' ''es_event_get_task_name_t'' (off ''es_events_t'' ''get_task_name'') 1,
      entry ''getattrlist'' ''es_event_getattrlist_t'' (off ''es_events_t'' ''getattrlist'') 1,
      entry ''getextattr'' ''es_event_getextattr_t'' (off ''es_events_t'' ''getextattr'') 1,
      entry ''iokit_open'' ''es_event_iokit_open_t'' (off ''es_events_t'' ''iokit_open'') 1,
      entry ''kextload'' ''es_event_kextload_t'' (off ''es_events_t'' ''kextload'') 1,
      entry ''kextunload'' ''es_event_kextunload_t'' (off ''es_events_t'' ''kextunload'') 1,
      entry ''link'' ''es_event_link_t'' (off ''es_events_t'' ''link'') 1,
      entry ''listextattr'' ''es_event_listextattr_t'' (off ''es_events_t'' ''listextattr'') 1,
      entry ''lookup'' ''es_event_lookup_t'' (off ''es_events_t'' ''lookup'') 1,
      entry ''mmap'' ''es_event_mmap_t'' (off ''es_events_t'' ''mmap'') 1,
      entry ''mount'' ''es_event_mount_t'' (off ''es_events_t'' ''mount'') 1,
      entry ''mprotect'' ''es_event_mprotect_t'' (off ''es_events_t'' ''mprotect'') 1,
      entry ''open'' ''es_event_open_t'' (off ''es_events_t'' ''open'') 1,
      entry ''proc_check'' ''es_event_proc_check_t'' (off ''es_events_t'' ''proc_check'') 1,
      entry ''proc_suspend_resume'' ''es_event_proc_suspend_resume_t'' (off ''es_events_t'' ''proc_suspend_resume'') 1,
      entry ''pty_close'' ''es_event_pty_close_t'' (off ''es_events_t'' ''pty_close'') 1,
      entry ''pty_grant'' ''es_event_pty_grant_t'' (off ''es_events_t'' ''pty_grant'') 1,
      entry ''readdir'' ''es_event_readdir_t'' (off ''es_events_t'' ''readdir'') 1,
      entry ''readlink'' ''es_event_readlink_t'' (off ''es_events_t'' ''readlink'') 1,
      entry ''remote_thread_create'' ''es_event_remote_thread_create_t'' (off ''es_events_t'' ''remote_thread_create'') 1,
      entry ''remount'' ''es_event_remount_t'' (off ''es_events_t'' ''remount'') 1,
      entry ''rename'' ''es_event_rename_t'' (off ''es_events_t'' ''rename'') 1,
      entry ''searchfs'' ''es_event_searchfs_t'' (off ''es_events_t'' ''searchfs'') 1,
      entry ''setacl'' ''es_event_setacl_t'' (off ''es_events_t'' ''setacl'') 1,
      entry ''setattrlist'' ''es_event_setattrlist_t'' (off ''es_events_t'' ''setattrlist'') 1,
      entry ''setextattr'' ''es_event_setextattr_t'' (off ''es_events_t'' ''setextattr'') 1,
      entry ''setflags'' ''es_event_setflags_t'' (off ''es_events_t'' ''setflags'') 1,
      entry ''setmode'' ''es_event_setmode_t'' (off ''es_events_t'' ''setmode'') 1,
      entry ''setowner'' ''es_event_setowner_t'' (off ''es_events_t'' ''setowner'') 1,
      entry ''settime'' ''es_event_settime_t'' (off ''es_events_t'' ''settime'') 1,
      entry ''setuid'' ''es_event_setuid_t'' (off ''es_events_t'' ''setuid'') 1,
      entry ''setgid'' ''es_event_setgid_t'' (off ''es_events_t'' ''setgid'') 1,
      entry ''seteuid'' ''es_event_seteuid_t'' (off ''es_events_t'' ''seteuid'') 1,
      entry ''setegid'' ''es_event_setegid_t'' (off ''es_events_t'' ''setegid'') 1,
      entry ''setreuid'' ''es_event_setreuid_t'' (off ''es_events_t'' ''setreuid'') 1,
      entry ''setregid'' ''es_event_setregid_t'' (off ''es_events_t'' ''setregid'') 1,
      entry ''signal'' ''es_event_signal_t'' (off ''es_events_t'' ''signal'') 1,
      entry ''stat'' ''es_event_stat_t'' (off ''es_events_t'' ''stat'') 1,
      entry ''trace'' ''es_event_trace_t'' (off ''es_events_t'' ''trace'') 1,
      entry ''truncate'' ''es_event_truncate_t'' (off ''es_events_t'' ''truncate'') 1,
      entry ''uipc_bind'' ''es_event_uipc_bind_t'' (off ''es_events_t'' ''uipc_bind'') 1,
      entry ''uipc_connect'' ''es_event_uipc_connect_t'' (off ''es_events_t'' ''uipc_connect'') 1,
      entry ''unlink'' ''es_event_unlink_t'' (off ''es_events_t'' ''unlink'') 1,
      entry ''unmount'' ''es_event_unmount_t'' (off ''es_events_t'' ''unmount'') 1,
      entry ''utimes'' ''es_event_utimes_t'' (off ''es_events_t'' ''utimes'') 1,
      entry ''write'' ''es_event_write_t'' (off ''es_events_t'' ''write'') 1,
      entry ''authentication'' ''es_event_authentication_t *'' (off ''es_events_t'' ''authentication'') 1,
      entry ''xp_malware_detected'' ''es_event_xp_malware_detected_t *'' (off ''es_events_t'' ''xp_malware_detected'') 1,
      entry ''xp_malware_remediated'' ''es_event_xp_malware_remediated_t *'' (off ''es_events_t'' ''xp_malware_remediated'') 1,
      entry ''lw_session_login'' ''es_event_lw_session_login_t *'' (off ''es_events_t'' ''lw_session_login'') 1,
      entry ''lw_session_logout'' ''es_event_lw_session_logout_t *'' (off ''es_events_t'' ''lw_session_logout'') 1,
      entry ''lw_session_lock'' ''es_event_lw_session_lock_t *'' (off ''es_events_t'' ''lw_session_lock'') 1,
      entry ''lw_session_unlock'' ''es_event_lw_session_unlock_t *'' (off ''es_events_t'' ''lw_session_unlock'') 1,
      entry ''screensharing_attach'' ''es_event_screensharing_attach_t *'' (off ''es_events_t'' ''screensharing_attach'') 1,
      entry ''screensharing_detach'' ''es_event_screensharing_detach_t *'' (off ''es_events_t'' ''screensharing_detach'') 1,
      entry ''openssh_login'' ''es_event_openssh_login_t *'' (off ''es_events_t'' ''openssh_login'') 1,
      entry ''openssh_logout'' ''es_event_openssh_logout_t *'' (off ''es_events_t'' ''openssh_logout'') 1,
      entry ''login_login'' ''es_event_login_login_t *'' (off ''es_events_t'' ''login_login'') 1,
      entry ''login_logout'' ''es_event_login_logout_t *'' (off ''es_events_t'' ''login_logout'') 1,
      entry ''btm_launch_item_add'' ''es_event_btm_launch_item_add_t *'' (off ''es_events_t'' ''btm_launch_item_add'') 1,
      entry ''btm_launch_item_remove'' ''es_event_btm_launch_item_remove_t *'' (off ''es_events_t'' ''btm_launch_item_remove'') 1,
      entry ''profile_add'' ''es_event_profile_add_t *'' (off ''es_events_t'' ''profile_add'') 1,
      entry ''profile_remove'' ''es_event_profile_remove_t *'' (off ''es_events_t'' ''profile_remove'') 1,
      entry ''su'' ''es_event_su_t *'' (off ''es_events_t'' ''su'') 1,
      entry ''authorization_petition'' ''es_event_authorization_petition_t *'' (off ''es_events_t'' ''authorization_petition'') 1,
      entry ''authorization_judgement'' ''es_event_authorization_judgement_t *'' (off ''es_events_t'' ''authorization_judgement'') 1,
      entry ''sudo'' ''es_event_sudo_t *'' (off ''es_events_t'' ''sudo'') 1,
      entry ''od_group_add'' ''es_event_od_group_add_t *'' (off ''es_events_t'' ''od_group_add'') 1,
      entry ''od_group_remove'' ''es_event_od_group_remove_t *'' (off ''es_events_t'' ''od_group_remove'') 1,
      entry ''od_group_set'' ''es_event_od_group_set_t *'' (off ''es_events_t'' ''od_group_set'') 1,
      entry ''od_modify_password'' ''es_event_od_modify_password_t *'' (off ''es_events_t'' ''od_modify_password'') 1,
      entry ''od_disable_user'' ''es_event_od_disable_user_t *'' (off ''es_events_t'' ''od_disable_user'') 1,
      entry ''od_enable_user'' ''es_event_od_enable_user_t *'' (off ''es_events_t'' ''od_enable_user'') 1,
      entry ''od_attribute_value_add'' ''es_event_od_attribute_value_add_t *'' (off ''es_events_t'' ''od_attribute_value_add'') 1,
      entry ''od_attribute_value_remove'' ''es_event_od_attribute_value_remove_t *'' (off ''es_events_t'' ''od_attribute_value_remove'') 1,
      entry ''od_attribute_set'' ''es_event_od_attribute_set_t *'' (off ''es_events_t'' ''od_attribute_set'') 1,
      entry ''od_create_user'' ''es_event_od_create_user_t *'' (off ''es_events_t'' ''od_create_user'') 1,
      entry ''od_create_group'' ''es_event_od_create_group_t *'' (off ''es_events_t'' ''od_create_group'') 1,
      entry ''od_delete_user'' ''es_event_od_delete_user_t *'' (off ''es_events_t'' ''od_delete_user'') 1,
      entry ''od_delete_group'' ''es_event_od_delete_group_t *'' (off ''es_events_t'' ''od_delete_group'') 1,
      entry ''xpc_connect'' ''es_event_xpc_connect_t *'' (off ''es_events_t'' ''xpc_connect'') 1,
      entry ''gatekeeper_user_override'' ''es_event_gatekeeper_user_override_t *'' (off ''es_events_t'' ''gatekeeper_user_override'') 1,
      entry ''tcc_modify'' ''es_event_tcc_modify_t *'' (off ''es_events_t'' ''tcc_modify'') 1]"

definition fields_es_result_t :: "layout \<Rightarrow> esrb_field list" where
  "fields_es_result_t off =
     [entry ''result_type'' ''es_result_type_t'' (off ''es_result_t'' ''result_type'') 1,
      entry ''result'' ''union es_result_t::(anonymous)'' (off ''es_result_t'' ''result'') 1]"

definition fields_es_message_t :: "layout \<Rightarrow> esrb_field list" where
  "fields_es_message_t off =
     [entry ''version'' ''unsigned int'' (off ''es_message_t'' ''version'') 1,
      entry ''time'' ''struct timespec'' (off ''es_message_t'' ''time'') 1,
      entry ''mach_time'' ''unsigned long long'' (off ''es_message_t'' ''mach_time'') 1,
      entry ''deadline'' ''unsigned long long'' (off ''es_message_t'' ''deadline'') 1,
      entry ''process'' ''es_process_t *'' (off ''es_message_t'' ''process'') 1,
      entry ''seq_num'' ''unsigned long long'' (off ''es_message_t'' ''seq_num'') 2,
      entry ''action_type'' ''es_action_type_t'' (off ''es_message_t'' ''action_type'') 1,
      entry ''action'' ''union es_message_t::(anonymous)'' (off ''es_message_t'' ''action'') 1,
      entry ''event_type'' ''es_event_type_t'' (off ''es_message_t'' ''event_type'') 1,
      entry ''event'' ''es_events_t'' (off ''es_message_t'' ''event'') 1,
      entry ''thread'' ''es_thread_t *'' (off ''es_message_t'' ''thread'') 4,
      entry ''global_seq_num'' ''unsigned long long'' (off ''es_message_t'' ''global_seq_num'') 4,
      entry ''opaque'' ''uint64_t[]'' (off ''es_message_t'' ''opaque'') 1]"

section \<open>Schemas and events\<close>

definition schema_table :: "layout \<Rightarrow> esrb_schema list" where
  "schema_table off =
     [schema_entry ''es_event_id_t'' [],
      schema_entry ''es_token_t'' (fields_es_token_t off),
      schema_entry ''es_string_token_t'' (fields_es_string_token_t off),
      schema_entry ''es_muted_path_t'' (fields_es_muted_path_t off),
      schema_entry ''es_muted_paths_t'' (fields_es_muted_paths_t off),
      schema_entry ''es_muted_process_t'' (fields_es_muted_process_t off),
      schema_entry ''es_muted_processes_t'' (fields_es_muted_processes_t off),
      schema_entry ''es_signed_file_info_t'' (fields_es_signed_file_info_t off),
      schema_entry ''es_file_t'' (fields_es_file_t off),
      schema_entry ''es_process_t'' (fields_es_process_t off),
      schema_entry ''es_thread_t'' (fields_es_thread_t off),
      schema_entry ''es_thread_state_t'' (fields_es_thread_state_t off),
      schema_entry ''es_fd_t'' (fields_es_fd_t off),
      schema_entry ''es_btm_launch_item_t'' (fields_es_btm_launch_item_t off),
      schema_entry ''es_profile_t'' (fields_es_profile_t off),
      schema_entry ''es_event_exec_t'' (fields_es_event_exec_t off),
      schema_entry ''es_event_tcc_modify_t'' (fields_es_event_tcc_modify_t off),
      schema_entry ''es_event_open_t'' (fields_es_event_open_t off),
      schema_entry ''es_event_kextload_t'' (fields_es_event_kextload_t off),
      schema_entry ''es_event_kextunload_t'' (fields_es_event_kextunload_t off),
      schema_entry ''es_event_unlink_t'' (fields_es_event_unlink_t off),
      schema_entry ''es_event_mmap_t'' (fields_es_event_mmap_t off),
      schema_entry ''es_event_link_t'' (fields_es_event_link_t off),
      schema_entry ''es_event_mount_t'' (fields_es_event_mount_t off),
      schema_entry ''es_event_unmount_t'' (fields_es_event_unmount_t off),
      schema_entry ''es_event_remount_t'' (fields_es_event_remount_t off),
      schema_entry ''es_event_fork_t'' (fields_es_event_fork_t off),
      schema_entry ''es_event_mprotect_t'' (fields_es_event_mprotect_t off),
      schema_entry ''es_event_signal_t'' (fields_es_event_signal_t off),
      schema_entry ''es_event_rename_t'' (fields_es_event_rename_t off),
      schema_entry ''es_event_setextattr_t'' (fields_es_event_setextattr_t off),
      schema_entry ''es_event_getextattr_t'' (fields_es_event_getextattr_t off),
      schema_entry ''es_event_deleteextattr_t'' (fields_es_event_deleteextattr_t off),
      schema_entry ''es_event_setmode_t'' (fields_es_event_setmode_t off),
      schema_entry ''es_event_setflags_t'' (fields_es_event_setflags_t off),
      schema_entry ''es_event_setowner_t'' (fields_es_event_setowner_t off),
      schema_entry ''es_event_close_t'' (fields_es_event_close_t off),
      schema_entry ''es_event_create_t'' (fields_es_event_create_t off),
      schema_entry ''es_event_exit_t'' (fields_es_event_exit_t off),
      schema_entry ''es_event_exchangedata_t'' (fields_es_event_exchangedata_t off),
      schema_entry ''es_event_write_t'' (fields_es_event_write_t off),
      schema_entry ''es_event_truncate_t'' (fields_es_event_truncate_t off),
      schema_entry ''es_event_chdir_t'' (fields_es_event_chdir_t off),
      schema_entry ''es_event_stat_t'' (fields_es_event_stat_t off),
      schema_entry ''es_event_chroot_t'' (fields_es_event_chroot_t off),
      schema_entry ''es_event_listextattr_t'' (fields_es_event_listextattr_t off),
      schema_entry ''es_event_iokit_open_t'' (fields_es_event_iokit_open_t off),
      schema_entry ''es_event_get_task_t'' (fields_es_event_get_task_t off),
      schema_entry ''es_event_get_task_read_t'' (fields_es_event_get_task_read_t off),
      schema_entry ''es_event_get_task_inspect_t'' (fields_es_event_get_task_inspect_t off),
      schema_entry ''es_event_get_task_name_t'' (fields_es_event_get_task_name_t off),
      schema_entry ''es_event_getattrlist_t'' (fields_es_event_getattrlist_t off),
      schema_entry ''es_event_setattrlist_t'' (fields_es_event_setattrlist_t off),
      schema_entry ''es_event_file_provider_update_t'' (fields_es_event_file_provider_update_t off),
      schema_entry ''es_event_file_provider_materialize_t'' (fields_es_event_file_provider_materialize_t off),
      schema_entry ''es_event_readlink_t'' (fields_es_event_readlink_t off),
      schema_entry ''es_event_lookup_t'' (fields_es_event_lookup_t off),
      schema_entry ''es_event_access_t'' (fields_es_event_access_t off),
      schema_entry ''es_event_utimes_t'' (fields_es_event_utimes_t off),
      schema_entry ''es_event_clone_t'' (fields_es_event_clone_t off),
      schema_entry ''es_event_copyfile_t'' (fields_es_event_copyfile_t off),
      schema_entry ''es_event_fcntl_t'' (fields_es_event_fcntl_t off),
      schema_entry ''es_event_readdir_t'' (fields_es_event_readdir_t off),
      schema_entry ''es_event_fsgetpath_t'' (fields_es_event_fsgetpath_t off),
      schema_entry ''es_event_settime_t'' [],
      schema_entry ''es_event_dup_t'' (fields_es_event_dup_t off),
      schema_entry ''es_event_uipc_bind_t'' (fields_es_event_uipc_bind_t off),
      schema_entry ''es_event_uipc_connect_t'' (fields_es_event_uipc_connect_t off),
      schema_entry ''es_event_setacl_t'' (fields_es_event_setacl_t off),
      schema_entry ''es_event_pty_grant_t'' (fields_es_event_pty_grant_t off),
      schema_entry ''es_event_pty_close_t'' (fields_es_event_pty_close_t off),
      schema_entry ''es_event_proc_check_t'' (fields_es_event_proc_check_t off),
      schema_entry ''es_event_searchfs_t'' (fields_es_event_searchfs_t off),
      schema_entry ''es_event_proc_suspend_resume_t'' (fields_es_event_proc_suspend_resume_t off),
      schema_entry ''es_event_cs_invalidated_t'' [],
      schema_entry ''es_event_trace_t'' (fields_es_event_trace_t off),
      schema_entry ''es_event_remote_thread_create_t'' (fields_es_event_remote_thread_create_t off),
      schema_entry ''es_event_setuid_t'' (fields_es_event_setuid_t off),
      schema_entry ''es_event_setgid_t'' (fields_es_event_setgid_t off),
      schema_entry ''es_event_seteuid_t'' (fields_es_event_seteuid_t off),
      schema_entry ''es_event_setegid_t'' (fields_es_event_setegid_t off),
      schema_entry ''es_event_setreuid_t'' (fields_es_event_setreuid_t off),
      schema_entry ''es_event_setregid_t'' (fields_es_event_setregid_t off),
      schema_entry ''es_event_authentication_od_t'' (fields_es_event_authentication_od_t off),
      schema_entry ''es_event_authentication_touchid_t'' (fields_es_event_authentication_touchid_t off),
      schema_entry ''es_event_authentication_token_t'' (fields_es_event_authentication_token_t off),
      schema_entry ''es_event_authentication_auto_unlock_t'' (fields_es_event_authentication_auto_unlock_t off),
      schema_entry ''es_event_authentication_t'' (fields_es_event_authentication_t off),
      schema_entry ''es_event_xp_malware_detected_t'' (fields_es_event_xp_malware_detected_t off),
      schema_entry ''es_event_xp_malware_remediated_t'' (fields_es_event_xp_malware_remediated_t off),
      schema_entry ''es_event_lw_session_login_t'' (fields_es_event_lw_session_login_t off),
      schema_entry ''es_event_lw_session_logout_t'' (fields_es_event_lw_session_logout_t off),
      schema_entry ''es_event_lw_session_lock_t'' (fields_es_event_lw_session_lock_t off),
      schema_entry ''es_event_lw_session_unlock_t'' (fields_es_event_lw_session_unlock_t off),
      schema_entry ''es_event_screensharing_attach_t'' (fields_es_event_screensharing_attach_t off),
      schema_entry ''es_event_screensharing_detach_t'' (fields_es_event_screensharing_detach_t off),
      schema_entry ''es_event_openssh_login_t'' (fields_es_event_openssh_login_t off),
      schema_entry ''es_event_openssh_logout_t'' (fields_es_event_openssh_logout_t off),
      schema_entry ''es_event_login_login_t'' (fields_es_event_login_login_t off),
      schema_entry ''es_event_login_logout_t'' (fields_es_event_login_logout_t off),
      schema_entry ''es_event_btm_launch_item_add_t'' (fields_es_event_btm_launch_item_add_t off),
      schema_entry ''es_event_btm_launch_item_remove_t'' (fields_es_event_btm_launch_item_remove_t off),
      schema_entry ''es_event_su_t'' (fields_es_event_su_t off),
      schema_entry ''es_sudo_reject_info_t'' (fields_es_sudo_reject_info_t off),
      schema_entry ''es_event_sudo_t'' (fields_es_event_sudo_t off),
      schema_entry ''es_event_profile_add_t'' (fields_es_event_profile_add_t off),
      schema_entry ''es_event_profile_remove_t'' (fields_es_event_profile_remove_t off),
      schema_entry ''es_event_authorization_petition_t'' (fields_es_event_authorization_petition_t off),
      schema_entry ''es_authorization_result_t'' (fields_es_authorization_result_t off),
      schema_entry ''es_event_authorization_judgement_t'' (fields_es_event_authorization_judgement_t off),
      schema_entry ''es_od_member_id_t'' (fields_es_od_member_id_t off),
      schema_entry ''es_event_od_group_add_t'' (fields_es_event_od_group_add_t off),
      schema_entry ''es_event_od_group_remove_t'' (fields_es_event_od_group_remove_t off),
      schema_entry ''es_od_member_id_array_t'' (fields_es_od_member_id_array_t off),
      schema_entry ''es_event_od_group_set_t'' (fields_es_event_od_group_set_t off),
      schema_entry ''es_event_od_modify_password_t'' (fields_es_event_od_modify_password_t off),
      schema_entry ''es_event_od_disable_user_t'' (fields_es_event_od_disable_user_t off),
      schema_entry ''es_event_od_enable_user_t'' (fields_es_event_od_enable_user_t off),
      schema_entry ''es_event_od_attribute_value_add_t'' (fields_es_event_od_attribute_value_add_t off),
      schema_entry ''es_event_od_attribute_value_remove_t'' (fields_es_event_od_attribute_value_remove_t off),
      schema_entry ''es_event_od_attribute_set_t'' (fields_es_event_od_attribute_set_t off),
      schema_entry ''es_event_od_create_user_t'' (fields_es_event_od_create_user_t off),
      schema_entry ''es_event_od_create_group_t'' (fields_es_event_od_create_group_t off),
      schema_entry ''es_event_od_delete_user_t'' (fields_es_event_od_delete_user_t off),
      schema_entry ''es_event_od_delete_group_t'' (fields_es_event_od_delete_group_t off),
      schema_entry ''es_event_xpc_connect_t'' (fields_es_event_xpc_connect_t off),
      schema_entry ''es_event_gatekeeper_user_override_t'' (fields_es_event_gatekeeper_user_override_t off),
      schema_entry ''es_events_t'' (fields_es_events_t off),
      schema_entry ''es_result_t'' (fields_es_result_t off),
      schema_entry ''es_message_t'' (fields_es_message_t off)]"

definition event_schema_table :: "layout \<Rightarrow> (string \<Rightarrow> uint64) \<Rightarrow> esrb_event_schema list" where
  "event_schema_table off sz =
     [event_entry 0 (off ''es_events_t'' ''exec'') ''es_event_exec_t'' (sz ''es_event_exec_t'') False,
      event_entry 1 (off ''es_events_t'' ''open'') ''es_event_open_t'' (sz ''es_event_open_t'') False,
      event_entry 2 (off ''es_events_t'' ''kextload'') ''es_event_kextload_t'' (sz ''es_event_kextload_t'') False,
      event_entry 3 (off ''es_events_t'' ''mmap'') ''es_event_mmap_t'' (sz ''es_event_mmap_t'') False,
      event_entry 4 (off ''es_events_t'' ''mprotect'') ''es_event_mprotect_t'' (sz ''es_event_mprotect_t'') False,
      event_entry 5 (off ''es_events_t'' ''mount'') ''es_event_mount_t'' (sz ''es_event_mount_t'') False,
      event_entry 6 (off ''es_events_t'' ''rename'') ''es_event_rename_t'' (sz ''es_event_rename_t'') False,
      event_entry 7 (off ''es_events_t'' ''signal'') ''es_event_signal_t'' (sz ''es_event_signal_t'') False,
      event_entry 8 (off ''es_events_t'' ''unlink'') ''es_event_unlink_t'' (sz ''es_event_unlink_t'') False,
      event_entry 9 (off ''es_events_t'' ''exec'') ''es_event_exec_t'' (sz ''es_event_exec_t'') False,
      event_entry 10 (off ''es_events_t'' ''open'') ''es_event_open_t'' (sz ''es_event_open_t'') False,
      event_entry 11 (off ''es_events_t'' ''fork'') ''es_event_fork_t'' (sz ''es_event_fork_t'') False,
      event_entry 12 (off ''es_events_t'' ''close'') ''es_event_close_t'' (sz ''es_event_close_t'') False,
      event_entry 13 (off ''es_events_t'' ''create'') ''es_event_create_t'' (sz ''es_event_create_t'') False,
      event_entry 14 (off ''es_events_t'' ''exchangedata'') ''es_event_exchangedata_t'' (sz ''es_event_exchangedata_t'') False,
      event_entry 15 (off ''es_events_t'' ''exit'') ''es_event_exit_t'' (sz ''es_event_exit_t'') False,
      event_entry 16 (off ''es_events_t'' ''get_task'') ''es_event_get_task_t'' (sz ''es_event_get_task_t'') False,
      event_entry 17 (off ''es_events_t'' ''kextload'') ''es_event_kextload_t'' (sz ''es_event_kextload_t'') False,
      event_entry 18 (off ''es_events_t'' ''kextunload'') ''es_event_kextunload_t'' (sz ''es_event_kextunload_t'') False,
      event_entry 19 (off ''es_events_t'' ''link'') ''es_event_link_t'' (sz ''es_event_link_t'') False,
      event_entry 20 (off ''es_events_t'' ''mmap'') ''es_event_mmap_t'' (sz ''es_event_mmap_t'') False,
      event_entry 21 (off ''es_events_t'' ''mprotect'') ''es_event_mprotect_t'' (sz ''es_event_mprotect_t'') False,
      event_entry 22 (off ''es_events_t'' ''mount'') ''es_event_mount_t'' (sz ''es_event_mount_t'') False,
      event_entry 23 (off ''es_events_t'' ''unmount'') ''es_event_unmount_t'' (sz ''es_event_unmount_t'') False,
      event_entry 24 (off ''es_events_t'' ''iokit_open'') ''es_event_iokit_open_t'' (sz ''es_event_iokit_open_t'') False,
      event_entry 25 (off ''es_events_t'' ''rename'') ''es_event_rename_t'' (sz ''es_event_rename_t'') False,
      event_entry 26 (off ''es_events_t'' ''setattrlist'') ''es_event_setattrlist_t'' (sz ''es_event_setattrlist_t'') False,
      event_entry 27 (off ''es_events_t'' ''setextattr'') ''es_event_setextattr_t'' (sz ''es_event_setextattr_t'') False,
      event_entry 28 (off ''es_events_t'' ''setflags'') ''es_event_setflags_t'' (sz ''es_event_setflags_t'') False,
      event_entry 29 (off ''es_events_t'' ''setmode'') ''es_event_setmode_t'' (sz ''es_event_setmode_t'') False,
      event_entry 30 (off ''es_events_t'' ''setowner'') ''es_event_setowner_t'' (sz ''es_event_setowner_t'') False,
      event_entry 31 (off ''es_events_t'' ''signal'') ''es_event_signal_t'' (sz ''es_event_signal_t'') False,
      event_entry 32 (off ''es_events_t'' ''unlink'') ''es_event_unlink_t'' (sz ''es_event_unlink_t'') False,
      event_entry 33 (off ''es_events_t'' ''write'') ''es_event_write_t'' (sz ''es_event_write_t'') False,
      event_entry 34 (off ''es_events_t'' ''file_provider_materialize'') ''es_event_file_provider_materialize_t'' (sz ''es_event_file_provider_materialize_t'') False,
      event_entry 35 (off ''es_events_t'' ''file_provider_materialize'') ''es_event_file_provider_materialize_t'' (sz ''es_event_file_provider_materialize_t'') False,
      event_entry 36 (off ''es_events_t'' ''file_provider_update'') ''es_event_file_provider_update_t'' (sz ''es_event_file_provider_update_t'') False,
      event_entry 37 (off ''es_events_t'' ''file_provider_update'') ''es_event_file_provider_update_t'' (sz ''es_event_file_provider_update_t'') False,
      event_entry 38 (off ''es_events_t'' ''readlink'') ''es_event_readlink_t'' (sz ''es_event_readlink_t'') False,
      event_entry 39 (off ''es_events_t'' ''readlink'') ''es_event_readlink_t'' (sz ''es_event_readlink_t'') False,
      event_entry 40 (off ''es_events_t'' ''truncate'') ''es_event_truncate_t'' (sz ''es_event_truncate_t'') False,
      event_entry 41 (off ''es_events_t'' ''truncate'') ''es_event_truncate_t'' (sz ''es_event_truncate_t'') False,
      event_entry 42 (off ''es_events_t'' ''link'') ''es_event_link_t'' (sz ''es_event_link_t'') False,
      event_entry 43 (off ''es_events_t'' ''lookup'') ''es_event_lookup_t'' (sz ''es_event_lookup_t'') False,
      event_entry 44 (off ''es_events_t'' ''create'') ''es_event_create_t'' (sz ''es_event_create_t'') False,
      event_entry 45 (off ''es_events_t'' ''setattrlist'') ''es_event_setattrlist_t'' (sz ''es_event_setattrlist_t'') False,
      event_entry 46 (off ''es_events_t'' ''setextattr'') ''es_event_setextattr_t'' (sz ''es_event_setextattr_t'') False,
      event_entry 47 (off ''es_events_t'' ''setflags'') ''es_event_setflags_t'' (sz ''es_event_setflags_t'') False,
      event_entry 48 (off ''es_events_t'' ''setmode'') ''es_event_setmode_t'' (sz ''es_event_setmode_t'') False,
      event_entry 49 (off ''es_events_t'' ''setowner'') ''es_event_setowner_t'' (sz ''es_event_setowner_t'') False,
      event_entry 50 (off ''es_events_t'' ''chdir'') ''es_event_chdir_t'' (sz ''es_event_chdir_t'') False,
      event_entry 51 (off ''es_events_t'' ''chdir'') ''es_event_chdir_t'' (sz ''es_event_chdir_t'') False,
      event_entry 52 (off ''es_events_t'' ''getattrlist'') ''es_event_getattrlist_t'' (sz ''es_event_getattrlist_t'') False,
      event_entry 53 (off ''es_events_t'' ''getattrlist'') ''es_event_getattrlist_t'' (sz ''es_event_getattrlist_t'') False,
      event_entry 54 (off ''es_events_t'' ''stat'') ''es_event_stat_t'' (sz ''es_event_stat_t'') False,
      event_entry 55 (off ''es_events_t'' ''access'') ''es_event_access_t'' (sz ''es_event_access_t'') False,
      event_entry 56 (off ''es_events_t'' ''chroot'') ''es_event_chroot_t'' (sz ''es_event_chroot_t'') False,
      event_entry 57 (off ''es_events_t'' ''chroot'') ''es_event_chroot_t'' (sz ''es_event_chroot_t'') False,
      event_entry 58 (off ''es_events_t'' ''utimes'') ''es_event_utimes_t'' (sz ''es_event_utimes_t'') False,
      event_entry 59 (off ''es_events_t'' ''utimes'') ''es_event_utimes_t'' (sz ''es_event_utimes_t'') False,
      event_entry 60 (off ''es_events_t'' ''clone'') ''es_event_clone_t'' (sz ''es_event_clone_t'') False,
      event_entry 61 (off ''es_events_t'' ''clone'') ''es_event_clone_t'' (sz ''es_event_clone_t'') False,
      event_entry 62 (off ''es_events_t'' ''fcntl'') ''es_event_fcntl_t'' (sz ''es_event_fcntl_t'') False,
      event_entry 63 (off ''es_events_t'' ''getextattr'') ''es_event_getextattr_t'' (sz ''es_event_getextattr_t'') False,
      event_entry 64 (off ''es_events_t'' ''getextattr'') ''es_event_getextattr_t'' (sz ''es_event_getextattr_t'') False,
      event_entry 65 (off ''es_events_t'' ''listextattr'') ''es_event_listextattr_t'' (sz ''es_event_listextattr_t'') False,
      event_entry 66 (off ''es_events_t'' ''listextattr'') ''es_event_listextattr_t'' (sz ''es_event_listextattr_t'') False,
      event_entry 67 (off ''es_events_t'' ''readdir'') ''es_event_readdir_t'' (sz ''es_event_readdir_t'') False,
      event_entry 68 (off ''es_events_t'' ''readdir'') ''es_event_readdir_t'' (sz ''es_event_readdir_t'') False,
      event_entry 69 (off ''es_events_t'' ''deleteextattr'') ''es_event_deleteextattr_t'' (sz ''es_event_deleteextattr_t'') False,
      event_entry 70 (off ''es_events_t'' ''deleteextattr'') ''es_event_deleteextattr_t'' (sz ''es_event_deleteextattr_t'') False,
      event_entry 71 (off ''es_events_t'' ''fsgetpath'') ''es_event_fsgetpath_t'' (sz ''es_event_fsgetpath_t'') False,
      event_entry 72 (off ''es_events_t'' ''fsgetpath'') ''es_event_fsgetpath_t'' (sz ''es_event_fsgetpath_t'') False,
      event_entry 73 (off ''es_events_t'' ''dup'') ''es_event_dup_t'' (sz ''es_event_dup_t'') False,
      event_entry 74 (off ''es_events_t'' ''settime'') ''es_event_settime_t'' (sz ''es_event_settime_t'') False,
      event_entry 75 (off ''es_events_t'' ''settime'') ''es_event_settime_t'' (sz ''es_event_settime_t'') False,
      event_entry 76 (off ''es_events_t'' ''uipc_bind'') ''es_event_uipc_bind_t'' (sz ''es_event_uipc_bind_t'') False,
      event_entry 77 (off ''es_events_t'' ''uipc_bind'') ''es_event_uipc_bind_t'' (sz ''es_event_uipc_bind_t'') False,
      event_entry 78 (off ''es_events_t'' ''uipc_connect'') ''es_event_uipc_connect_t'' (sz ''es_event_uipc_connect_t'') False,
      event_entry 79 (off ''es_events_t'' ''uipc_connect'') ''es_event_uipc_connect_t'' (sz ''es_event_uipc_connect_t'') False,
      event_entry 80 (off ''es_events_t'' ''exchangedata'') ''es_event_exchangedata_t'' (sz ''es_event_exchangedata_t'') False,
      event_entry 81 (off ''es_events_t'' ''setacl'') ''es_event_setacl_t'' (sz ''es_event_setacl_t'') False,
      event_entry 82 (off ''es_events_t'' ''setacl'') ''es_event_setacl_t'' (sz ''es_event_setacl_t'') False,
      event_entry 83 (off ''es_events_t'' ''pty_grant'') ''es_event_pty_grant_t'' (sz ''es_event_pty_grant_t'') False,
      event_entry 84 (off ''es_events_t'' ''pty_close'') ''es_event_pty_close_t'' (sz ''es_event_pty_close_t'') False,
      event_entry 85 (off ''es_events_t'' ''proc_check'') ''es_event_proc_check_t'' (sz ''es_event_proc_check_t'') False,
      event_entry 86 (off ''es_events_t'' ''proc_check'') ''es_event_proc_check_t'' (sz ''es_event_proc_check_t'') False,
      event_entry 87 (off ''es_events_t'' ''get_task'') ''es_event_get_task_t'' (sz ''es_event_get_task_t'') False,
      event_entry 88 (off ''es_events_t'' ''searchfs'') ''es_event_searchfs_t'' (sz ''es_event_searchfs_t'') False,
      event_entry 89 (off ''es_events_t'' ''searchfs'') ''es_event_searchfs_t'' (sz ''es_event_searchfs_t'') False,
      event_entry 90 (off ''es_events_t'' ''fcntl'') ''es_event_fcntl_t'' (sz ''es_event_fcntl_t'') False,
      event_entry 91 (off ''es_events_t'' ''iokit_open'') ''es_event_iokit_open_t'' (sz ''es_event_iokit_open_t'') False,
      event_entry 92 (off ''es_events_t'' ''proc_suspend_resume'') ''es_event_proc_suspend_resume_t'' (sz ''es_event_proc_suspend_resume_t'') False,
      event_entry 93 (off ''es_events_t'' ''proc_suspend_resume'') ''es_event_proc_suspend_resume_t'' (sz ''es_event_proc_suspend_resume_t'') False,
      event_entry 94 (off ''es_events_t'' ''cs_invalidated'') ''es_event_cs_invalidated_t'' (sz ''es_event_cs_invalidated_t'') False,
      event_entry 95 (off ''es_events_t'' ''get_task_name'') ''es_event_get_task_name_t'' (sz ''es_event_get_task_name_t'') False,
      event_entry 96 (off ''es_events_t'' ''trace'') ''es_event_trace_t'' (sz ''es_event_trace_t'') False,
      event_entry 97 (off ''es_events_t'' ''remote_thread_create'') ''es_event_remote_thread_create_t'' (sz ''es_event_remote_thread_create_t'') False,
      event_entry 98 (off ''es_events_t'' ''remount'') ''es_event_remount_t'' (sz ''es_event_remount_t'') False,
      event_entry 99 (off ''es_events_t'' ''remount'') ''es_event_remount_t'' (sz ''es_event_remount_t'') False,
      event_entry 100 (off ''es_events_t'' ''get_task_read'') ''es_event_get_task_read_t'' (sz ''es_event_get_task_read_t'') False,
      event_entry 101 (off ''es_events_t'' ''get_task_read'') ''es_event_get_task_read_t'' (sz ''es_event_get_task_read_t'') False,
      event_entry 102 (off ''es_events_t'' ''get_task_inspect'') ''es_event_get_task_inspect_t'' (sz ''es_event_get_task_inspect_t'') False,
      event_entry 103 (off ''es_events_t'' ''setuid'') ''es_event_setuid_t'' (sz ''es_event_setuid_t'') False,
      event_entry 104 (off ''es_events_t'' ''setgid'') ''es_event_setgid_t'' (sz ''es_event_setgid_t'') False,
      event_entry 105 (off ''es_events_t'' ''seteuid'') ''es_event_seteuid_t'' (sz ''es_event_seteuid_t'') False,
      event_entry 106 (off ''es_events_t'' ''setegid'') ''es_event_setegid_t'' (sz ''es_event_setegid_t'') False,
      event_entry 107 (off ''es_events_t'' ''setreuid'') ''es_event_setreuid_t'' (sz ''es_event_setreuid_t'') False,
      event_entry 108 (off ''es_events_t'' ''setregid'') ''es_event_setregid_t'' (sz ''es_event_setregid_t'') False,
      event_entry 109 (off ''es_events_t'' ''copyfile'') ''es_event_copyfile_t'' (sz ''es_event_copyfile_t'') False,
      event_entry 110 (off ''es_events_t'' ''copyfile'') ''es_event_copyfile_t'' (sz ''es_event_copyfile_t'') False,
      event_entry 111 (off ''es_events_t'' ''authentication'') ''es_event_authentication_t'' (sz ''es_event_authentication_t'') True,
      event_entry 112 (off ''es_events_t'' ''xp_malware_detected'') ''es_event_xp_malware_detected_t'' (sz ''es_event_xp_malware_detected_t'') True,
      event_entry 113 (off ''es_events_t'' ''xp_malware_remediated'') ''es_event_xp_malware_remediated_t'' (sz ''es_event_xp_malware_remediated_t'') True,
      event_entry 114 (off ''es_events_t'' ''lw_session_login'') ''es_event_lw_session_login_t'' (sz ''es_event_lw_session_login_t'') True,
      event_entry 115 (off ''es_events_t'' ''lw_session_logout'') ''es_event_lw_session_logout_t'' (sz ''es_event_lw_session_logout_t'') True,
      event_entry 116 (off ''es_events_t'' ''lw_session_lock'') ''es_event_lw_session_lock_t'' (sz ''es_event_lw_session_lock_t'') True,
      event_entry 117 (off ''es_events_t'' ''lw_session_unlock'') ''es_event_lw_session_unlock_t'' (sz ''es_event_lw_session_unlock_t'') True,
      event_entry 118 (off ''es_events_t'' ''screensharing_attach'') ''es_event_screensharing_attach_t'' (sz ''es_event_screensharing_attach_t'') True,
      event_entry 119 (off ''es_events_t'' ''screensharing_detach'') ''es_event_screensharing_detach_t'' (sz ''es_event_screensharing_detach_t'') True,
      event_entry 120 (off ''es_events_t'' ''openssh_login'') ''es_event_openssh_login_t'' (sz ''es_event_openssh_login_t'') True,
      event_entry 121 (off ''es_events_t'' ''openssh_logout'') ''es_event_openssh_logout_t'' (sz ''es_event_openssh_logout_t'') True,
      event_entry 122 (off ''es_events_t'' ''login_login'') ''es_event_login_login_t'' (sz ''es_event_login_login_t'') True,
      event_entry 123 (off ''es_events_t'' ''login_logout'') ''es_event_login_logout_t'' (sz ''es_event_login_logout_t'') True,
      event_entry 124 (off ''es_events_t'' ''btm_launch_item_add'') ''es_event_btm_launch_item_add_t'' (sz ''es_event_btm_launch_item_add_t'') True,
      event_entry 125 (off ''es_events_t'' ''btm_launch_item_remove'') ''es_event_btm_launch_item_remove_t'' (sz ''es_event_btm_launch_item_remove_t'') True,
      event_entry 126 (off ''es_events_t'' ''profile_add'') ''es_event_profile_add_t'' (sz ''es_event_profile_add_t'') True,
      event_entry 127 (off ''es_events_t'' ''profile_remove'') ''es_event_profile_remove_t'' (sz ''es_event_profile_remove_t'') True,
      event_entry 128 (off ''es_events_t'' ''su'') ''es_event_su_t'' (sz ''es_event_su_t'') True,
      event_entry 129 (off ''es_events_t'' ''authorization_petition'') ''es_event_authorization_petition_t'' (sz ''es_event_authorization_petition_t'') True,
      event_entry 130 (off ''es_events_t'' ''authorization_judgement'') ''es_event_authorization_judgement_t'' (sz ''es_event_authorization_judgement_t'') True,
      event_entry 131 (off ''es_events_t'' ''sudo'') ''es_event_sudo_t'' (sz ''es_event_sudo_t'') True,
      event_entry 132 (off ''es_events_t'' ''od_group_add'') ''es_event_od_group_add_t'' (sz ''es_event_od_group_add_t'') True,
      event_entry 133 (off ''es_events_t'' ''od_group_remove'') ''es_event_od_group_remove_t'' (sz ''es_event_od_group_remove_t'') True,
      event_entry 134 (off ''es_events_t'' ''od_group_set'') ''es_event_od_group_set_t'' (sz ''es_event_od_group_set_t'') True,
      event_entry 135 (off ''es_events_t'' ''od_modify_password'') ''es_event_od_modify_password_t'' (sz ''es_event_od_modify_password_t'') True,
      event_entry 136 (off ''es_events_t'' ''od_disable_user'') ''es_event_od_disable_user_t'' (sz ''es_event_od_disable_user_t'') True,
      event_entry 137 (off ''es_events_t'' ''od_enable_user'') ''es_event_od_enable_user_t'' (sz ''es_event_od_enable_user_t'') True,
      event_entry 138 (off ''es_events_t'' ''od_attribute_value_add'') ''es_event_od_attribute_value_add_t'' (sz ''es_event_od_attribute_value_add_t'') True,
      event_entry 139 (off ''es_events_t'' ''od_attribute_value_remove'') ''es_event_od_attribute_value_remove_t'' (sz ''es_event_od_attribute_value_remove_t'') True,
      event_entry 140 (off ''es_events_t'' ''od_attribute_set'') ''es_event_od_attribute_set_t'' (sz ''es_event_od_attribute_set_t'') True,
      event_entry 141 (off ''es_events_t'' ''od_create_user'') ''es_event_od_create_user_t'' (sz ''es_event_od_create_user_t'') True,
      event_entry 142 (off ''es_events_t'' ''od_create_group'') ''es_event_od_create_group_t'' (sz ''es_event_od_create_group_t'') True,
      event_entry 143 (off ''es_events_t'' ''od_delete_user'') ''es_event_od_delete_user_t'' (sz ''es_event_od_delete_user_t'') True,
      event_entry 144 (off ''es_events_t'' ''od_delete_group'') ''es_event_od_delete_group_t'' (sz ''es_event_od_delete_group_t'') True,
      event_entry 145 (off ''es_events_t'' ''xpc_connect'') ''es_event_xpc_connect_t'' (sz ''es_event_xpc_connect_t'') True,
      event_entry 146 (off ''es_events_t'' ''gatekeeper_user_override'') ''es_event_gatekeeper_user_override_t'' (sz ''es_event_gatekeeper_user_override_t'') True,
      event_entry 147 (off ''es_events_t'' ''tcc_modify'') ''es_event_tcc_modify_t'' (sz ''es_event_tcc_modify_t'') True]"

end
