(* ===== verification/Schema_Facts.thy ===== *)
theory Schema_Facts
  imports Es_Schema
begin

text \<open>
  What the generated tables guarantee the reader of fields: every event type has one row and every
  row a schema, so an event always has a view; and which field the search for a schema's name cannot resolve.
\<close>

section \<open>Names and rows\<close>

definition schema_names :: "string list" where
  "schema_names =
    [''es_event_id_t'', ''es_token_t'', ''es_string_token_t'', ''es_muted_path_t'', ''es_muted_paths_t'',
      ''es_muted_process_t'', ''es_muted_processes_t'', ''es_signed_file_info_t'', ''es_file_t'',
      ''es_process_t'', ''es_thread_t'', ''es_thread_state_t'', ''es_fd_t'', ''es_btm_launch_item_t'',
      ''es_profile_t'', ''es_event_exec_t'', ''es_event_tcc_modify_t'', ''es_event_open_t'',
      ''es_event_kextload_t'', ''es_event_kextunload_t'', ''es_event_unlink_t'', ''es_event_mmap_t'',
      ''es_event_link_t'', ''es_event_mount_t'', ''es_event_unmount_t'', ''es_event_remount_t'',
      ''es_event_fork_t'', ''es_event_mprotect_t'', ''es_event_signal_t'', ''es_event_rename_t'',
      ''es_event_setextattr_t'', ''es_event_getextattr_t'', ''es_event_deleteextattr_t'',
      ''es_event_setmode_t'', ''es_event_setflags_t'', ''es_event_setowner_t'', ''es_event_close_t'',
      ''es_event_create_t'', ''es_event_exit_t'', ''es_event_exchangedata_t'', ''es_event_write_t'',
      ''es_event_truncate_t'', ''es_event_chdir_t'', ''es_event_stat_t'', ''es_event_chroot_t'',
      ''es_event_listextattr_t'', ''es_event_iokit_open_t'', ''es_event_get_task_t'',
      ''es_event_get_task_read_t'', ''es_event_get_task_inspect_t'', ''es_event_get_task_name_t'',
      ''es_event_getattrlist_t'', ''es_event_setattrlist_t'', ''es_event_file_provider_update_t'',
      ''es_event_file_provider_materialize_t'', ''es_event_readlink_t'', ''es_event_lookup_t'',
      ''es_event_access_t'', ''es_event_utimes_t'', ''es_event_clone_t'', ''es_event_copyfile_t'',
      ''es_event_fcntl_t'', ''es_event_readdir_t'', ''es_event_fsgetpath_t'', ''es_event_settime_t'',
      ''es_event_dup_t'', ''es_event_uipc_bind_t'', ''es_event_uipc_connect_t'', ''es_event_setacl_t'',
      ''es_event_pty_grant_t'', ''es_event_pty_close_t'', ''es_event_proc_check_t'', ''es_event_searchfs_t'',
      ''es_event_proc_suspend_resume_t'', ''es_event_cs_invalidated_t'', ''es_event_trace_t'',
      ''es_event_remote_thread_create_t'', ''es_event_setuid_t'', ''es_event_setgid_t'', ''es_event_seteuid_t'',
      ''es_event_setegid_t'', ''es_event_setreuid_t'', ''es_event_setregid_t'',
      ''es_event_authentication_od_t'', ''es_event_authentication_touchid_t'',
      ''es_event_authentication_token_t'', ''es_event_authentication_auto_unlock_t'',
      ''es_event_authentication_t'', ''es_event_xp_malware_detected_t'', ''es_event_xp_malware_remediated_t'',
      ''es_event_lw_session_login_t'', ''es_event_lw_session_logout_t'', ''es_event_lw_session_lock_t'',
      ''es_event_lw_session_unlock_t'', ''es_event_screensharing_attach_t'',
      ''es_event_screensharing_detach_t'', ''es_event_openssh_login_t'', ''es_event_openssh_logout_t'',
      ''es_event_login_login_t'', ''es_event_login_logout_t'', ''es_event_btm_launch_item_add_t'',
      ''es_event_btm_launch_item_remove_t'', ''es_event_su_t'', ''es_sudo_reject_info_t'', ''es_event_sudo_t'',
      ''es_event_profile_add_t'', ''es_event_profile_remove_t'', ''es_event_authorization_petition_t'',
      ''es_authorization_result_t'', ''es_event_authorization_judgement_t'', ''es_od_member_id_t'',
      ''es_event_od_group_add_t'', ''es_event_od_group_remove_t'', ''es_od_member_id_array_t'',
      ''es_event_od_group_set_t'', ''es_event_od_modify_password_t'', ''es_event_od_disable_user_t'',
      ''es_event_od_enable_user_t'', ''es_event_od_attribute_value_add_t'',
      ''es_event_od_attribute_value_remove_t'', ''es_event_od_attribute_set_t'', ''es_event_od_create_user_t'',
      ''es_event_od_create_group_t'', ''es_event_od_delete_user_t'', ''es_event_od_delete_group_t'',
      ''es_event_xpc_connect_t'', ''es_event_gatekeeper_user_override_t'', ''es_events_t'', ''es_result_t'',
      ''es_message_t'']"

text \<open>The schema of each event, as an index into the names.\<close>

definition schema_of_event :: "nat list" where
  "schema_of_event =
     [15, 17, 18, 21, 27, 23, 29, 28, 20, 15, 17, 26, 36, 37, 39, 38, 47, 18, 19, 22, 21, 27, 23, 24, 46, 29,
      52, 30, 34, 33, 35, 28, 20, 40, 54, 54, 53, 53, 55, 55, 41, 41, 22, 56, 37, 52, 30, 34, 33, 35, 42, 42,
      51, 51, 43, 57, 44, 44, 58, 58, 59, 59, 61, 31, 31, 45, 45, 62, 62, 32, 32, 63, 63, 65, 64, 64, 66, 66,
      67, 67, 39, 68, 68, 69, 70, 71, 71, 47, 72, 72, 61, 46, 73, 73, 74, 50, 75, 76, 25, 25, 48, 48, 49, 77,
      78, 79, 80, 81, 82, 60, 60, 87, 88, 89, 90, 91, 92, 93, 94, 95, 96, 97, 98, 99, 100, 101, 105, 106, 102,
      107, 109, 104, 111, 112, 114, 115, 116, 117, 118, 119, 120, 121, 122, 123, 124, 125, 126, 16]"

lemma schema_table_names: "map schema_name (schema_table off) = schema_names"
  by (simp only: schema_table_def schema_entry_def list.map esrb_schema.select_convs schema_names_def)

lemma event_table_types: "map row_event_type (event_schema_table off sz) = [0..147]"
  by (simp only: event_schema_table_def event_entry_def list.map esrb_event_schema.select_convs) (simp add: upto_rec1)

lemma event_table_schemas:
  "map row_schema (event_schema_table off sz) = map (\<lambda>i. schema_names ! i) schema_of_event"
  by (simp only: event_schema_table_def event_entry_def list.map esrb_event_schema.select_convs schema_of_event_def)
    (simp add: schema_names_def)

lemma schema_of_event_bound: "\<forall>i\<in>set schema_of_event. i < length schema_names"
  by (simp add: schema_of_event_def schema_names_def)

lemma event_schemas_named: "row \<in> set (event_schema_table off sz) \<Longrightarrow> row_schema row \<in> set schema_names"
proof -
  assume "row \<in> set (event_schema_table off sz)"
  then have "row_schema row \<in> set (map (\<lambda>i. schema_names ! i) schema_of_event)"
    unfolding event_table_schemas [of off sz, symmetric] by simp
  then show ?thesis using schema_of_event_bound by auto
qed

lemma event_schemas_prefix: "\<forall>name\<in>set (map row_schema (event_schema_table off sz)). take 9 name = ''es_event_''"
  by (simp only: event_schema_table_def event_entry_def list.map esrb_event_schema.select_convs) simp

lemma event_class: "take 9 name = ''es_event_'' \<Longrightarrow> class_for_schema name = ''Event''"
  by (auto simp: class_for_schema_def)

section \<open>Views of events\<close>

lemma find_by_name:
  "name \<in> set (map schema_name schemas) \<Longrightarrow>
    \<exists>s. List.find (\<lambda>s. schema_name s = name) schemas = Some s \<and> schema_name s = name"
  by (induction schemas) auto

lemma event_row_found:
  "type \<in> set (map row_event_type rows) \<Longrightarrow>
    \<exists>row. event_row type rows = Some row \<and> row \<in> set rows \<and> row_event_type row = type"
  by (induction rows) auto

lemma event_row_missing: "type \<notin> set (map row_event_type rows) \<Longrightarrow> event_row type rows = None"
  by (induction rows) auto

text \<open>A world whose tables are the generated ones.\<close>

definition generated_tables :: "(string \<Rightarrow> uint64) \<Rightarrow> field_world \<Rightarrow> bool" where
  "generated_tables sz w \<longleftrightarrow> esrb_schemas w = schema_table (offsetof w) \<and>
     esrb_event_schemas w = event_schema_table (offsetof w) sz"

text \<open>C30. With the generated tables, a message of any of the 148 event types has an event: the first row of its
  type gives a pointer, and if that is not null the event is a view of class Event at it, with the schema the
  row names and the version of the message. A message of any other type has none.\<close>

theorem every_event_has_view:
  assumes "generated_tables sz w"
  shows "if 0 \<le> msg_event_type m \<and> msg_event_type m < 148
    then \<exists>row schema. event_row (msg_event_type m) (esrb_event_schemas w) = Some row \<and>
        row_event_type row = msg_event_type m \<and> schema_name schema = row_schema row \<and>
        find_schema w (row_schema row) = Some schema \<and>
        esrb_event_wrap w m strict = (if event_pointer w m row = 0 then Qnil
          else RObject ''Event'' [ull2num (event_pointer w m row), RStr (row_schema row),
            uint2num (msg_version m), ruby_bool strict])
    else esrb_event_wrap w m strict = Qnil"
proof -
  let ?rows = "event_schema_table (offsetof w) sz"
  have rows: "esrb_event_schemas w = ?rows" and schemas: "esrb_schemas w = schema_table (offsetof w)"
    using assms by (simp_all add: generated_tables_def)
  have types: "set (map row_event_type ?rows) = {0..147}" by (simp only: event_table_types set_upto)
  show ?thesis
  proof (cases "0 \<le> msg_event_type m \<and> msg_event_type m < 148")
    case True
    then have "msg_event_type m \<in> set (map row_event_type ?rows)" unfolding types by simp
    then obtain row where row: "event_row (msg_event_type m) ?rows = Some row" "row \<in> set ?rows"
        "row_event_type row = msg_event_type m" using event_row_found by blast
    have "row_schema row \<in> set (map schema_name (schema_table (offsetof w)))"
      unfolding schema_table_names by (rule event_schemas_named [OF row(2)])
    then obtain schema where schema: "find_schema w (row_schema row) = Some schema" "schema_name schema = row_schema row"
      unfolding find_schema_def schemas by (blast dest: find_by_name)
    have "take 9 (row_schema row) = ''es_event_''"
      using event_schemas_prefix [of "offsetof w" sz] row(2) by (simp del: take.simps)
    then have "class_for_schema (row_schema row) = ''Event''" by (rule event_class)
    then have "esrb_event_wrap w m strict = (if event_pointer w m row = 0 then Qnil
          else RObject ''Event'' [ull2num (event_pointer w m row), RStr (row_schema row),
            uint2num (msg_version m), ruby_bool strict])"
      by (simp add: esrb_event_wrap_def rows row(1) esrb_view_wrap_def make_view_def schema view_object_def)
    then show ?thesis unfolding if_P [OF True] rows using row(1,3) schema by blast
  next
    case False
    then have "msg_event_type m \<notin> set (map row_event_type ?rows)" unfolding types by auto
    then have "event_row (msg_event_type m) ?rows = None" by (rule event_row_missing)
    then show ?thesis unfolding if_not_P [OF False] by (simp add: esrb_event_wrap_def rows)
  qed
qed

definition generated_world :: field_world where
  "generated_world = sample_fields\<lparr>esrb_schemas := schema_table (\<lambda>struct name. 0),
     esrb_event_schemas := event_schema_table (\<lambda>struct name. 0) (\<lambda>struct. 0)\<rparr>"

lemma generated_world: "generated_tables (\<lambda>struct. 0) generated_world" "offsetof generated_world = (\<lambda>struct name. 0)"
  by (simp_all add: generated_tables_def generated_world_def sample_fields_def)

theorem every_event_has_view_witness:
  "\<exists>row schema. event_row 0 (esrb_event_schemas generated_world) = Some row \<and>
    find_schema generated_world (row_schema row) = Some schema \<and>
    esrb_event_wrap generated_world (sample_message\<lparr>msg_event_type := 148\<rparr>) True = Qnil"
  using every_event_has_view [OF generated_world(1), of "sample_message\<lparr>msg_event_type := 0\<rparr>" True]
    every_event_has_view [OF generated_world(1), of "sample_message\<lparr>msg_event_type := 148\<rparr>" True]
  by auto

section \<open>A field that is never read\<close>

lemma no_schema_es_t: "generated_tables sz w \<Longrightarrow> find_schema w ''es_t'' = None"
proof -
  assume "generated_tables sz w"
  then have "map schema_name (esrb_schemas w) = schema_names" by (simp add: generated_tables_def schema_table_names)
  moreover have "''es_t'' \<notin> set schema_names" by (simp add: schema_names_def)
  ultimately have "''es_t'' \<notin> schema_name ` set (esrb_schemas w)" by (simp only: set_map [symmetric]) simp
  then show ?thesis unfolding find_schema_def find_None_iff by (metis imageI)
qed

text \<open>C35. The state of a new remote thread cannot be read: the search for the schema of \<open>es_thread_state_t *\<close>
  stops at the first \<open>_t\<close>, finds \<open>es_t\<close>, which is no schema, and the field is nil whatever the event holds,
  although the tables have a schema of that name.\<close>

theorem thread_state_never_read:
  assumes "generated_tables sz w"
    and "view_schema view = schema_entry ''es_event_remote_thread_create_t'' (fields_es_event_remote_thread_create_t (offsetof w))"
  shows "(\<exists>field. find_field view ''thread_state'' = Some field \<and> read_available w view field = Inr Qnil) \<and>
    (\<exists>schema. find_schema w ''es_thread_state_t'' = Some schema)"
proof -
  have r: "referenced_schema_name ''es_thread_state_t *'' 128 = ''es_t''"
    by (simp add: referenced_schema_name_def starts_with_def)
  let ?f = "entry ''thread_state'' ''es_thread_state_t *''
    (offsetof w ''es_event_remote_thread_create_t'' ''thread_state'') 1"
  have find: "find_field view ''thread_state'' = Some ?f"
    by (simp add: find_field_def assms(2) schema_entry_def fields_es_event_remote_thread_create_t_def entry_def)
  have "read_reference w view ''es_thread_state_t *'' a = Inr Qnil" for a
    by (simp add: read_reference_def r no_schema_es_t [OF assms(1)] is_pointer_def)
  then have "read_value w view ?f = Inr Qnil"
    by (simp add: read_value_def entry_def Let_def starts_with_def assms(2) schema_entry_def)
  then have read: "read_available w view ?f = Inr Qnil"
    by (simp add: read_available_def starts_with_def is_pointer_def entry_def read_array_def assms(2) schema_entry_def)
  have "''es_thread_state_t'' \<in> set (map schema_name (schema_table (offsetof w)))"
    unfolding schema_table_names by (simp add: schema_names_def)
  then have "\<exists>schema. find_schema w ''es_thread_state_t'' = Some schema"
    using assms(1) find_by_name unfolding find_schema_def generated_tables_def by metis
  with find read show ?thesis by blast
qed

theorem thread_state_never_read_witness:
  "\<exists>field. find_field \<lparr>view_pointer = 0x1000, view_schema = schema_entry ''es_event_remote_thread_create_t''
      (fields_es_event_remote_thread_create_t (\<lambda>struct name. 0)), view_message_version = 7, view_strict_version = True\<rparr>
      ''thread_state'' = Some field \<and>
    read_available generated_world \<lparr>view_pointer = 0x1000, view_schema = schema_entry ''es_event_remote_thread_create_t''
      (fields_es_event_remote_thread_create_t (\<lambda>struct name. 0)), view_message_version = 7, view_strict_version = True\<rparr>
      field = Inr Qnil"
  by (rule thread_state_never_read [OF generated_world(1), THEN conjunct1]) (simp add: generated_world(2))

end
