(* ===== verification/Es_Mock.thy ===== *)
theory Es_Mock
  imports Schema_Facts
begin

text \<open>
  The mock of the Endpoint Security framework the tests run against (support/esmock/esmock.c) and the
  Ruby module that drives it (client.c, mock_inject to mock_set_delete_result). The statics of the file,
  the clients and the messages it has allocated are one record; an allocated message is found by the
  address of its \<open>es_message_t\<close>. \<open>None\<close> as the result of a step is undefined behaviour: a null
  dereference or a use after free. What the platform decides, an address, the time, the failure of an
  allocation, is an argument.
\<close>

section \<open>State\<close>

abbreviation (input) "ES_EVENT_TYPE_AUTH_EXEC \<equiv> (0 :: int)"
abbreviation (input) "ES_EVENT_TYPE_NOTIFY_EXEC \<equiv> (9 :: int)"
abbreviation (input) "ES_EVENT_TYPE_NOTIFY_MOUNT \<equiv> (22 :: int)"
abbreviation (input) "ES_EVENT_TYPE_NOTIFY_GETATTRLIST \<equiv> (53 :: int)"
abbreviation (input) "ES_EVENT_TYPE_NOTIFY_GATEKEEPER_USER_OVERRIDE \<equiv> (146 :: int)"
abbreviation (input) "ES_EVENT_TYPE_RESERVED_0 \<equiv> (148 :: int)"
abbreviation (input) "ES_MUTE_INVERSION_TYPE_LAST \<equiv> (3 :: int)"
abbreviation (input) "ES_RETURN_ERROR \<equiv> (1 :: int)"
abbreviation (input) "ES_RESPOND_RESULT_ERR_INVALID_ARGUMENT \<equiv> (1 :: int)"
abbreviation (input) "ES_CLEAR_CACHE_RESULT_SUCCESS \<equiv> (0 :: int)"
abbreviation (input) "ES_CLEAR_CACHE_RESULT_ERR_INTERNAL \<equiv> (1 :: int)"

record es_client =
  creator :: int
  subscriptions :: "bool list"

record mock_file =
  file_path :: string
  path_truncated :: bool

record mock_message =
  references :: size_t
  the_message :: es_message
  source_file :: mock_file
  target_file :: mock_file
  cdhash_first :: "8 word"
  source_is_es_client :: bool
  event_data :: "uint64 option"
  exec_target :: bool
  mount_statfs :: "(uint32 \<times> string) option"
  event_attrlist :: "(nat \<times> nat) option"
  sha256_first :: "8 word option"

record mock_state =
  responses :: size_t
  last_response :: uint32
  inverted :: "bool list"
  next_new_client_result :: int
  next_respond_result :: int
  next_delete_result :: int
  client_total :: size_t
  delete_on_creator_thread :: bool
  natives :: "nat \<Rightarrow> es_client option"
  messages :: "uint64 \<Rightarrow> mock_message option"

section \<open>Clients\<close>

text \<open>\<open>fresh\<close> is what \<open>calloc\<close> returns; \<open>self\<close> is the calling thread.\<close>

definition es_new_client :: "nat option \<Rightarrow> int \<Rightarrow> mock_state \<Rightarrow> int \<times> native_client \<times> mock_state" where
  "es_new_client fresh self st =
     (let result = next_new_client_result st;
          st = st\<lparr>next_new_client_result := ES_NEW_CLIENT_RESULT_SUCCESS\<rparr>
      in if result \<noteq> ES_NEW_CLIENT_RESULT_SUCCESS then (result, None, st)
         else case fresh of
           None \<Rightarrow> (ES_NEW_CLIENT_RESULT_ERR_INTERNAL, None, st)
         | Some c \<Rightarrow> (ES_NEW_CLIENT_RESULT_SUCCESS, Some c,
             st\<lparr>natives := (natives st)(c \<mapsto> \<lparr>creator = self, subscriptions = replicate ES_EVENT_TYPE_LAST False\<rparr>),
               client_total := client_total st + 1\<rparr>))"

definition es_delete_client :: "int \<Rightarrow> native_client \<Rightarrow> mock_state \<Rightarrow> (int \<times> mock_state) option" where
  "es_delete_client self client st =
     (case client of
        None \<Rightarrow> Some (ES_RETURN_ERROR, st)
      | Some c \<Rightarrow> map_option (\<lambda>native.
          let st = st\<lparr>delete_on_creator_thread := (creator native = self), client_total := client_total st - 1,
                natives := (natives st)(c := None)\<rparr>
          in (next_delete_result st, st\<lparr>next_delete_result := ES_RETURN_SUCCESS\<rparr>)) (natives st c))"

section \<open>Subscriptions\<close>

definition known_event :: "int \<Rightarrow> bool" where
  "known_event event \<longleftrightarrow> \<not> (event < 0 \<or> event \<ge> int ES_EVENT_TYPE_LAST)"

definition set_subscription :: "bool \<Rightarrow> int \<Rightarrow> bool list \<Rightarrow> bool list" where
  "set_subscription on event subs = subs[nat event := on]"

text \<open>Runs an operation on the subscriptions of a client that is not null. An array of events is its list,
  null is \<open>None\<close>.\<close>

definition on_client :: "native_client \<Rightarrow> (bool list \<Rightarrow> int \<times> bool list) \<Rightarrow> mock_state \<Rightarrow> (int \<times> mock_state) option" where
  "on_client client f st =
     (case client of
        None \<Rightarrow> Some (ES_RETURN_ERROR, st)
      | Some c \<Rightarrow> map_option (\<lambda>native. case f (subscriptions native) of (result, subs) \<Rightarrow>
          (result, st\<lparr>natives := (natives st)(c \<mapsto> native\<lparr>subscriptions := subs\<rparr>)\<rparr>)) (natives st c))"

definition es_subscribe :: "native_client \<Rightarrow> int list option \<Rightarrow> mock_state \<Rightarrow> (int \<times> mock_state) option" where
  "es_subscribe client events st =
     (case events of
        None \<Rightarrow> Some (ES_RETURN_ERROR, st)
      | Some es \<Rightarrow>
          if client = None \<or> es = [] then Some (ES_RETURN_ERROR, st)
          else if list_ex (\<lambda>event. \<not> known_event event \<or> event = ES_EVENT_TYPE_RESERVED_0) es
          then Some (ES_RETURN_ERROR, st)
          else on_client client (\<lambda>subs. (ES_RETURN_SUCCESS, fold (set_subscription True) es subs)) st)"

fun unsubscribe_each :: "int list \<Rightarrow> bool list \<Rightarrow> int \<times> bool list" where
  "unsubscribe_each [] subs = (ES_RETURN_SUCCESS, subs)"
| "unsubscribe_each (event # events) subs =
     (if \<not> known_event event then (ES_RETURN_ERROR, subs)
      else unsubscribe_each events (set_subscription False event subs))"

definition es_unsubscribe :: "native_client \<Rightarrow> int list option \<Rightarrow> mock_state \<Rightarrow> (int \<times> mock_state) option" where
  "es_unsubscribe client events st =
     (case events of
        None \<Rightarrow> Some (ES_RETURN_ERROR, st)
      | Some es \<Rightarrow> if es = [] then Some (ES_RETURN_ERROR, st) else on_client client (unsubscribe_each es) st)"

definition es_unsubscribe_all :: "native_client \<Rightarrow> mock_state \<Rightarrow> (int \<times> mock_state) option" where
  "es_unsubscribe_all client =
     on_client client (\<lambda>subs. (ES_RETURN_SUCCESS, replicate (length subs) False))"

text \<open>The array of subscribed events; \<open>memory\<close> says whether \<open>malloc\<close> succeeds.\<close>

definition listed_subscriptions :: "bool list \<Rightarrow> int list" where
  "listed_subscriptions subs = map int (filter (\<lambda>i. subs ! i) [0..<ES_EVENT_TYPE_LAST])"

definition es_subscriptions :: "bool \<Rightarrow> native_client \<Rightarrow> mock_state \<Rightarrow> (int \<times> int list) option" where
  "es_subscriptions memory client st =
     (case client of
        None \<Rightarrow> Some (ES_RETURN_ERROR, [])
      | Some c \<Rightarrow> map_option (\<lambda>native.
          let events = listed_subscriptions (subscriptions native)
          in if events \<noteq> [] \<and> \<not> memory then (ES_RETURN_ERROR, []) else (ES_RETURN_SUCCESS, events)) (natives st c))"

section \<open>Muting\<close>

definition es_mute_process :: "native_client \<Rightarrow> audit_token option \<Rightarrow> int" where
  "es_mute_process client token = (if client \<noteq> None \<and> token \<noteq> None then ES_RETURN_SUCCESS else ES_RETURN_ERROR)"

definition es_unmute_process :: "native_client \<Rightarrow> audit_token option \<Rightarrow> int" where
  "es_unmute_process = es_mute_process"

definition es_mute_process_events :: "native_client \<Rightarrow> audit_token option \<Rightarrow> int list option \<Rightarrow> int" where
  "es_mute_process_events client token events =
     (if client \<noteq> None \<and> token \<noteq> None \<and> events \<noteq> None \<and> events \<noteq> Some []
      then ES_RETURN_SUCCESS else ES_RETURN_ERROR)"

definition es_unmute_process_events :: "native_client \<Rightarrow> audit_token option \<Rightarrow> int list option \<Rightarrow> int" where
  "es_unmute_process_events = es_mute_process_events"

definition es_mute_path :: "native_client \<Rightarrow> string option \<Rightarrow> int \<Rightarrow> int" where
  "es_mute_path client path type = (if client \<noteq> None \<and> path \<noteq> None then ES_RETURN_SUCCESS else ES_RETURN_ERROR)"

definition es_unmute_path :: "native_client \<Rightarrow> string option \<Rightarrow> int \<Rightarrow> int" where
  "es_unmute_path = es_mute_path"

definition es_mute_path_events :: "native_client \<Rightarrow> string option \<Rightarrow> int \<Rightarrow> int list option \<Rightarrow> int" where
  "es_mute_path_events client path type events =
     (if client \<noteq> None \<and> path \<noteq> None \<and> events \<noteq> None \<and> events \<noteq> Some []
      then ES_RETURN_SUCCESS else ES_RETURN_ERROR)"

definition es_unmute_path_events :: "native_client \<Rightarrow> string option \<Rightarrow> int \<Rightarrow> int list option \<Rightarrow> int" where
  "es_unmute_path_events = es_mute_path_events"

definition es_unmute_all_paths :: "native_client \<Rightarrow> int" where
  "es_unmute_all_paths client = (if client = None then ES_RETURN_ERROR else ES_RETURN_SUCCESS)"

definition es_unmute_all_target_paths :: "native_client \<Rightarrow> int" where
  "es_unmute_all_target_paths = es_unmute_all_paths"

definition inversion_type :: "native_client \<Rightarrow> int \<Rightarrow> bool" where
  "inversion_type client type \<longleftrightarrow> \<not> (client = None \<or> type < 0 \<or> type \<ge> ES_MUTE_INVERSION_TYPE_LAST)"

definition es_invert_muting :: "native_client \<Rightarrow> int \<Rightarrow> mock_state \<Rightarrow> int \<times> mock_state" where
  "es_invert_muting client type st =
     (if \<not> inversion_type client type then (ES_RETURN_ERROR, st)
      else (ES_RETURN_SUCCESS, st\<lparr>inverted := (inverted st)[nat type := \<not> inverted st ! nat type]\<rparr>))"

definition es_muting_inverted :: "native_client \<Rightarrow> int \<Rightarrow> mock_state \<Rightarrow> int" where
  "es_muting_inverted client type st =
     (if \<not> inversion_type client type then ES_MUTE_INVERTED_ERROR
      else if inverted st ! nat type then ES_MUTE_INVERTED else ES_MUTE_NOT_INVERTED)"

definition es_clear_cache :: "native_client \<Rightarrow> int" where
  "es_clear_cache client = (if client = None then ES_CLEAR_CACHE_RESULT_ERR_INTERNAL else ES_CLEAR_CACHE_RESULT_SUCCESS)"

text \<open>An empty set, when memory allows.\<close>

definition es_muted_paths_events :: "bool \<Rightarrow> native_client \<Rightarrow> int \<times> es_muted_path list option" where
  "es_muted_paths_events memory client =
     (if client = None \<or> \<not> memory then (ES_RETURN_ERROR, None) else (ES_RETURN_SUCCESS, Some []))"

definition es_muted_processes_events :: "bool \<Rightarrow> native_client \<Rightarrow> int \<times> es_muted_process list option" where
  "es_muted_processes_events memory client =
     (if client = None \<or> \<not> memory then (ES_RETURN_ERROR, None) else (ES_RETURN_SUCCESS, Some []))"

section \<open>Responses\<close>

text \<open>Both kinds of response: the result set for the next response is used once.\<close>

definition take_response :: "uint32 \<Rightarrow> mock_state \<Rightarrow> int \<times> mock_state" where
  "take_response value st =
     (let response = next_respond_result st;
          st = st\<lparr>next_respond_result := ES_RESPOND_RESULT_SUCCESS\<rparr>
      in if response \<noteq> ES_RESPOND_RESULT_SUCCESS then (response, st)
         else (ES_RESPOND_RESULT_SUCCESS, st\<lparr>last_response := value, responses := responses st + 1\<rparr>))"

definition auth_code :: "es_auth_result \<Rightarrow> uint32" where
  "auth_code result = (case result of
     ES_AUTH_RESULT_ALLOW \<Rightarrow> 0 | ES_AUTH_RESULT_DENY \<Rightarrow> 1 | ES_AUTH_RESULT_OTHER n \<Rightarrow> word_of_int n)"

definition es_respond_auth_result ::
    "native_client \<Rightarrow> es_message option \<Rightarrow> es_auth_result \<Rightarrow> bool \<Rightarrow> mock_state \<Rightarrow> int \<times> mock_state" where
  "es_respond_auth_result client message result cache st =
     (if client = None \<or> message = None then (ES_RESPOND_RESULT_ERR_INVALID_ARGUMENT, st)
      else take_response (auth_code result) st)"

definition es_respond_flags_result ::
    "native_client \<Rightarrow> es_message option \<Rightarrow> uint32 \<Rightarrow> bool \<Rightarrow> mock_state \<Rightarrow> int \<times> mock_state" where
  "es_respond_flags_result client message flags cache st =
     (if client = None \<or> message = None then (ES_RESPOND_RESULT_ERR_INVALID_ARGUMENT, st)
      else take_response flags st)"

section \<open>Messages\<close>

definition es_retain_message :: "uint64 \<Rightarrow> mock_state \<Rightarrow> mock_state option" where
  "es_retain_message message st = map_option (\<lambda>mock.
     st\<lparr>messages := (messages st)(message \<mapsto> mock\<lparr>references := references mock + 1\<rparr>)\<rparr>) (messages st message)"

definition es_release_message :: "uint64 \<Rightarrow> mock_state \<Rightarrow> mock_state option" where
  "es_release_message message st = map_option (\<lambda>mock.
     if references mock = 1 then st\<lparr>messages := (messages st)(message := None)\<rparr>
     else st\<lparr>messages := (messages st)(message \<mapsto> mock\<lparr>references := references mock - 1\<rparr>)\<rparr>) (messages st message)"

text \<open>What the platform gives an injection: where the message is allocated, and its event data, the
  address of a process in it, and the clocks.\<close>

record mock_platform =
  message_address :: "uint64 option"
  data_address :: "uint64 option"
  process_in :: "uint64 \<Rightarrow> uint64"
  realtime :: "int \<times> int"
  ticks :: uint64

abbreviation (input) "ATTR_BIT_MAP_COUNT \<equiv> (5 :: nat)"

definition notify_result :: "es_action_type \<Rightarrow> int \<Rightarrow> uint32 \<Rightarrow> es_notify_result" where
  "notify_result action result_type result =
     (if action \<noteq> ES_ACTION_TYPE_NOTIFY then ES_RESULT_TYPE_AUTH ES_AUTH_RESULT_ALLOW
      else if result_type = 1 then ES_RESULT_TYPE_FLAGS result
      else if result_type = 0
      then ES_RESULT_TYPE_AUTH (if result = 0 then ES_AUTH_RESULT_ALLOW else if result = 1 then ES_AUTH_RESULT_DENY
        else ES_AUTH_RESULT_OTHER (uint result))
      else ES_RESULT_TYPE_OTHER result_type)"

definition injected_message ::
    "mock_platform \<Rightarrow> uint64 \<Rightarrow> int \<Rightarrow> es_action_type \<Rightarrow> uint64 \<Rightarrow> uint32 \<Rightarrow> int \<Rightarrow> uint32 \<Rightarrow> bool \<Rightarrow> mock_message" where
  "injected_message p address event_type action deadline version result_type result source_es_client =
     \<lparr>references = 1,
      the_message = \<lparr>msg_address = address, msg_version = version, msg_event_type = event_type,
        msg_action_type = action, msg_deadline = deadline, msg_mach_time = ticks p, msg_seq_num = 0,
        msg_global_seq_num = 0, msg_notify_result = notify_result action result_type result,
        msg_time = realtime p, msg_process = process_in p address, msg_thread = 0\<rparr>,
      source_file = \<lparr>file_path = ''/usr/bin/mock-source'', path_truncated = True\<rparr>,
      target_file = \<lparr>file_path = ''/usr/bin/mock-target'', path_truncated = True\<rparr>,
      cdhash_first = 0xff, source_is_es_client = source_es_client, event_data = None, exec_target = False,
      mount_statfs = None, event_attrlist = None, sha256_first = None\<rparr>"

text \<open>The parts of the event the mock fills in. Without event data, the last one writes through null.\<close>

definition fill_event :: "int \<Rightarrow> mock_message \<Rightarrow> mock_message option" where
  "fill_event event_type mock =
     (let mock = (if event_type = ES_EVENT_TYPE_AUTH_EXEC \<or> event_type = ES_EVENT_TYPE_NOTIFY_EXEC
            then mock\<lparr>exec_target := True\<rparr> else mock);
          mock = (if event_type = ES_EVENT_TYPE_NOTIFY_MOUNT then mock\<lparr>mount_statfs := Some (4096, ''mockfs'')\<rparr> else mock);
          mock = (if event_type = ES_EVENT_TYPE_NOTIFY_GETATTRLIST
            then mock\<lparr>event_attrlist := Some (ATTR_BIT_MAP_COUNT, 1)\<rparr> else mock)
      in if event_type \<noteq> ES_EVENT_TYPE_NOTIFY_GATEKEEPER_USER_OVERRIDE then Some mock
         else if event_data mock = None then None
         else Some (mock\<lparr>sha256_first := Some 0xff\<rparr>))"

text \<open>\<open>handler\<close> is the block of the client, run on the message.\<close>

definition esmock_inject ::
    "mock_platform \<Rightarrow> (uint64 \<Rightarrow> mock_state \<Rightarrow> mock_state option) \<Rightarrow> nat \<Rightarrow> int \<Rightarrow> es_action_type \<Rightarrow> uint64 \<Rightarrow>
      uint32 \<Rightarrow> uint64 \<Rightarrow> int \<Rightarrow> uint32 \<Rightarrow> bool \<Rightarrow> mock_state \<Rightarrow> mock_state option" where
  "esmock_inject p handler client event_type action deadline version event_size result_type result source_es_client st =
     Option.bind (message_address p) (\<lambda>address.
       let mock = injected_message p address event_type action deadline version result_type result source_es_client
       in if event_size > 0 \<and> data_address p = None
          then es_release_message address (st\<lparr>messages := (messages st)(address \<mapsto> mock)\<rparr>)
          else Option.bind
            (fill_event event_type (if event_size > 0 then mock\<lparr>event_data := data_address p\<rparr> else mock)) (\<lambda>mock.
            if natives st client = None then None
            else Option.bind (handler address (st\<lparr>messages := (messages st)(address \<mapsto> mock)\<rparr>))
              (es_release_message address)))"

section \<open>Inspecting and resetting\<close>

definition esmock_response_count :: "mock_state \<Rightarrow> size_t" where
  "esmock_response_count st = responses st"

definition esmock_last_response :: "mock_state \<Rightarrow> uint32" where
  "esmock_last_response st = last_response st"

definition esmock_client_count :: "mock_state \<Rightarrow> size_t" where
  "esmock_client_count st = client_total st"

definition esmock_delete_on_creator_thread :: "mock_state \<Rightarrow> bool" where
  "esmock_delete_on_creator_thread st = delete_on_creator_thread st"

definition esmock_set_new_client_result :: "int \<Rightarrow> mock_state \<Rightarrow> mock_state" where
  "esmock_set_new_client_result result st = st\<lparr>next_new_client_result := result\<rparr>"

definition esmock_set_respond_result :: "int \<Rightarrow> mock_state \<Rightarrow> mock_state" where
  "esmock_set_respond_result result st = st\<lparr>next_respond_result := result\<rparr>"

definition esmock_set_delete_result :: "int \<Rightarrow> mock_state \<Rightarrow> mock_state" where
  "esmock_set_delete_result result st = st\<lparr>next_delete_result := result\<rparr>"

definition esmock_reset :: "mock_state \<Rightarrow> mock_state" where
  "esmock_reset st = st\<lparr>responses := 0, last_response := 0, next_new_client_result := ES_NEW_CLIENT_RESULT_SUCCESS,
     next_respond_result := ES_RESPOND_RESULT_SUCCESS, next_delete_result := ES_RETURN_SUCCESS, client_total := 0,
     delete_on_creator_thread := True, inverted := [False, False, False]\<rparr>"

text \<open>The mock of the exec accessors: no arguments, no variables, no descriptors.\<close>

definition mock_exec_args :: "uint64 \<Rightarrow> es_string_token list" where
  "mock_exec_args event = []"

definition mock_exec_env :: "uint64 \<Rightarrow> es_string_token list" where
  "mock_exec_env event = []"

definition mock_exec_fds :: "uint64 \<Rightarrow> uint64 list" where
  "mock_exec_fds event = []"

section \<open>The Ruby module\<close>

text \<open>The arguments \<open>mock_inject\<close> passes on. A call without keywords dereferences \<open>nil\<close> as a hash and has
  no model; \<open>now\<close> and \<open>timebase\<close> are the clock's.\<close>

definition injection_deadline :: "uint64 \<Rightarrow> uint32 \<times> uint32 \<Rightarrow> uint64 \<Rightarrow> uint64" where
  "injection_deadline now timebase delay = now + (delay * 1000000 * ucast (snd timebase)) div ucast (fst timebase)"

definition injection_size :: "esrb_event_schema list \<Rightarrow> int \<Rightarrow> uint64" where
  "injection_size rows event_type =
     (case List.find (\<lambda>row. row_event_type row = event_type \<and> row_indirect row) rows of
        None \<Rightarrow> 0 | Some row \<Rightarrow> row_size row)"

definition action_of :: "int \<Rightarrow> es_action_type" where
  "action_of n = (if n = 0 then ES_ACTION_TYPE_AUTH else if n = 1 then ES_ACTION_TYPE_NOTIFY else ES_ACTION_TYPE_OTHER n)"

definition unless_given :: "(string \<times> ruby_value) list \<Rightarrow> string \<Rightarrow> 'a \<Rightarrow> (ruby_value \<Rightarrow> 'a ruby) \<Rightarrow> 'a ruby" where
  "unless_given options name default_value convert =
     (let v = hash_aref options name in if v = Qnil then Inr default_value else convert v)"

definition mock_inject ::
    "ruby_world \<Rightarrow> field_world \<Rightarrow> uint32 \<times> uint32 \<Rightarrow> uint64 \<Rightarrow> mock_platform \<Rightarrow> (uint64 \<Rightarrow> mock_state \<Rightarrow> mock_state option) \<Rightarrow>
      (string \<times> ruby_value) list \<Rightarrow> esrb_client \<Rightarrow> mock_state \<Rightarrow> (ruby_value ruby \<times> mock_state) option" where
  "mock_inject world w timebase now p handler options s st =
     (case bind_ruby (hash_fetch options ''event'') (\<lambda>event.
        bind_ruby (get_open_client world s) (\<lambda>_.
        bind_ruby (unless_given options ''deadline_ms'' 1000 num2ulong) (\<lambda>delay.
        bind_ruby (num2int event) (\<lambda>event_type.
        bind_ruby (unless_given options ''version'' 4 num2uint) (\<lambda>version.
        bind_ruby (unless_given options ''action_type''
          (if rtest (hash_aref options ''auth'') then 0 else 1) num2int) (\<lambda>action.
        bind_ruby (unless_given options ''result_type'' 0 num2int) (\<lambda>result_type.
        bind_ruby (unless_given options ''result'' 0 num2uint) (\<lambda>result.
          Inr (delay, event_type, version, action, result_type, result))))))))) of
        Inl e \<Rightarrow> Some (Inl e, st)
      | Inr (delay, event_type, version, action, result_type, result) \<Rightarrow>
          Option.bind (native s) (\<lambda>client.
          map_option (\<lambda>st. (Inr Qnil, st))
            (esmock_inject p handler client event_type (action_of action) (injection_deadline now timebase delay)
              version (injection_size (esrb_event_schemas w) event_type) result_type result
              (rtest (hash_aref options ''source_es_client'')) st)))"

definition mock_response_count :: "mock_state \<Rightarrow> ruby_value" where
  "mock_response_count st = ull2num (esmock_response_count st)"

definition mock_last_response :: "mock_state \<Rightarrow> ruby_value" where
  "mock_last_response st = uint2num (esmock_last_response st)"

definition mock_client_count :: "mock_state \<Rightarrow> ruby_value" where
  "mock_client_count st = ull2num (esmock_client_count st)"

definition mock_delete_on_creator_thread :: "mock_state \<Rightarrow> ruby_value" where
  "mock_delete_on_creator_thread st = ruby_bool (esmock_delete_on_creator_thread st)"

definition mock_reset :: "mock_state \<Rightarrow> ruby_value \<times> mock_state" where
  "mock_reset st = (Qnil, esmock_reset st)"

text \<open>The three setters convert and store.\<close>

definition mock_set ::
    "(int \<Rightarrow> mock_state \<Rightarrow> mock_state) \<Rightarrow> ruby_value \<Rightarrow> mock_state \<Rightarrow> ruby_value ruby \<times> mock_state" where
  "mock_set store result st = (case num2int result of Inl e \<Rightarrow> (Inl e, st) | Inr n \<Rightarrow> (Inr result, store n st))"

definition mock_set_new_client_result :: "ruby_value \<Rightarrow> mock_state \<Rightarrow> ruby_value ruby \<times> mock_state" where
  "mock_set_new_client_result = mock_set esmock_set_new_client_result"

definition mock_set_respond_result :: "ruby_value \<Rightarrow> mock_state \<Rightarrow> ruby_value ruby \<times> mock_state" where
  "mock_set_respond_result = mock_set esmock_set_respond_result"

definition mock_set_delete_result :: "ruby_value \<Rightarrow> mock_state \<Rightarrow> ruby_value ruby \<times> mock_state" where
  "mock_set_delete_result = mock_set esmock_set_delete_result"

end
