(* ===== verification/Mock_Laws.thy ===== *)
theory Mock_Laws
  imports Es_Mock
begin

text \<open>
  What the mock promises the tests: its array of subscriptions is a set, and an injected message lives
  exactly as long as the client holds it.
\<close>

section \<open>The interface of a set of events\<close>

locale event_set =
  fixes put :: "bool \<Rightarrow> int \<Rightarrow> 's \<Rightarrow> 's" and elems :: "'s \<Rightarrow> int set" and room :: "'s \<Rightarrow> int \<Rightarrow> bool"
  assumes put_in: "room s e \<Longrightarrow> elems (put True e s) = insert e (elems s)"
    and put_out: "room s e \<Longrightarrow> elems (put False e s) = elems s - {e}"
    and put_room: "room (put b e s) = room s"
begin

lemma fold_room: "room (fold (put b) es s) = room s"
  by (induction es arbitrary: s) (simp_all add: put_room)

lemma fold_in: "\<forall>e\<in>set es. room s e \<Longrightarrow> elems (fold (put True) es s) = elems s \<union> set es"
  by (induction es arbitrary: s) (auto simp: put_in put_room)

lemma fold_out: "\<forall>e\<in>set es. room s e \<Longrightarrow> elems (fold (put False) es s) = elems s - set es"
  by (induction es arbitrary: s) (auto simp: put_out put_room)

end

definition subscribed :: "bool list \<Rightarrow> int set" where
  "subscribed subs = {event. 0 \<le> event \<and> nat event < length subs \<and> subs ! nat event}"

definition has_event :: "bool list \<Rightarrow> int \<Rightarrow> bool" where
  "has_event subs event \<longleftrightarrow> 0 \<le> event \<and> nat event < length subs"

interpretation subs: event_set set_subscription subscribed has_event
  by unfold_locales
    (auto simp: set_subscription_def subscribed_def has_event_def nth_list_update fun_eq_iff split: if_splits)

section \<open>Subscriptions\<close>

lemma known_has_event: "length subs = ES_EVENT_TYPE_LAST \<Longrightarrow> known_event e \<longleftrightarrow> has_event subs e"
  by (auto simp: known_event_def has_event_def)

lemma length_fold_subscription [simp]: "length (fold (set_subscription b) es subs) = length subs"
  by (induction es arbitrary: subs) (simp_all add: set_subscription_def)

lemma listed_set:
  assumes "length subs = ES_EVENT_TYPE_LAST"
  shows "set (listed_subscriptions subs) = subscribed subs" "sorted_wrt (<) (listed_subscriptions subs)"
proof -
  show "set (listed_subscriptions subs) = subscribed subs"
  proof
    show "subscribed subs \<subseteq> set (listed_subscriptions subs)"
    proof
      fix e assume "e \<in> subscribed subs"
      then have "e = int (nat e)" "nat e < length subs" "subs ! nat e" by (simp_all add: subscribed_def)
      then show "e \<in> set (listed_subscriptions subs)"
        using assms unfolding listed_subscriptions_def set_map set_filter by (intro image_eqI) auto
    qed
  qed (auto simp: listed_subscriptions_def subscribed_def assms)
  have "sorted_wrt (<) [0..<ES_EVENT_TYPE_LAST]" by (rule strict_sorted_iff [THEN iffD2]) simp
  then show "sorted_wrt (<) (listed_subscriptions subs)"
    unfolding listed_subscriptions_def sorted_wrt_map by (intro sorted_wrt_filter) simp
qed

lemma unsubscribe_each_eq:
  "unsubscribe_each es subs = (if list_all known_event es then ES_RETURN_SUCCESS else ES_RETURN_ERROR,
     fold (set_subscription False) (takeWhile known_event es) subs)"
  by (induction es arbitrary: subs) simp_all

text \<open>The client has an array of the right length.\<close>

definition mock_client_ok :: "nat \<Rightarrow> bool list \<Rightarrow> mock_state \<Rightarrow> bool" where
  "mock_client_ok c subs st \<longleftrightarrow> length subs = ES_EVENT_TYPE_LAST \<and>
     (\<exists>self. natives st c = Some \<lparr>creator = self, subscriptions = subs\<rparr>)"

text \<open>Subscribing is all or nothing: with one event the framework does not know, or the reserved one,
  nothing changes, otherwise all are added. Unsubscribing is not: it fails at the first unknown event
  after it has removed those before it. The listing gives the subscribed events in strictly
  ascending order.\<close>

lemma mock_subscriptions_are_a_set:
  assumes "mock_client_ok c subs st" and "es \<noteq> []"
  shows "es_subscriptions True (Some c) st = Some (ES_RETURN_SUCCESS, listed_subscriptions subs) \<and>
    set (listed_subscriptions subs) = subscribed subs \<and> sorted_wrt (<) (listed_subscriptions subs) \<and>
    (if list_all (\<lambda>e. known_event e \<and> e \<noteq> ES_EVENT_TYPE_RESERVED_0) es
     then \<exists>subs' st'. es_subscribe (Some c) (Some es) st = Some (ES_RETURN_SUCCESS, st') \<and>
       mock_client_ok c subs' st' \<and> subscribed subs' = subscribed subs \<union> set es
     else es_subscribe (Some c) (Some es) st = Some (ES_RETURN_ERROR, st)) \<and>
    (\<exists>subs' st'. es_unsubscribe (Some c) (Some es) st =
        Some (if list_all known_event es then ES_RETURN_SUCCESS else ES_RETURN_ERROR, st') \<and>
       mock_client_ok c subs' st' \<and> subscribed subs' = subscribed subs - set (takeWhile known_event es))"
proof (intro conjI)
  have len: "length subs = ES_EVENT_TYPE_LAST" using assms(1) by (simp add: mock_client_ok_def)
  obtain self where native: "natives st c = Some \<lparr>creator = self, subscriptions = subs\<rparr>"
    using assms(1) by (auto simp: mock_client_ok_def)
  show "es_subscriptions True (Some c) st = Some (ES_RETURN_SUCCESS, listed_subscriptions subs)"
    by (simp add: es_subscriptions_def native)
  show "set (listed_subscriptions subs) = subscribed subs" "sorted_wrt (<) (listed_subscriptions subs)"
    by (rule listed_set [OF len])+
  let ?put = "\<lambda>subs. st\<lparr>natives := (natives st)(c \<mapsto> \<lparr>creator = self, subscriptions = subs\<rparr>)\<rparr>"
  have ok: "mock_client_ok c (fold (set_subscription b) xs subs) (?put (fold (set_subscription b) xs subs))" for b xs
    by (simp add: mock_client_ok_def len)
  show "if list_all (\<lambda>e. known_event e \<and> e \<noteq> ES_EVENT_TYPE_RESERVED_0) es
     then \<exists>subs' st'. es_subscribe (Some c) (Some es) st = Some (ES_RETURN_SUCCESS, st') \<and>
       mock_client_ok c subs' st' \<and> subscribed subs' = subscribed subs \<union> set es
     else es_subscribe (Some c) (Some es) st = Some (ES_RETURN_ERROR, st)"
  proof (cases "list_all (\<lambda>e. known_event e \<and> e \<noteq> ES_EVENT_TYPE_RESERVED_0) es")
    case True
    then have "\<forall>e\<in>set es. has_event subs e" by (simp add: list_all_iff known_has_event [OF len])
    then have "subscribed (fold (set_subscription True) es subs) = subscribed subs \<union> set es" by (rule subs.fold_in)
    moreover have "es_subscribe (Some c) (Some es) st = Some (ES_RETURN_SUCCESS, ?put (fold (set_subscription True) es subs))"
      using True assms(2) by (simp add: es_subscribe_def on_client_def native list_ex_iff list_all_iff)
    ultimately show ?thesis unfolding if_P [OF True] using ok by blast
  next
    case False
    then show ?thesis unfolding if_not_P [OF False] using False assms(2) by (auto simp: es_subscribe_def list_ex_iff list_all_iff)
  qed
  have "\<forall>e\<in>set (takeWhile known_event es). has_event subs e"
    using known_has_event [OF len] by (auto dest: set_takeWhileD)
  then have "subscribed (fold (set_subscription False) (takeWhile known_event es) subs) =
      subscribed subs - set (takeWhile known_event es)" by (rule subs.fold_out)
  moreover have "es_unsubscribe (Some c) (Some es) st =
      Some (if list_all known_event es then ES_RETURN_SUCCESS else ES_RETURN_ERROR,
        ?put (fold (set_subscription False) (takeWhile known_event es) subs))"
    using assms(2) by (simp add: es_unsubscribe_def on_client_def native unsubscribe_each_eq)
  ultimately show "\<exists>subs' st'. es_unsubscribe (Some c) (Some es) st =
        Some (if list_all known_event es then ES_RETURN_SUCCESS else ES_RETURN_ERROR, st') \<and>
       mock_client_ok c subs' st' \<and> subscribed subs' = subscribed subs - set (takeWhile known_event es)"
    using ok by blast
qed

definition fresh_mock :: mock_state where
  "fresh_mock = esmock_reset \<lparr>responses = 0, last_response = 0, inverted = [], next_new_client_result = 0,
     next_respond_result = 0, next_delete_result = 0, client_total = 0, delete_on_creator_thread = False,
     natives = (\<lambda>c. None), messages = (\<lambda>m. None)\<rparr>"

definition one_client :: mock_state where
  "one_client = snd (snd (es_new_client (Some 7) 1 fresh_mock))"

lemma one_client_ok: "mock_client_ok 7 (replicate ES_EVENT_TYPE_LAST False) one_client"
  by (simp add: mock_client_ok_def one_client_def es_new_client_def fresh_mock_def esmock_reset_def Let_def)

lemma mock_subscriptions_are_a_set_example:
  "es_subscribe (Some 7) (Some [9, 200]) one_client = Some (ES_RETURN_ERROR, one_client) \<and>
    (\<exists>st'. es_unsubscribe (Some 7) (Some [9, 200]) one_client = Some (ES_RETURN_ERROR, st'))"
  using mock_subscriptions_are_a_set [OF one_client_ok, of "[9, 200]"] by (auto simp: known_event_def)

section \<open>The life of an injected message\<close>

text \<open>The handler as the client runs it: the calls the client makes, carried out by the mock.\<close>

fun replay :: "es_call list \<Rightarrow> mock_state \<Rightarrow> mock_state option" where
  "replay [] st = Some st"
| "replay (Es_retain_message m # calls) st = Option.bind (es_retain_message (msg_address m) st) (replay calls)"
| "replay (Es_release_message m # calls) st = Option.bind (es_release_message (msg_address m) st) (replay calls)"
| "replay (Es_respond_auth_result c m r b # calls) st = replay calls (snd (es_respond_auth_result c (Some m) r b st))"
| "replay (Es_respond_flags_result c m f b # calls) st = replay calls (snd (es_respond_flags_result c (Some m) f b st))"
| "replay (_ # calls) st = replay calls st"

text \<open>The calls hold no other message, and never give back what they do not hold.\<close>

definition balanced :: "es_message \<Rightarrow> es_call list \<Rightarrow> bool" where
  "balanced m calls \<longleftrightarrow> (\<forall>m'. Es_retain_message m' \<in> set calls \<or> Es_release_message m' \<in> set calls \<longrightarrow> m' = m) \<and>
     (\<forall>before after. calls = before @ after \<longrightarrow> 0 \<le> retain_count m before)"

lemma respond_keeps_messages [simp]:
  "messages (snd (es_respond_auth_result c m r b st)) = messages st"
  "messages (snd (es_respond_flags_result c m f b st)) = messages st"
  by (simp_all add: es_respond_auth_result_def es_respond_flags_result_def take_response_def Let_def)

text \<open>The count of references follows the calls.\<close>

lemma replay_references:
  assumes "\<forall>m'. Es_retain_message m' \<in> set calls \<or> Es_release_message m' \<in> set calls \<longrightarrow> m' = m"
    and "\<forall>before after. calls = before @ after \<longrightarrow> 0 < n + retain_count m before"
    and "messages st (msg_address m) = Some mock" "uint (references mock) = n" "n + int (length calls) < 2 ^ 64"
  shows "\<exists>st' mock'. replay calls st = Some st' \<and> messages st' (msg_address m) = Some mock' \<and>
    uint (references mock') = n + retain_count m calls"
  using assms
proof (induction calls arbitrary: st mock n)
  case Nil
  then show ?case by simp
next
  case (Cons c calls)
  have n: "0 < n" using Cons.prems(2) by (metis append_Nil retain_count_simps(1) add.right_neutral)
  have small: "n < 2 ^ 64 - 1" using Cons.prems(5) by simp
  let ?d = "retain_count m [c]"
  have rest: "0 < n + ?d + retain_count m before" if "calls = before @ after" for before after
    using Cons.prems(2) [THEN spec, of "c # before"] that by (simp add: algebra_simps)
  have own: "\<forall>m'. Es_retain_message m' \<in> set calls \<or> Es_release_message m' \<in> set calls \<longrightarrow> m' = m"
    using Cons.prems(1) by auto
  have d: "?d \<le> 1" by simp
  have step: "\<exists>st' mock'. replay calls st1 = Some st' \<and> messages st' (msg_address m) = Some mock' \<and>
      uint (references mock') = n + retain_count m (c # calls)"
    if "messages st1 (msg_address m) = Some mock1" "uint (references mock1) = n + ?d" for st1 mock1
  proof -
    have "n + ?d + int (length calls) < 2 ^ 64" using Cons.prems(5) d by simp
    then have "\<exists>st' mock'. replay calls st1 = Some st' \<and> messages st' (msg_address m) = Some mock' \<and>
        uint (references mock') = n + ?d + retain_count m calls"
      using rest by (intro Cons.IH [OF own _ that]) auto
    then show ?thesis by (simp add: algebra_simps)
  qed
  show ?case
  proof (cases c)
    case (Es_retain_message m')
    then have m': "m' = m" using Cons.prems(1) by auto
    have "uint (references mock + 1) = n + 1"
      using Cons.prems(4) small n by (simp add: uint_plus_if' )
    then show ?thesis
      using step [of "st\<lparr>messages := (messages st)(msg_address m \<mapsto> mock\<lparr>references := references mock + 1\<rparr>)\<rparr>"
        "mock\<lparr>references := references mock + 1\<rparr>"] Cons.prems(3)
      by (simp add: Es_retain_message m' es_retain_message_def)
  next
    case (Es_release_message m')
    then have m': "m' = m" using Cons.prems(1) by auto
    have "0 < n + ?d" using rest [of "[]"] by simp
    then have n1: "1 < n" by (simp add: Es_release_message m')
    then have "references mock \<noteq> 1" using Cons.prems(4) by auto
    moreover have "uint (references mock - 1) = n - 1"
      using Cons.prems(4) n1 by (simp add: uint_sub_if')
    ultimately show ?thesis
      using step [of "st\<lparr>messages := (messages st)(msg_address m \<mapsto> mock\<lparr>references := references mock - 1\<rparr>)\<rparr>"
        "mock\<lparr>references := references mock - 1\<rparr>"] Cons.prems(3)
      by (simp add: Es_release_message m' es_release_message_def)
  qed (use step [of st mock] step [of "snd (es_respond_auth_result _ _ _ _ st)" mock]
      step [of "snd (es_respond_flags_result _ _ _ _ st)" mock] Cons.prems(3,4) in simp_all)
qed

lemma fill_event_keeps:
  assumes "event_type = ES_EVENT_TYPE_NOTIFY_GATEKEEPER_USER_OVERRIDE \<Longrightarrow> event_data mock \<noteq> None"
  shows "\<exists>mock'. fill_event event_type mock = Some mock' \<and> references mock' = references mock"
  using assms by (cases "event_data mock") (auto simp: fill_event_def Let_def)

text \<open>C38. An injected message lives as long as the client holds it: when the handler makes calls that only
  hold this message and never give back more than they took, the injection returns, and after it the
  message is freed if they hold none, and has exactly the references they hold otherwise. If its event
  data cannot be allocated the handler does not run and the message is freed.\<close>

theorem injected_message_lives_while_held:
  assumes "message_address p = Some a" "natives st client = Some handle"
    and "if event_type = ES_EVENT_TYPE_NOTIFY_GATEKEEPER_USER_OVERRIDE then 0 < event_size else True"
    and "msg_address m = a" "balanced m calls" "length calls < 2 ^ 64 - 1"
  shows "\<exists>st'. esmock_inject p (\<lambda>_. replay calls) client event_type action deadline version event_size
      result_type result from_client st = Some st' \<and>
    (if 0 < event_size \<and> data_address p = None then st' = st\<lparr>messages := (messages st)(a := None)\<rparr>
     else if retain_count m calls = 0 then messages st' a = None
     else \<exists>mock. messages st' a = Some mock \<and> uint (references mock) = retain_count m calls)"
proof -
  define mock where "mock = injected_message p a event_type action deadline version result_type result from_client"
  have one: "references mock = 1" by (simp add: mock_def injected_message_def)
  show ?thesis
  proof (cases "0 < event_size \<and> data_address p = None")
    case True
    then show ?thesis
      using assms(1) one by (simp add: esmock_inject_def Let_def mock_def [symmetric] es_release_message_def)
  next
    case False
    let ?mock = "if 0 < event_size then mock\<lparr>event_data := data_address p\<rparr> else mock"
    have refs: "references ?mock = 1" by (simp add: one)
    have data: "event_type = ES_EVENT_TYPE_NOTIFY_GATEKEEPER_USER_OVERRIDE \<Longrightarrow> event_data ?mock \<noteq> None"
      using False assms(3) by simp
    obtain mock1 where m1: "fill_event event_type ?mock = Some mock1" "references mock1 = 1"
      using fill_event_keeps [OF data] refs by auto
    let ?st = "st\<lparr>messages := (messages st)(a \<mapsto> mock1)\<rparr>"
    have "0 < 1 + retain_count m before" if "calls = before @ after" for before after
      using assms(5) that by (auto simp: balanced_def)
    moreover have "\<forall>m'. Es_retain_message m' \<in> set calls \<or> Es_release_message m' \<in> set calls \<longrightarrow> m' = m"
      using assms(5) by (simp add: balanced_def)
    ultimately obtain st1 mock2 where run: "replay calls ?st = Some st1" "messages st1 a = Some mock2"
        "uint (references mock2) = 1 + retain_count m calls"
      using replay_references [of calls m 1 ?st mock1] m1(2) assms(4,6) by auto
    have "0 \<le> retain_count m calls" using assms(5) by (auto simp: balanced_def)
    have eq: "esmock_inject p (\<lambda>_. replay calls) client event_type action deadline version event_size
        result_type result from_client st = es_release_message a st1"
      using assms(1,2) m1(1) run(1)
      by (simp add: esmock_inject_def Let_def mock_def [symmetric] if_not_P [OF False] split: if_splits)
    show ?thesis
    proof (cases "retain_count m calls = 0")
      case True
      then have "references mock2 = 1" using run(3) by (simp add: word_uint_eq_iff)
      then show ?thesis using True run(2) unfolding eq if_not_P [OF False] by (simp add: es_release_message_def)
    next
      case more: False
      then have "references mock2 \<noteq> 1" "uint (references mock2 - 1) = retain_count m calls"
        using run(3) \<open>0 \<le> retain_count m calls\<close> by (auto simp: uint_sub_if')
      then show ?thesis
        using more run(2) unfolding eq if_not_P [OF False] by (simp add: es_release_message_def)
    qed
  qed
qed

definition sample_platform :: mock_platform where
  "sample_platform = \<lparr>message_address = Some 4096, data_address = None, process_in = (\<lambda>a. a + 64),
     realtime = (0, 0), ticks = 100\<rparr>"

theorem injected_message_lives_while_held_witness:
  "(\<exists>st'. esmock_inject sample_platform (\<lambda>_. replay [Es_retain_message sample_message]) 7 0 ES_ACTION_TYPE_AUTH 1000 8 0 0 0
      False one_client = Some st' \<and> messages st' 4096 \<noteq> None) \<and>
   (\<exists>st'. esmock_inject sample_platform (\<lambda>_. replay [Es_retain_message sample_message, Es_release_message sample_message])
      7 0 ES_ACTION_TYPE_AUTH 1000 8 0 0 0 False one_client = Some st' \<and> messages st' 4096 = None)"
proof -
  obtain handle where n: "natives one_client 7 = Some handle" using one_client_ok by (auto simp: mock_client_ok_def)
  have b: "balanced sample_message [Es_retain_message sample_message]"
    "balanced sample_message [Es_retain_message sample_message, Es_release_message sample_message]"
    by (auto simp: balanced_def Cons_eq_append_conv)
  have p: "message_address sample_platform = Some 4096" "msg_address sample_message = 4096"
    by (simp_all add: sample_platform_def sample_message_def)
  show ?thesis
    using injected_message_lives_while_held [OF p(1) n _ p(2) b(1), of 0 0 ES_ACTION_TYPE_AUTH 1000 8 0 0 False]
      injected_message_lives_while_held [OF p(1) n _ p(2) b(2), of 0 0 ES_ACTION_TYPE_AUTH 1000 8 0 0 False]
    by auto
qed

end
