(* ===== verification/Spec2Isabelle.thy ===== *)
theory Spec2Isabelle
  imports Close_Protocol Wakeup_Protocol Native_Handshake Release_Acquire Deadline_Liveness Deadline_Map
    Gc_Model Extension_Init Mock_Laws
begin

text \<open>
  Verification library for the native extension of endpoint_security, a Ruby binding of Apple's
  Endpoint Security framework.

  The program. The framework calls a handler block on threads of its own (\<open>handle_message\<close> in
  ext/endpoint_security/client.c). The handler puts the message into a lock-free ring (queue.c) and wakes a
  Ruby dispatcher through a pipe. The dispatcher drains the ring (\<open>client_drain\<close>), wraps each slot in a
  Message object (message.c), reads its fields through schema-driven views (field.c and
  generated/es_schema.c), and answers AUTH messages. A watchdog thread (watchdog.c) keeps a heap of the
  deadlines of unanswered AUTH messages and answers them before the framework kills the client. An answer
  is claimed by a compare-and-exchange on the slot, and a slot is only reused after the watchdog has left it
  (\<open>esrb_queue_disarm\<close>, the \<open>occupied\<close> flag and the count of \<open>readers\<close>). mute.c passes mute operations
  through. support/esmock/esmock.c replaces the framework in tests.

  The theories, in the order of the imports.

  \<^item> \<open>Es_Prelude\<close>, \<open>Interfaces\<close>: machine types, arithmetic of ring positions, the runner of step machines;
    the locales \<open>source\<close>, \<open>channel\<close>, \<open>source_consumer\<close> and \<open>agenda\<close> that state what the ring, the request
    ring and the heap promise the loops that use them.
  \<^item> \<open>Queue_Model\<close> (queue.h, queue.c): slots and the ring, each function a step machine with one access to
    shared memory per step, and its sequential reading. \<open>Ring_Invariant\<close> and \<open>Queue_Seq\<close>: the invariant
    \<open>ring k e d U C R\<close> (capacity \<open>2 ^ k\<close>, \<open>e\<close> positions claimed, \<open>d\<close> taken, \<open>U\<close> claimed but not yet
    marked, \<open>C\<close> marked but not published, \<open>R\<close> released) and what each function does under it.
    \<open>Queue_Fifo\<close>: the ring refines a FIFO.
  \<^item> \<open>Answer_Model\<close>: filling a slot, the race for the answer, the watchdog's visit to a slot.
    \<open>Protocol\<close>: the interleaving system of any number of threads, each a callback or a holder, and the
    watchdog, with a history of claims and responses. \<open>Protocol_Invariant\<close> to \<open>Protocol_Answers\<close>: its
    invariant and the proof that every step keeps it; \<open>Protocol_Runs\<close>, \<open>Protocol_Safety\<close>: the claims about
    every reachable state, with concrete runs that reach the states they speak of.
  \<^item> \<open>Wakeup_Protocol\<close> (client.c, handle_message, esrb_notify, client_drain, client_close_native): any number
    of callbacks interleaved with draining, waking and closing at every access to the count of callbacks, the
    flags and the pipe; the ring appears by its positions.
    \<open>Native_Handshake\<close> (client_native_main, the end of client_initialize, client_close_native): the native
    thread and the Ruby thread that starts and closes it, at every access to their mutex, condition variable
    and flags. \<open>Release_Acquire\<close>: a memory with stale reads, for the memory orders of the code.
  \<^item> \<open>Watchdog_Heap\<close>, \<open>Watchdog_Ring\<close> (watchdog.c, heap_swap to esrb_watchdog_arm): the heap with its index
    from slots, and the ring of arming requests. \<open>Deadline_Map\<close>: the heap as a map from slots to entries.
  \<^item> \<open>Ruby_Values\<close>: Ruby values, exceptions as values of a sum, numeric conversions with their ranges.
  \<^item> \<open>Client_State\<close>, \<open>Client_Callback\<close>, \<open>Client_Close\<close>, \<open>Client_Init\<close>, \<open>Client_Control\<close> (client.h, client.c):
    the client record and its operations. The framework is an \<open>es_host\<close>, which may answer a call as it
    likes from the whole history of calls; the history is the field \<open>trace\<close>, and what a function does to
    the framework is stated on it. A loop that may not end gives \<open>None\<close>.
  \<^item> \<open>Watchdog_Thread\<close> (watchdog.c, answer_due, esrb_watchdog_main): the rounds of the watchdog; what other
    threads do during a wait is an argument. \<open>Close_Protocol\<close>: closing a client after any run of \<open>Protocol\<close>
    that has come to rest.
  \<^item> \<open>Control_Laws\<close>: draining, refusals, answering from Ruby, and that the callback keeps \<open>client_ok\<close>, the
    invariant of ring, request ring and heap together. \<open>Deadline_Liveness\<close>: what the callback arms, the
    round of the watchdog answers.
  \<^item> \<open>Message_Model\<close> (message.c) and \<open>Mute_Model\<close> (mute.c).
  \<^item> \<open>Field_Values\<close>, \<open>Field_Model\<close> (field.c, field.h): memory is a function from addresses to bytes, a view is
    an address with a schema; a field is read by the text of its type, as the code does.
    \<open>Es_Schema\<close>, \<open>Schema_Facts\<close> (generated/es_schema.c): the tables, one definition per array, and what they
    guarantee the reader.
  \<^item> \<open>Gc_Model\<close> (the mark, free and size functions of message.c, field.c, client.c): the objects of the
    extension in a heap that Ruby and its collector change. \<open>Extension_Init\<close> (endpoint_security.c and the
    \<open>esrb_init\<close> functions): what is registered with Ruby.
  \<^item> \<open>Es_Mock\<close>, \<open>Mock_Laws\<close> (support/esmock/esmock.c and the Ruby module at the end of client.c).

  What the lemmas show. In every interleaving an AUTH message is answered at most once, exactly once when
  its slot is released, a NOTIFY message never; the watchdog only reads a live message of the entry it
  answers for; the ring loses, duplicates and reorders nothing, and drops a message only when the slot one
  lap back is unreleased; closing lets no callback go on working on the ring, answers exactly what the interleaving
  has left unanswered, and ends, its native thread with it; no wake-up of the dispatcher is lost. Objects that
  Ruby can reach never point to a freed one, but the order in which the collector frees a client and its
  messages matters, and the program does not control it. Run alone, the ring is a FIFO, the heap with its request ring an agenda that gives
  back exactly the due entries in order, the callback queues or answers on every path and keeps every
  invariant, the constructor undoes what it did on every failure, closing answers and releases everything
  once, an AUTH message that was queued is answered no later than the first round of the watchdog at or after
  its fire time, and each Ruby method does what its branch says, errors included. Values read from a message show the
  version of the view they come from, and a field newer than the message is never read.

  Bounds and fuel. Words are at their width (positions and counters 64 bits, wrapping); the capacity is any
  power of two below \<open>2 ^ 63\<close>. No definition uses fuel except \<open>esrb_watchdog_main\<close>, whose argument is the list
  of what happens during its waits: the thread returns once a wait ends with the running flag cleared. In
  \<open>Native_Handshake\<close> the two threads need at most 479 turns each, the bound of \<open>steps_left\<close>.

  What is assumed or left out. The interleaved theories take memory to be sequentially consistent. The orders
  the code asks for are weaker where a write must be seen before a later load (closing against callbacks,
  disarming against the watchdog, the notified flag against the queue): \<open>Release_Acquire\<close> shows that without
  stale reads the two memories agree, that then none of the three can fail, and that with them each can. In the
  sequential theories the functions of different threads do not overlap. \<open>Protocol\<close> interleaves everything
  that touches the ring and the answers, and \<open>Close_Protocol\<close> closes after it; \<open>Wakeup_Protocol\<close> interleaves
  closing and waking, without the answers, the watchdog, and the drain that raises for a negative maximum
  (\<open>Control_Laws\<close> shows what that one does). Allocation fails only where the code checks it. The encoding
  of strings and warnings printed by Ruby are not modelled, and the texts of the exceptions of Ruby's own
  conversions are shortened.

  Not modelled: the Ruby library under lib/ and the code generator, which are other programs above and before
  this one. The frameworks and headers of the platform (libbsm, Mach, access control lists, struct layouts,
  \<open>EventType\<close> and \<open>Enum\<close> of the Ruby library) are arguments of the definitions that use them, and the
  collector is a relation that frees only what is not marked.
\<close>

end
